(* ===== verification/GoPrelude.thy ===== *)
theory GoPrelude
  imports Main "HOL-Library.Word" "HOL-Library.Sublist"
begin

text \<open>
  Shared ground of the development: the Go types the program uses (errors as the optional
  second result of a call, strings as byte lists), the functions of Go's standard library that
  the sources call on strings and integers, and the collections of simplification rules the
  component theories fill.

  \<^item> \<open>err\<close> is Go's \<open>error\<close>: \<open>None\<close> is \<open>nil\<close>, \<open>Some msg\<close> an error whose \<open>Error()\<close> is \<open>msg\<close>.
    A call that returns \<open>(T, error)\<close> is a function into \<open>'a \<times> err\<close>; the caller may look at
    the first part without looking at the second, as the sources do with \<open>u, _ := ...\<close>.
  \<^item> \<open>contains\<close> is \<open>strings.Contains\<close>; \<open>show_nat\<close> and \<open>show_int\<close> print in base 10
    (\<open>%d\<close>); \<open>ParseInt\<close> is \<open>strconv.ParseInt(s, 10, bits)\<close>, which returns a value beside
    its error, and \<open>Atoi\<close> is \<open>strconv.Atoi\<close> on a 64-bit platform.
\<close>

section \<open>Collections\<close>

named_theorems go_defs \<open>definitions of small operations, unfolded in component proofs\<close>
named_theorems wf_intros \<open>preservation of well-formedness, one fact per operation\<close>

section \<open>Errors and strings\<close>

type_synonym err = "string option"

lemma err_cases: "(e = None \<Longrightarrow> P) \<Longrightarrow> (\<And>m. e = Some m \<Longrightarrow> P) \<Longrightarrow> P" for e :: err
  by (cases e) auto

text \<open>\<open>strings.Contains(s, sub)\<close>: a window of \<open>s\<close> starts with \<open>sub\<close>.\<close>

fun contains :: "string \<Rightarrow> string \<Rightarrow> bool" where
  "contains [] sub = (sub = [])"
| "contains (c # s) sub = (prefix sub (c # s) \<or> contains s sub)"

lemma contains_sublist: "contains s sub \<longleftrightarrow> sublist sub s"
proof (induction s)
  case (Cons c s)
  then show ?case by (simp add: sublist_Cons_right)
qed simp

lemma contains_length: "contains s sub \<Longrightarrow> length sub \<le> length s"
  by (simp add: contains_sublist sublist_length_le)

lemma contains_self [simp]: "contains s s"
  by (simp add: contains_sublist)

lemma contains_set: "contains s sub \<Longrightarrow> set sub \<subseteq> set s"
  by (simp add: contains_sublist set_mono_sublist)

lemma contains_append: "contains s sub \<Longrightarrow> contains (p @ s @ q) sub"
  unfolding contains_sublist by (meson sublist_append_leftI sublist_append_rightI sublist_order.order.trans)

section \<open>Decimal numbers\<close>

definition digit_char :: "nat \<Rightarrow> char" where
  "digit_char d = char_of (48 + d)"

definition char_digit :: "char \<Rightarrow> nat option" where
  "char_digit c = (let n = of_char c in if 48 \<le> n \<and> n \<le> 57 then Some (n - 48) else None)"

lemma char_digit_char [simp]: "d < 10 \<Longrightarrow> char_digit (digit_char d) = Some d"
  by (simp add: char_digit_def digit_char_def Let_def of_char_of)

lemma char_digit_lt: "char_digit c = Some d \<Longrightarrow> d < 10"
  by (auto simp: char_digit_def Let_def split: if_splits)

fun show_nat :: "nat \<Rightarrow> string" where
  "show_nat n = (if n < 10 then [digit_char n] else show_nat (n div 10) @ [digit_char (n mod 10)])"

declare show_nat.simps [simp del]

definition show_int :: "int \<Rightarrow> string" where
  "show_int i = (if i < 0 then CHR ''-'' # show_nat (nat (- i)) else show_nat (nat i))"

lemma show_nat_nonempty [simp]: "show_nat n \<noteq> []"
  by (subst show_nat.simps) simp

lemma show_nat_digits: "c \<in> set (show_nat n) \<Longrightarrow> \<exists>d < 10. c = digit_char d"
proof (induction n rule: show_nat.induct)
  case (1 n)
  then show ?case
    by (cases "n < 10") (force simp: show_nat.simps [of n])+
qed

text \<open>
  The digit loop of \<open>strconv.ParseUint(s, 10, bits)\<close>: a bad character is a syntax error, and
  the first digit that takes the value past \<open>maxVal\<close> ends the scan with a range error and the
  value \<open>maxVal\<close>.
\<close>

datatype num_error = ErrSyntax | ErrRange

fun parse_digits :: "nat \<Rightarrow> nat \<Rightarrow> string \<Rightarrow> nat \<times> num_error option" where
  "parse_digits maxVal n [] = (n, None)"
| "parse_digits maxVal n (c # s) =
     (case char_digit c of
        None \<Rightarrow> (0, Some ErrSyntax)
      | Some d \<Rightarrow> if n * 10 + d > maxVal then (maxVal, Some ErrRange)
                  else parse_digits maxVal (n * 10 + d) s)"

definition ParseUint :: "nat \<Rightarrow> string \<Rightarrow> nat \<times> num_error option" where
  "ParseUint bits s = (if s = [] then (0, Some ErrSyntax) else parse_digits (2 ^ bits - 1) 0 s)"

definition signed_value :: "nat \<Rightarrow> bool \<Rightarrow> nat \<Rightarrow> int \<times> num_error option" where
  "signed_value cutoff neg un =
     (if \<not> neg \<and> un \<ge> cutoff then (int cutoff - 1, Some ErrRange)
      else if neg \<and> un > cutoff then (- int cutoff, Some ErrRange)
      else (if neg then - int un else int un, None))"

definition ParseInt :: "nat \<Rightarrow> string \<Rightarrow> int \<times> num_error option" where
  "ParseInt bits s =
     (if s = [] then (0, Some ErrSyntax)
      else let t = (if hd s = CHR ''+'' \<or> hd s = CHR ''-'' then tl s else s);
               (un, e) = ParseUint bits t
           in if e = Some ErrSyntax then (0, Some ErrSyntax)
              else signed_value (2 ^ (bits - 1)) (hd s = CHR ''-'') un)"

definition Atoi :: "string \<Rightarrow> int \<times> num_error option" where
  "Atoi s = ParseInt 64 s"

subsection \<open>Printing and reading back\<close>

lemma parse_digits_append:
  "parse_digits M n (s @ [c]) =
     (case parse_digits M n s of
        (v, Some e) \<Rightarrow> (v, Some e)
      | (v, None) \<Rightarrow> parse_digits M v [c])"
  by (induction s arbitrary: n) (auto split: option.splits)

lemma parse_show_nat: "n \<le> M \<Longrightarrow> parse_digits M 0 (show_nat n) = (n, None)"
proof (induction n rule: show_nat.induct)
  case (1 n)
  show ?case
  proof (cases "n < 10")
    case True
    with "1.prems" show ?thesis by (simp add: show_nat.simps [of n])
  next
    case False
    with 1 have "parse_digits M 0 (show_nat (n div 10)) = (n div 10, None)" by simp
    with False "1.prems" show ?thesis
      by (simp add: show_nat.simps [of n] parse_digits_append)
  qed
qed

lemma ParseUint_show_nat: "n < 2 ^ bits \<Longrightarrow> ParseUint bits (show_nat n) = (n, None)"
  by (simp add: ParseUint_def parse_show_nat)

lemma digit_char_not_sign: "d < 10 \<Longrightarrow> digit_char d \<noteq> CHR ''-'' \<and> digit_char d \<noteq> CHR ''+''"
proof -
  assume "d < 10"
  then have "char_digit (digit_char d) \<noteq> None" by simp
  moreover have "char_digit CHR ''-'' = None" "char_digit CHR ''+'' = None"
    by (simp_all add: char_digit_def)
  ultimately show ?thesis by metis
qed

lemma hd_show_nat: "hd (show_nat n) \<noteq> CHR ''-'' \<and> hd (show_nat n) \<noteq> CHR ''+''"
  using show_nat_digits [of "hd (show_nat n)" n] digit_char_not_sign by force

lemma two_pow_pred: "0 < bits \<Longrightarrow> (2::nat) ^ (bits - 1) < 2 ^ bits"
  by simp

lemma ParseInt_show_int:
  assumes "0 < bits" "- (2 ^ (bits - 1)) \<le> i" "i < 2 ^ (bits - 1)"
  shows "ParseInt bits (show_int i) = (i, None)"
proof (cases "i < 0")
  case True
  with assms have le: "nat (- i) \<le> 2 ^ (bits - 1)" by (simp add: nat_le_iff)
  with two_pow_pred [OF assms(1)]
  have "ParseUint bits (show_nat (nat (- i))) = (nat (- i), None)"
    by (intro ParseUint_show_nat) linarith
  with True le show ?thesis
    by (simp add: ParseInt_def show_int_def Let_def signed_value_def)
next
  case False
  with assms have lt: "nat i < 2 ^ (bits - 1)" by (simp add: nat_less_iff)
  with two_pow_pred [OF assms(1)]
  have "ParseUint bits (show_nat (nat i)) = (nat i, None)"
    by (intro ParseUint_show_nat) linarith
  with False lt show ?thesis
    using hd_show_nat [of "nat i"] by (simp add: ParseInt_def show_int_def Let_def signed_value_def)
qed

lemma signed_value_bounds:
  "0 < c \<Longrightarrow> - int c \<le> fst (signed_value c neg un) \<and> fst (signed_value c neg un) < int c"
  by (auto simp: signed_value_def)

lemma ParseInt_bounds:
  "- (2 ^ (bits - 1)) \<le> fst (ParseInt bits s) \<and> fst (ParseInt bits s) < 2 ^ (bits - 1)"
proof -
  have "fst (ParseInt bits s) = 0 \<or>
      (\<exists>neg un. fst (ParseInt bits s) = fst (signed_value (2 ^ (bits - 1)) neg un))"
    by (auto simp: ParseInt_def Let_def split: prod.splits)
  then show ?thesis
    using signed_value_bounds [of "2 ^ (bits - 1)"] by auto
qed

section \<open>Options\<close>

lemma option_Some_eqI: "(\<And>v. x = Some v \<longleftrightarrow> y = Some v) \<Longrightarrow> x = y"
  by (cases x; cases y) (metis option.distinct(1) option.inject)+

end
