(* ===== verification/GoTime.thy ===== *)
theory GoTime
  imports GoPrelude
begin

text \<open>
  \<open>time.Time\<close> as the program uses it: the wall-clock fields in the location of the value, with
  the location's offset from UTC in seconds, the layouts \<open>"2006-01-02"\<close> (\<open>dao.Date\<close>),
  \<open>"2006-01-02 15:04:05"\<close> (\<open>status.currentTimestamp\<close>) and \<open>time.RFC3339\<close> (\<open>RedisDB.GetUrl\<close>),
  and \<open>time.Now\<close> as the next reading of a clock that is part of the state. The readings are
  an arbitrary sequence: two calls of \<open>time.Now\<close> in one function may fall on different days.
\<close>

record gotime =
  year :: int
  month :: int
  day :: int
  hour :: int
  minute :: int
  second :: int
  nsec :: int
  offset :: int

text \<open>The zero value of \<open>time.Time\<close>: January 1, year 1, 00:00:00 UTC.\<close>

definition zero_time :: gotime where
  "zero_time = \<lparr>year = 1, month = 1, day = 1, hour = 0, minute = 0, second = 0, nsec = 0, offset = 0\<rparr>"

record wall_clock =
  readings :: "nat \<Rightarrow> gotime"
  ticks :: nat

definition time_Now :: "wall_clock \<Rightarrow> gotime \<times> wall_clock" where
  "time_Now c = (readings c (ticks c), c\<lparr>ticks := Suc (ticks c)\<rparr>)"

lemma time_Now_simps [simp]:
  "fst (time_Now c) = readings c (ticks c)"
  "readings (snd (time_Now c)) = readings c"
  "ticks (snd (time_Now c)) = Suc (ticks c)"
  by (simp_all add: time_Now_def)

section \<open>Layouts\<close>

text \<open>\<open>appendInt(b, x, width)\<close> of package \<open>time\<close>: zero padding on the left, never truncating.\<close>

definition pad :: "nat \<Rightarrow> int \<Rightarrow> string" where
  "pad w x =
     (let ds = show_nat (nat \<bar>x\<bar>)
      in (if x < 0 then ''-'' else '''') @ replicate (w - length ds) CHR ''0'' @ ds)"

definition format_date :: "gotime \<Rightarrow> string" where
  "format_date t = pad 4 (year t) @ ''-'' @ pad 2 (month t) @ ''-'' @ pad 2 (day t)"

definition format_clock :: "gotime \<Rightarrow> string" where
  "format_clock t = pad 2 (hour t) @ '':'' @ pad 2 (minute t) @ '':'' @ pad 2 (second t)"

definition format_datetime :: "gotime \<Rightarrow> string" where
  "format_datetime t = format_date t @ '' '' @ format_clock t"

definition format_zone :: "int \<Rightarrow> string" where
  "format_zone off =
     (if off = 0 then ''Z''
      else let z = \<bar>off\<bar> div 60
           in (if off \<le> -60 then ''-'' else ''+'') @ pad 2 (z div 60) @ '':'' @ pad 2 (z mod 60))"

definition format_RFC3339 :: "gotime \<Rightarrow> string" where
  "format_RFC3339 t = format_date t @ ''T'' @ format_clock t @ format_zone (offset t)"

section \<open>The date layout separates days\<close>

fun dec_width :: "nat \<Rightarrow> nat" where
  "dec_width n = (if n < 10 then 1 else Suc (dec_width (n div 10)))"

declare dec_width.simps [simp del]

lemma length_show_nat: "length (show_nat n) = dec_width n"
  by (induction n rule: show_nat.induct)
    (simp add: show_nat.simps [of n for n] dec_width.simps [of n for n])

lemma dec_width_le: "n < 10 ^ Suc w \<Longrightarrow> dec_width n \<le> Suc w"
proof (induction w arbitrary: n)
  case 0
  then show ?case by (simp add: dec_width.simps)
next
  case (Suc w)
  show ?case
  proof (cases "n < 10")
    case False
    from Suc.prems have "n div 10 < 10 ^ Suc w" by (simp add: less_mult_imp_div_less)
    then have "dec_width (n div 10) \<le> Suc w" by (rule Suc.IH)
    with False show ?thesis by (simp add: dec_width.simps [of n])
  qed (simp add: dec_width.simps [of n])
qed

lemma length_pad: "0 \<le> x \<Longrightarrow> x < 10 ^ Suc w \<Longrightarrow> length (pad (Suc w) x) = Suc w"
  using dec_width_le [of "nat x" w]
  by (simp add: pad_def Let_def length_show_nat nat_less_iff)

lemma parse_replicate_zero:
  "parse_digits M 0 (replicate k CHR ''0'' @ s) = parse_digits M 0 s"
proof (induction k)
  case (Suc k)
  have "char_digit CHR ''0'' = Some 0" by (simp add: char_digit_def)
  with Suc show ?case by simp
qed simp

lemma parse_pad: "0 \<le> x \<Longrightarrow> nat x \<le> M \<Longrightarrow> parse_digits M 0 (pad w x) = (nat x, None)"
  by (simp add: pad_def Let_def parse_replicate_zero parse_show_nat)

lemma pad_inj: "0 \<le> x \<Longrightarrow> 0 \<le> y \<Longrightarrow> pad w x = pad w y \<Longrightarrow> x = y"
proof -
  assume nn: "0 \<le> x" "0 \<le> y" and eq: "pad w x = pad w y"
  let ?M = "max (nat x) (nat y)"
  have "parse_digits ?M 0 (pad w x) = (nat x, None)" "parse_digits ?M 0 (pad w y) = (nat y, None)"
    using nn by (simp_all add: parse_pad)
  with eq nn show "x = y" by simp
qed

text \<open>A time whose year, month and day have the widths the layout gives them.\<close>

definition civil :: "gotime \<Rightarrow> bool" where
  "civil t \<longleftrightarrow> 0 \<le> year t \<and> year t \<le> 9999 \<and> 1 \<le> month t \<and> month t \<le> 12 \<and> 1 \<le> day t \<and> day t \<le> 31"

lemma format_date_inj:
  assumes "civil s" "civil t" "format_date s = format_date t"
  shows "year s = year t \<and> month s = month t \<and> day s = day t"
proof -
  have len: "length (pad 4 (year s)) = length (pad 4 (year t))"
    "length (pad 2 (month s)) = length (pad 2 (month t))"
    using assms(1,2) length_pad [of "year s" 3] length_pad [of "year t" 3]
      length_pad [of "month s" 1] length_pad [of "month t" 1]
    by (simp_all add: civil_def numeral_eq_Suc)
  from assms(3) len
  have "pad 4 (year s) = pad 4 (year t)" "pad 2 (month s) = pad 2 (month t)"
    "pad 2 (day s) = pad 2 (day t)"
    by (simp_all add: format_date_def)
  with assms(1,2) show ?thesis
    by (auto simp: civil_def dest: pad_inj [rotated 2])
qed


section \<open>Reading a time back\<close>

text \<open>
  \<open>time.Parse(time.RFC3339, s)\<close> by the path package \<open>time\<close> takes for this layout
  (\<open>parseRFC3339\<close>). Fractions of a second, which the layout does not write, are left out.
\<close>

definition parse_field :: "int \<Rightarrow> int \<Rightarrow> string \<Rightarrow> int option" where
  "parse_field lo hi s =
     (case parse_digits 9999 0 s of
        (x, None) \<Rightarrow> if lo \<le> int x \<and> int x \<le> hi then Some (int x) else None
      | _ \<Rightarrow> None)"

definition leap :: "int \<Rightarrow> bool" where
  "leap y \<longleftrightarrow> y mod 4 = 0 \<and> (y mod 100 \<noteq> 0 \<or> y mod 400 = 0)"

definition daysIn :: "int \<Rightarrow> int \<Rightarrow> int" where
  "daysIn m y =
     (if m = 2 then (if leap y then 29 else 28) else if m = 4 \<or> m = 6 \<or> m = 9 \<or> m = 11 then 30 else 31)"

definition parse_zone :: "string \<Rightarrow> int option" where
  "parse_zone s =
     (if s = ''Z'' then Some 0
      else if length s = 6 \<and> (s ! 0 = CHR ''-'' \<or> s ! 0 = CHR ''+'') \<and> s ! 3 = CHR '':'' then
        (case (parse_field 0 23 (take 2 (drop 1 s)), parse_field 0 59 (drop 4 s)) of
           (Some hr, Some mm) \<Rightarrow> Some (if s ! 0 = CHR ''-'' then - ((hr * 60 + mm) * 60) else (hr * 60 + mm) * 60)
         | _ \<Rightarrow> None)
      else None)"

definition parse_RFC3339 :: "string \<Rightarrow> gotime option" where
  "parse_RFC3339 s =
     (if length s < 19 then None
      else
        (case (parse_field 0 9999 (take 4 s), parse_field 1 12 (take 2 (drop 5 s))) of
           (Some y, Some mo) \<Rightarrow>
             (case (parse_field 1 (daysIn mo y) (take 2 (drop 8 s)), parse_field 0 23 (take 2 (drop 11 s)),
                    parse_field 0 59 (take 2 (drop 14 s)), parse_field 0 59 (take 2 (drop 17 s)), parse_zone (drop 19 s)) of
                (Some d, Some h, Some mi, Some sec, Some off) \<Rightarrow>
                  if s ! 4 = CHR ''-'' \<and> s ! 7 = CHR ''-'' \<and> s ! 10 = CHR ''T'' \<and> s ! 13 = CHR '':'' \<and> s ! 16 = CHR '':''
                  then Some \<lparr>year = y, month = mo, day = d, hour = h, minute = mi, second = sec, nsec = 0, offset = off\<rparr>
                  else None
              | _ \<Rightarrow> None)
         | _ \<Rightarrow> None))"

text \<open>A time as the wall clock shows it, in a zone whose offset is whole minutes.\<close>

definition proper :: "gotime \<Rightarrow> bool" where
  "proper t \<longleftrightarrow> 0 \<le> year t \<and> year t \<le> 9999 \<and> 1 \<le> month t \<and> month t \<le> 12 \<and>
     1 \<le> day t \<and> day t \<le> daysIn (month t) (year t) \<and> 0 \<le> hour t \<and> hour t \<le> 23 \<and>
     0 \<le> minute t \<and> minute t \<le> 59 \<and> 0 \<le> second t \<and> second t \<le> 59 \<and>
     \<bar>offset t\<bar> < 24 * 3600 \<and> 60 dvd offset t"

lemma parse_field_pad: "0 \<le> x \<Longrightarrow> lo \<le> x \<Longrightarrow> x \<le> hi \<Longrightarrow> x \<le> 9999 \<Longrightarrow> parse_field lo hi (pad w x) = Some x"
  by (simp add: parse_field_def parse_pad)

lemma length_pad2: "0 \<le> x \<Longrightarrow> x < 100 \<Longrightarrow> length (pad 2 x) = 2"
  using length_pad [of x 1] by (simp add: numeral_eq_Suc)

lemma length_pad4: "0 \<le> x \<Longrightarrow> x < 10000 \<Longrightarrow> length (pad 4 x) = 4"
  using length_pad [of x 3] by (simp add: numeral_eq_Suc)

lemma two_chars: "length xs = 2 \<Longrightarrow> \<exists>a b. xs = [a, b]"
  by (auto simp: numeral_eq_Suc length_Suc_conv)

lemma four_chars: "length xs = 4 \<Longrightarrow> \<exists>a b c d. xs = [a, b, c, d]"
  by (auto simp: numeral_eq_Suc length_Suc_conv)

lemma parse_format_zone:
  assumes "\<bar>off\<bar> < 24 * 3600" "60 dvd off"
  shows "parse_zone (format_zone off) = Some off"
proof (cases "off = 0")
  case False
  from assms(2) obtain z where z: "off = 60 * z" by (elim dvdE)
  let ?h = "\<bar>z\<bar> div 60" and ?m = "\<bar>z\<bar> mod 60"
  have b: "0 \<le> ?h" "?h \<le> 23" "0 \<le> ?m" "?m \<le> 59" and zh: "\<bar>z\<bar> = ?h * 60 + ?m" using assms(1) z by (simp_all)
  obtain sg where sg: "sg = (if off \<le> -60 then CHR ''-'' else CHR ''+'')" by simp
  have f: "format_zone off = sg # pad 2 ?h @ CHR '':'' # pad 2 ?m"
    using False z by (auto simp: format_zone_def sg abs_mult Let_def)
  obtain h1 h2 m1 m2 where l: "pad 2 ?h = [h1, h2]" "pad 2 ?m = [m1, m2]"
    using two_chars [OF length_pad2, of ?h] two_chars [OF length_pad2, of ?m] b by auto
  have p: "parse_field 0 23 [h1, h2] = Some ?h" "parse_field 0 59 [m1, m2] = Some ?m"
    using b parse_field_pad [of ?h 0 23 2] parse_field_pad [of ?m 0 59 2] l by simp_all
  have "format_zone off = [sg, h1, h2, CHR '':'', m1, m2]" by (simp add: f l)
  then have "parse_zone (format_zone off) = Some (if sg = CHR ''-'' then - ((?h * 60 + ?m) * 60) else (?h * 60 + ?m) * 60)"
    using p by (simp add: parse_zone_def sg numeral_eq_Suc)
  also have "(if sg = CHR ''-'' then - ((?h * 60 + ?m) * 60) else (?h * 60 + ?m) * 60) = off"
    unfolding zh [symmetric] sg using z by auto
  finally show ?thesis .
qed (simp add: format_zone_def parse_zone_def)

text \<open>What the layout writes, the path for the layout reads back, to the second.\<close>

lemma parse_format_RFC3339:
  assumes "proper t" shows "parse_RFC3339 (format_RFC3339 t) = Some (t\<lparr>nsec := 0\<rparr>)"
proof -
  have d31: "day t \<le> 31" using assms by (auto simp: proper_def daysIn_def split: if_splits)
  obtain y1 y2 y3 y4 where y: "pad 4 (year t) = [y1, y2, y3, y4]"
    using length_pad4 [of "year t"] assms four_chars by (fastforce simp: proper_def)
  have two: "\<exists>a b. pad 2 x = [a, b]" if "0 \<le> x" "x < 100" for x
    using length_pad2 [OF that] two_chars by blast
  obtain o1 o2 where mo: "pad 2 (month t) = [o1, o2]" using two [of "month t"] assms by (auto simp: proper_def)
  obtain d1 d2 where d: "pad 2 (day t) = [d1, d2]" using two [of "day t"] assms d31 by (auto simp: proper_def)
  obtain h1 h2 where h: "pad 2 (hour t) = [h1, h2]" using two [of "hour t"] assms by (auto simp: proper_def)
  obtain i1 i2 where mi: "pad 2 (minute t) = [i1, i2]" using two [of "minute t"] assms by (auto simp: proper_def)
  obtain s1 s2 where s: "pad 2 (second t) = [s1, s2]" using two [of "second t"] assms by (auto simp: proper_def)
  have p: "parse_field 0 9999 [y1, y2, y3, y4] = Some (year t)" "parse_field 1 12 [o1, o2] = Some (month t)"
    "parse_field 1 (daysIn (month t) (year t)) [d1, d2] = Some (day t)" "parse_field 0 23 [h1, h2] = Some (hour t)"
    "parse_field 0 59 [i1, i2] = Some (minute t)" "parse_field 0 59 [s1, s2] = Some (second t)"
    using assms d31 by (simp_all add: y [symmetric] mo [symmetric] d [symmetric] h [symmetric] mi [symmetric]
        s [symmetric] proper_def parse_field_pad)
  have z: "parse_zone (format_zone (offset t)) = Some (offset t)"
    using assms by (intro parse_format_zone) (simp_all add: proper_def)
  have f: "format_RFC3339 t = [y1, y2, y3, y4, CHR ''-'', o1, o2, CHR ''-'', d1, d2, CHR ''T'', h1, h2, CHR '':'',
      i1, i2, CHR '':'', s1, s2] @ format_zone (offset t)"
    by (simp add: format_RFC3339_def format_date_def format_clock_def y mo d h mi s)
  have "drop 19 (format_RFC3339 t) = format_zone (offset t)" by (simp add: f)
  moreover have "take 4 (format_RFC3339 t) = [y1, y2, y3, y4]" "take 2 (drop 5 (format_RFC3339 t)) = [o1, o2]"
    "take 2 (drop 8 (format_RFC3339 t)) = [d1, d2]" "take 2 (drop 11 (format_RFC3339 t)) = [h1, h2]"
    "take 2 (drop 14 (format_RFC3339 t)) = [i1, i2]" "take 2 (drop 17 (format_RFC3339 t)) = [s1, s2]"
    "format_RFC3339 t ! 4 = CHR ''-''" "format_RFC3339 t ! 7 = CHR ''-''" "format_RFC3339 t ! 10 = CHR ''T''"
    "format_RFC3339 t ! 13 = CHR '':''" "format_RFC3339 t ! 16 = CHR '':''" "\<not> length (format_RFC3339 t) < 19"
    by (simp_all add: f)
  ultimately show ?thesis using p z by (simp add: parse_RFC3339_def)
qed

end
