(* ===== verification/Dao.thy ===== *)
theory Dao
  imports GoTime
begin

text \<open>
  The data model and the storage interface of package \<open>dao\<close> (src/dao/model.go and
  src/dao/shorturldao.go), and the contracts its clients rely on.

  \<^item> \<open>ShortUrl\<close> is the struct, with \<open>Hits\<close> at its 32 bits. Its field \<open>DailyHits\<close> is a Go map,
    a reference: the type parameter \<open>'d\<close> is what a store puts there (a heap reference in
    \<open>MemoryDB\<close>, which shares it; the map itself in a store that makes a fresh one per call).
  \<^item> \<open>ShortUrlDao\<close> is the Go interface as a record of its methods, each in state-passing form.
    A client takes such a record, as the Go code takes an interface value.
  \<^item> The locale \<open>url_dao\<close> states what a store promises about the links it holds (a partial map
    from abbreviations to URLs), for calls that succeed and for calls that return an error.
    \<open>reading_dao\<close> adds that look-ups return no error, \<open>reliable_dao\<close> that no call does, and
    \<open>refusing_dao\<close> that an abbreviation in use is never taken over by another URL.
\<close>

section \<open>Model\<close>

record 'd ShortUrl =
  Abbreviation :: string
  Url :: string
  Hits :: "32 word"
  LastAccess :: gotime
  DailyHits :: 'd

text \<open>The zero value \<open>ShortUrl{}\<close>; \<open>nil\<close> is the nil map of the store.\<close>

definition zero_ShortUrl :: "'d \<Rightarrow> 'd ShortUrl" where
  "zero_ShortUrl nil =
     \<lparr>Abbreviation = '''', Url = '''', Hits = 0, LastAccess = zero_time, DailyHits = nil\<rparr>"

definition Date :: "wall_clock \<Rightarrow> string \<times> wall_clock" where
  "Date c = (let (t, c1) = time_Now c in (format_date t, c1))"

section \<open>The interface\<close>

record ('s, 'd) ShortUrlDao =
  IsLikelyOk :: "'s \<Rightarrow> bool \<times> 's"
  Save :: "'s \<Rightarrow> string \<Rightarrow> string \<Rightarrow> err \<times> 's"
  DeleteAbv :: "'s \<Rightarrow> string \<Rightarrow> err \<times> 's"
  DeleteUrl :: "'s \<Rightarrow> string \<Rightarrow> err \<times> 's"
  GetUrl :: "'s \<Rightarrow> string \<Rightarrow> (string \<times> err) \<times> 's"
  GetAbv :: "'s \<Rightarrow> string \<Rightarrow> (string \<times> err) \<times> 's"
  GetStats :: "'s \<Rightarrow> string \<Rightarrow> ('d ShortUrl \<times> err) \<times> 's"
  Cleanup :: "'s \<Rightarrow> 's"

section \<open>Contracts\<close>

text \<open>What \<open>GetUrl\<close> answers when it answers: the empty string stands for no link.\<close>

definition url_or_empty :: "(string \<rightharpoonup> string) \<Rightarrow> string \<Rightarrow> string" where
  "url_or_empty L a = (case L a of None \<Rightarrow> '''' | Some u \<Rightarrow> u)"

definition drop_url :: "(string \<rightharpoonup> string) \<Rightarrow> string \<Rightarrow> (string \<rightharpoonup> string)" where
  "drop_url L u = (\<lambda>a. if L a = Some u then None else L a)"

text \<open>The pair is free for \<open>Save\<close>: neither side is bound to something else.\<close>

definition savable :: "(string \<rightharpoonup> string) \<Rightarrow> string \<Rightarrow> string \<Rightarrow> bool" where
  "savable L a u \<longleftrightarrow> a \<noteq> '''' \<and> u \<noteq> '''' \<and> (L a = Some u \<or> (L a = None \<and> u \<notin> ran L))"

locale url_dao =
  fixes D :: "('s, 'd) ShortUrlDao"
    and inv :: "'s \<Rightarrow> bool"
    and links :: "'s \<Rightarrow> (string \<rightharpoonup> string)"
    and fits :: "string \<Rightarrow> string \<Rightarrow> bool"
  assumes links_nonempty: "inv s \<Longrightarrow> links s a = Some u \<Longrightarrow> a \<noteq> '''' \<and> u \<noteq> ''''"
    and links_inj: "inv s \<Longrightarrow> links s a = Some u \<Longrightarrow> links s b = Some u \<Longrightarrow> a = b"
    and getUrl: "inv s \<Longrightarrow> GetUrl D s a = ((v, e), s') \<Longrightarrow>
      inv s' \<and> links s' = links s \<and> v = (if e = None then url_or_empty (links s) a else '''')"
    and getAbv: "inv s \<Longrightarrow> GetAbv D s u = ((v, e), s') \<Longrightarrow>
      inv s' \<and> links s' = links s \<and>
      (if e = None then (if v = '''' then u \<notin> ran (links s) else links s v = Some u) else v = '''')"
    and save: "inv s \<Longrightarrow> fits a u \<Longrightarrow> savable (links s) a u \<Longrightarrow> Save D s a u = (e, s') \<Longrightarrow>
      inv s' \<and> (links s' = (links s)(a \<mapsto> u) \<or> e \<noteq> None \<and> links s' = links s)"
    and deleteAbv: "inv s \<Longrightarrow> DeleteAbv D s a = (e, s') \<Longrightarrow>
      inv s' \<and> (links s' = (links s)(a := None) \<or> e \<noteq> None \<and> links s' = links s)"
    and deleteUrl: "inv s \<Longrightarrow> DeleteUrl D s u = (e, s') \<Longrightarrow>
      inv s' \<and> (links s' = drop_url (links s) u \<or> e \<noteq> None \<and> links s' = links s)"
    and getStats: "inv s \<Longrightarrow> GetStats D s a = ((st, e), s') \<Longrightarrow>
      inv s' \<and> links s' = links s \<and>
      (e = None \<longrightarrow> (case links s a of None \<Rightarrow> Abbreviation st = ''''
                      | Some u \<Rightarrow> Abbreviation st = a \<and> Url st = u))"
    and isLikelyOk: "inv s \<Longrightarrow> IsLikelyOk D s = (ok, s') \<Longrightarrow> inv s' \<and> links s' = links s"
begin

text \<open>Facts about a call whose parts are not yet named.\<close>

lemma getUrl_frame: "inv s \<Longrightarrow> inv (snd (GetUrl D s a)) \<and> links (snd (GetUrl D s a)) = links s"
  using getUrl by (metis prod.collapse)

lemma getAbv_frame: "inv s \<Longrightarrow> inv (snd (GetAbv D s u)) \<and> links (snd (GetAbv D s u)) = links s"
  using getAbv by (metis prod.collapse)

lemma getStats_frame:
  "inv s \<Longrightarrow> inv (snd (GetStats D s a)) \<and> links (snd (GetStats D s a)) = links s"
  using getStats by (metis prod.collapse)

text \<open>A hit is told from a miss: a link's URL is never empty.\<close>

lemma getUrl_hit:
  "inv s \<Longrightarrow> GetUrl D s a = ((v, None), s') \<Longrightarrow> v \<noteq> '''' \<longleftrightarrow> links s a = Some v"
  using getUrl [of s a v None s'] links_nonempty [of s a]
  by (auto simp: url_or_empty_def split: option.splits)

text \<open>The reverse lookup finds the abbreviation a forward lookup leads back from.\<close>

lemma getAbv_inverse:
  "inv s \<Longrightarrow> links s a = Some u \<Longrightarrow> GetAbv D s u = ((v, None), s') \<Longrightarrow> v = a"
  using getAbv [of s u v None s'] links_inj [of s a u v]
  by (auto simp: ran_def split: if_splits)

end

locale reading_dao = url_dao +
  assumes getUrl_nil: "inv s \<Longrightarrow> GetUrl D s a = ((v, e), s') \<Longrightarrow> e = None"
    and getAbv_nil: "inv s \<Longrightarrow> GetAbv D s u = ((v, e), s') \<Longrightarrow> e = None"

locale reliable_dao = reading_dao +
  assumes save_nil: "inv s \<Longrightarrow> fits a u \<Longrightarrow> savable (links s) a u \<Longrightarrow> Save D s a u = (e, s') \<Longrightarrow> e = None"
    and deleteAbv_nil: "inv s \<Longrightarrow> DeleteAbv D s a = (e, s') \<Longrightarrow> e = None"
    and getStats_nil: "inv s \<Longrightarrow> GetStats D s a = ((st, e), s') \<Longrightarrow> e = None"

locale refusing_dao = url_dao +
  assumes save_conflict: "inv s \<Longrightarrow> links s a = Some w \<Longrightarrow> w \<noteq> u \<Longrightarrow> Save D s a u = (e, s') \<Longrightarrow>
      inv s' \<and> links s' = links s"
    and save_known: "inv s \<Longrightarrow> links s b = Some u \<Longrightarrow> links s a = None \<Longrightarrow> Save D s a u = (e, s') \<Longrightarrow>
      inv s' \<and> links s' = links s"

section \<open>Links\<close>

lemma url_or_empty_None [simp]: "L a = None \<Longrightarrow> url_or_empty L a = ''''"
  by (simp add: url_or_empty_def)

lemma url_or_empty_Some [simp]: "L a = Some u \<Longrightarrow> url_or_empty L a = u"
  by (simp add: url_or_empty_def)

lemma drop_url_other: "L a \<noteq> Some u \<Longrightarrow> drop_url L u a = L a"
  by (simp add: drop_url_def)

lemma drop_url_Some: "drop_url L u a = Some v \<longleftrightarrow> L a = Some v \<and> v \<noteq> u"
  by (auto simp: drop_url_def)

lemma same_links: "(\<And>a v. L a = Some v \<longleftrightarrow> M a = Some v) \<Longrightarrow> L = M"
  by (intro ext option_Some_eqI) auto

lemma ran_drop_url: "u \<notin> ran (drop_url L u)"
  by (auto simp: drop_url_def ran_def split: if_splits)

section \<open>Days\<close>

text \<open>
  Two readings of the clock that Date writes alike fall on the same day, so the hits of two days
  are never counted under one key of DailyHits.
\<close>

theorem Date_days:
  assumes "civil (readings c (ticks c))" "civil (readings c' (ticks c'))" "fst (Date c) = fst (Date c')"
  shows "year (readings c (ticks c)) = year (readings c' (ticks c')) \<and>
    month (readings c (ticks c)) = month (readings c' (ticks c')) \<and>
    day (readings c (ticks c)) = day (readings c' (ticks c'))"
  using format_date_inj [OF assms(1,2)] assms(3) by (simp add: Date_def time_Now_def)

theorem Date_days_witness:
  "day (zero_time\<lparr>hour := 5\<rparr>) = day zero_time"
  using Date_days [of "\<lparr>readings = (\<lambda>_. zero_time\<lparr>hour := 5\<rparr>), ticks = 0\<rparr>" "\<lparr>readings = (\<lambda>_. zero_time), ticks = 0\<rparr>"]
  by (simp add: Date_def time_Now_def civil_def zero_time_def format_date_def)

end
