(* ===== verification/LinkSpec.thy ===== *)
theory LinkSpec
  imports Dao
begin

text \<open>
  The abstract specification of a link store with statistics: a partial map from abbreviations to
  links, each with its target, hit count, last access and hits per day. It says what every store
  of package \<open>dao\<close> is meant to do, without indexes, heaps, tables or keys. Also here: calls as
  data (\<open>dao_call\<close>) and their execution on any store (\<open>dao_step\<close>, \<open>dao_run\<close>), so that a fact about
  every sequence of calls, hence every interleaving of atomic calls, is an induction over a list.
\<close>

section \<open>Links with statistics\<close>

record link =
  target :: string
  hit_count :: "32 word"
  last_access :: gotime
  daily :: "string \<rightharpoonup> 64 word"

definition new_link :: "string \<Rightarrow> link" where
  "new_link u = \<lparr>target = u, hit_count = 0, last_access = zero_time, daily = Map.empty\<rparr>"

definition bump :: "(string \<rightharpoonup> 64 word) \<Rightarrow> string \<Rightarrow> (string \<rightharpoonup> 64 word)" where
  "bump h date = h(date \<mapsto> (case h date of None \<Rightarrow> 0 | Some n \<Rightarrow> n) + 1)"

definition hit_link :: "gotime \<Rightarrow> string \<Rightarrow> link \<Rightarrow> link" where
  "hit_link now date l =
     l\<lparr>hit_count := hit_count l + 1, last_access := now, daily := bump (daily l) date\<rparr>"

definition spec_save :: "(string \<rightharpoonup> link) \<Rightarrow> string \<Rightarrow> string \<Rightarrow> (string \<rightharpoonup> link)" where
  "spec_save L a u = L(a \<mapsto> new_link u)"

definition spec_delete_abv :: "(string \<rightharpoonup> link) \<Rightarrow> string \<Rightarrow> (string \<rightharpoonup> link)" where
  "spec_delete_abv L a = L(a := None)"

definition spec_delete_url :: "(string \<rightharpoonup> link) \<Rightarrow> string \<Rightarrow> (string \<rightharpoonup> link)" where
  "spec_delete_url L u = (\<lambda>a. case L a of None \<Rightarrow> None | Some l \<Rightarrow> if target l = u then None else Some l)"

definition spec_get ::
  "gotime \<Rightarrow> string \<Rightarrow> (string \<rightharpoonup> link) \<Rightarrow> string \<Rightarrow> string \<times> (string \<rightharpoonup> link)" where
  "spec_get now date L a =
     (case L a of
        None \<Rightarrow> ('''', L)
      | Some l \<Rightarrow> if target l = '''' then ('''', L) else (target l, L(a \<mapsto> hit_link now date l)))"

section \<open>The hit count and the days\<close>

definition day_total :: "(string \<rightharpoonup> 64 word) \<Rightarrow> 64 word" where
  "day_total h = (\<Sum>date \<in> dom h. the (h date))"

lemma day_total_empty [simp]: "day_total Map.empty = 0"
  by (simp add: day_total_def)

lemma finite_dom_bump [simp]: "finite (dom (bump h date)) = finite (dom h)"
  by (simp add: bump_def)

lemma day_total_bump:
  assumes "finite (dom h)" shows "day_total (bump h date) = day_total h + 1"
proof -
  let ?rest = "\<Sum>x \<in> dom h - {date}. the (h x)"
  have new: "day_total (bump h date) = (case h date of None \<Rightarrow> 0 | Some n \<Rightarrow> n) + 1 + ?rest"
    unfolding day_total_def bump_def using assms
    by (simp add: sum.insert_remove)
  have old: "day_total h = (case h date of None \<Rightarrow> 0 | Some n \<Rightarrow> n) + ?rest"
    unfolding day_total_def using assms
    by (cases "h date") (simp_all add: domIff sum.remove [of "dom h" date] Diff_triv)
  from new old show ?thesis by simp
qed

text \<open>The two records of a link's hits agree up to the width of the smaller one.\<close>

definition balanced :: "link \<Rightarrow> bool" where
  "balanced l \<longleftrightarrow> finite (dom (daily l)) \<and> hit_count l = ucast (day_total (daily l))"

lemma balanced_new [simp]: "balanced (new_link u)"
  by (simp add: balanced_def new_link_def)

lemma ucast_succ: "ucast (w + 1 :: 64 word) = (ucast w + 1 :: 32 word)"
  by (rule word_uint_eqI)
    (simp add: uint_word_ariths unsigned_ucast_eq take_bit_eq_mod mod_mod_cancel mod_simps)

lemma balanced_hit: "balanced l \<Longrightarrow> balanced (hit_link now date l)"
  by (simp add: balanced_def hit_link_def day_total_bump ucast_succ)

section \<open>Calls as data\<close>

datatype dao_call =
    CSave string string
  | CDeleteAbv string
  | CDeleteUrl string
  | CGetUrl string
  | CGetAbv string
  | CGetStats string
  | CIsLikelyOk

fun dao_step :: "('s, 'd) ShortUrlDao \<Rightarrow> 's \<Rightarrow> dao_call \<Rightarrow> 's" where
  "dao_step D s (CSave a u) = snd (Save D s a u)"
| "dao_step D s (CDeleteAbv a) = snd (DeleteAbv D s a)"
| "dao_step D s (CDeleteUrl u) = snd (DeleteUrl D s u)"
| "dao_step D s (CGetUrl a) = snd (GetUrl D s a)"
| "dao_step D s (CGetAbv u) = snd (GetAbv D s u)"
| "dao_step D s (CGetStats a) = snd (GetStats D s a)"
| "dao_step D s CIsLikelyOk = snd (IsLikelyOk D s)"

fun dao_run :: "('s, 'd) ShortUrlDao \<Rightarrow> 's \<Rightarrow> dao_call list \<Rightarrow> 's" where
  "dao_run D s [] = s"
| "dao_run D s (c # cs) = dao_run D (dao_step D s c) cs"

lemma dao_run_append: "dao_run D s (cs @ ds) = dao_run D (dao_run D s cs) ds"
  by (induction cs arbitrary: s) auto

lemma dao_run_invariant:
  assumes "\<And>s c. P s \<Longrightarrow> P (dao_step D s c)"
  shows "P s \<Longrightarrow> P (dao_run D s cs)"
  by (induction cs arbitrary: s) (auto intro: assms)

end
