(* ===== verification/MemoryDB.thy ===== *)
theory MemoryDB
  imports LinkSpec
begin

text \<open>
  The in-memory store (src/dao/memorydb.go). Its two indexes hold pointers to the same
  \<open>ShortUrl\<close> objects, and each object points to its \<open>DailyHits\<close> map, so the model keeps two
  heaps: \<open>objs\<close> for the objects and \<open>hmaps\<close> for the maps, with their allocation counters, and
  the indexes map to addresses. A copy of an object (\<open>GetStats\<close>) copies the reference to the
  map, not the map. Each method holds the mutex \<open>mu\<close> from its first to its last access, so a
  method is one atomic step. \<open>panicked\<close> records the run-time panic of a write to a nil map.
\<close>

section \<open>State\<close>

type_synonym href = "nat option"  \<comment> \<open>a map reference, \<open>None\<close> for the nil map\<close>

record MemoryDB =
  objs :: "nat \<Rightarrow> href ShortUrl"
  nobj :: nat
  hmaps :: "nat \<Rightarrow> (string \<rightharpoonup> 64 word)"
  nmap :: nat
  urlNdxMap :: "string \<rightharpoonup> nat"
  abvNdxMap :: "string \<rightharpoonup> nat"
  clock :: wall_clock
  panicked :: bool

definition CreateMemoryDB :: "wall_clock \<Rightarrow> MemoryDB" where
  "CreateMemoryDB c =
     \<lparr>objs = (\<lambda>_. zero_ShortUrl None), nobj = 0, hmaps = (\<lambda>_. Map.empty), nmap = 0,
      urlNdxMap = Map.empty, abvNdxMap = Map.empty, clock = c, panicked = False\<rparr>"

section \<open>Methods\<close>

definition mem_IsLikelyOk :: "MemoryDB \<Rightarrow> bool \<times> MemoryDB" where
  "mem_IsLikelyOk d = (True, d)"

definition make_map :: "MemoryDB \<Rightarrow> nat \<times> MemoryDB" where
  "make_map d = (nmap d, d\<lparr>hmaps := (hmaps d)(nmap d := Map.empty), nmap := Suc (nmap d)\<rparr>)"

definition new_ShortUrl :: "MemoryDB \<Rightarrow> href ShortUrl \<Rightarrow> nat \<times> MemoryDB" where
  "new_ShortUrl d su = (nobj d, d\<lparr>objs := (objs d)(nobj d := su), nobj := Suc (nobj d)\<rparr>)"

definition mem_Save :: "MemoryDB \<Rightarrow> string \<Rightarrow> string \<Rightarrow> err \<times> MemoryDB" where
  "mem_Save d abv url =
     (let (m, d1) = make_map d;
          (su, d2) = new_ShortUrl d1
            \<lparr>Abbreviation = abv, Url = url, Hits = 0, LastAccess = zero_time, DailyHits = Some m\<rparr>
      in (None, d2\<lparr>urlNdxMap := (urlNdxMap d2)(url \<mapsto> su), abvNdxMap := (abvNdxMap d2)(abv \<mapsto> su)\<rparr>))"

definition mem_DeleteAbv :: "MemoryDB \<Rightarrow> string \<Rightarrow> err \<times> MemoryDB" where
  "mem_DeleteAbv d abv =
     (case abvNdxMap d abv of
        None \<Rightarrow> (None, d)
      | Some su \<Rightarrow>
          (None, d\<lparr>urlNdxMap := (urlNdxMap d)(Url (objs d su) := None),
                   abvNdxMap := (abvNdxMap d)(abv := None)\<rparr>))"

definition mem_DeleteUrl :: "MemoryDB \<Rightarrow> string \<Rightarrow> err \<times> MemoryDB" where
  "mem_DeleteUrl d url =
     (case urlNdxMap d url of
        None \<Rightarrow> (None, d)
      | Some su \<Rightarrow>
          (None, d\<lparr>abvNdxMap := (abvNdxMap d)(Abbreviation (objs d su) := None),
                   urlNdxMap := (urlNdxMap d)(url := None)\<rparr>))"

text \<open>\<open>m[date]++\<close> on the map a reference leads to; on a nil map the write panics.\<close>

definition inc_daily :: "MemoryDB \<Rightarrow> href \<Rightarrow> string \<Rightarrow> MemoryDB" where
  "inc_daily d r date =
     (case r of
        None \<Rightarrow> d\<lparr>panicked := True\<rparr>
      | Some m \<Rightarrow> d\<lparr>hmaps := (hmaps d)(m := bump (hmaps d m) date)\<rparr>)"

definition mem_GetUrl :: "MemoryDB \<Rightarrow> string \<Rightarrow> (string \<times> err) \<times> MemoryDB" where
  "mem_GetUrl d abv =
     (case abvNdxMap d abv of
        None \<Rightarrow> (('''', None), d)
      | Some su \<Rightarrow>
          if Url (objs d su) \<noteq> '''' then
            (let (now, c1) = time_Now (clock d);
                 o1 = (objs d su)\<lparr>Hits := Hits (objs d su) + 1, LastAccess := now\<rparr>;
                 (date, c2) = Date c1;
                 d1 = d\<lparr>objs := (objs d)(su := o1), clock := c2\<rparr>
             in ((Url o1, None), inc_daily d1 (DailyHits o1) date))
          else (('''', None), d))"

definition mem_GetAbv :: "MemoryDB \<Rightarrow> string \<Rightarrow> (string \<times> err) \<times> MemoryDB" where
  "mem_GetAbv d url =
     (case urlNdxMap d url of
        None \<Rightarrow> (('''', None), d)
      | Some su \<Rightarrow> ((Abbreviation (objs d su), None), d))"

text \<open>\<open>return *su\<close>: the fields are copied, \<open>DailyHits\<close> among them as the reference it is.\<close>

definition mem_GetStats :: "MemoryDB \<Rightarrow> string \<Rightarrow> (href ShortUrl \<times> err) \<times> MemoryDB" where
  "mem_GetStats d abv =
     (case abvNdxMap d abv of
        None \<Rightarrow> ((zero_ShortUrl None, None), d)
      | Some su \<Rightarrow> ((objs d su, None), d))"

definition mem_Cleanup :: "MemoryDB \<Rightarrow> MemoryDB" where
  "mem_Cleanup d = d"

definition memory_dao :: "(MemoryDB, href) ShortUrlDao" where
  "memory_dao =
     \<lparr>IsLikelyOk = mem_IsLikelyOk, Save = mem_Save, DeleteAbv = mem_DeleteAbv,
      DeleteUrl = mem_DeleteUrl, GetUrl = mem_GetUrl, GetAbv = mem_GetAbv,
      GetStats = mem_GetStats, Cleanup = mem_Cleanup\<rparr>"

lemmas mem_defs [go_defs] =
  mem_IsLikelyOk_def mem_Save_def mem_DeleteAbv_def mem_DeleteUrl_def mem_GetUrl_def mem_GetAbv_def
  mem_GetStats_def mem_Cleanup_def make_map_def new_ShortUrl_def inc_daily_def time_Now_def Date_def

section \<open>Well-formed heaps\<close>

text \<open>
  What every sequence of calls keeps, whatever is saved over what: the indexes lead to objects
  of the heap that carry the key they are filed under, every object has a map of its own, and
  nothing has panicked.
\<close>

definition wf_mem :: "MemoryDB \<Rightarrow> bool" where
  "wf_mem d \<longleftrightarrow>
     (\<forall>a p. abvNdxMap d a = Some p \<longrightarrow> p < nobj d \<and> Abbreviation (objs d p) = a) \<and>
     (\<forall>u p. urlNdxMap d u = Some p \<longrightarrow> p < nobj d \<and> Url (objs d p) = u) \<and>
     (\<forall>p < nobj d. \<exists>m < nmap d. DailyHits (objs d p) = Some m) \<and>
     (\<forall>p < nobj d. \<forall>q < nobj d. DailyHits (objs d p) = DailyHits (objs d q) \<longrightarrow> p = q) \<and>
     \<not> panicked d"

lemma wf_memD:
  assumes "wf_mem d"
  shows wf_abv: "abvNdxMap d a = Some p \<Longrightarrow> p < nobj d \<and> Abbreviation (objs d p) = a"
    and wf_url: "urlNdxMap d u = Some p \<Longrightarrow> p < nobj d \<and> Url (objs d p) = u"
    and wf_map: "p < nobj d \<Longrightarrow> \<exists>m < nmap d. DailyHits (objs d p) = Some m"
    and wf_own: "p < nobj d \<Longrightarrow> q < nobj d \<Longrightarrow> DailyHits (objs d p) = DailyHits (objs d q) \<Longrightarrow> p = q"
    and wf_panic: "\<not> panicked d"
  using assms unfolding wf_mem_def by blast+

lemma wf_mem_finite:
  assumes "wf_mem d" shows "finite (dom (abvNdxMap d))"
proof (rule finite_subset)
  show "dom (abvNdxMap d) \<subseteq> (\<lambda>p. Abbreviation (objs d p)) ` {..<nobj d}"
    using wf_abv [OF assms] by (fastforce simp: dom_def)
qed simp

lemma wf_CreateMemoryDB [wf_intros]: "wf_mem (CreateMemoryDB c)"
  by (simp add: wf_mem_def CreateMemoryDB_def)

lemma wf_mem_Save [wf_intros]:
  assumes "wf_mem d" shows "wf_mem (snd (mem_Save d a u))"
proof -
  have "DailyHits (objs d p) \<noteq> Some (nmap d)" if "p < nobj d" for p
    using wf_map [OF assms that] by auto
  then show ?thesis
    using assms unfolding wf_mem_def mem_Save_def make_map_def new_ShortUrl_def
    by (auto simp: less_Suc_eq dest: wf_abv [OF assms] wf_url [OF assms])
qed

lemma wf_mem_DeleteAbv [wf_intros]: "wf_mem d \<Longrightarrow> wf_mem (snd (mem_DeleteAbv d a))"
  by (auto simp: wf_mem_def mem_DeleteAbv_def split: option.splits)

lemma wf_mem_DeleteUrl [wf_intros]: "wf_mem d \<Longrightarrow> wf_mem (snd (mem_DeleteUrl d u))"
  by (auto simp: wf_mem_def mem_DeleteUrl_def split: option.splits)

text \<open>Only the identifying fields of the objects matter to well-formedness.\<close>

lemma wf_mem_cong:
  assumes "abvNdxMap d' = abvNdxMap d" "urlNdxMap d' = urlNdxMap d" "nobj d' = nobj d"
    "nmap d' = nmap d" "panicked d' = panicked d"
    "\<And>q. Abbreviation (objs d' q) = Abbreviation (objs d q)"
    "\<And>q. Url (objs d' q) = Url (objs d q)"
    "\<And>q. DailyHits (objs d' q) = DailyHits (objs d q)"
  shows "wf_mem d' = wf_mem d"
  unfolding wf_mem_def assms ..

text \<open>What a hit does, once for all its uses.\<close>

definition hit_obj :: "MemoryDB \<Rightarrow> nat \<Rightarrow> href ShortUrl" where
  "hit_obj d p =
     (objs d p)\<lparr>Hits := Hits (objs d p) + 1, LastAccess := readings (clock d) (ticks (clock d))\<rparr>"

definition hit_date :: "MemoryDB \<Rightarrow> string" where
  "hit_date d = format_date (readings (clock d) (Suc (ticks (clock d))))"

lemma mem_GetUrl_miss:
  "abvNdxMap d a = None \<or> (\<exists>p. abvNdxMap d a = Some p \<and> Url (objs d p) = '''')
     \<Longrightarrow> mem_GetUrl d a = (('''', None), d)"
  by (auto simp: mem_GetUrl_def)

lemma mem_GetUrl_hit:
  assumes "wf_mem d" "abvNdxMap d a = Some p" "Url (objs d p) \<noteq> ''''" "DailyHits (objs d p) = Some m"
  shows "mem_GetUrl d a =
    ((Url (objs d p), None),
     d\<lparr>objs := (objs d)(p := hit_obj d p),
       clock := (clock d)\<lparr>ticks := Suc (Suc (ticks (clock d)))\<rparr>,
       hmaps := (hmaps d)(m := bump (hmaps d m) (hit_date d))\<rparr>)"
  using assms
  by (simp add: mem_GetUrl_def time_Now_def Date_def inc_daily_def hit_obj_def hit_date_def)

lemma mem_GetUrl_cases:
  assumes "wf_mem d"
  obtains (miss) "mem_GetUrl d a = (('''', None), d)"
      "abvNdxMap d a = None \<or> (\<exists>p. abvNdxMap d a = Some p \<and> Url (objs d p) = '''')"
  | (hit) p m where "abvNdxMap d a = Some p" "Url (objs d p) \<noteq> ''''" "p < nobj d" "m < nmap d"
      "DailyHits (objs d p) = Some m"
      "mem_GetUrl d a =
        ((Url (objs d p), None),
         d\<lparr>objs := (objs d)(p := hit_obj d p),
           clock := (clock d)\<lparr>ticks := Suc (Suc (ticks (clock d)))\<rparr>,
           hmaps := (hmaps d)(m := bump (hmaps d m) (hit_date d))\<rparr>)"
proof (cases "\<exists>p. abvNdxMap d a = Some p \<and> Url (objs d p) \<noteq> ''''")
  case True
  then obtain p where p: "abvNdxMap d a = Some p" "Url (objs d p) \<noteq> ''''" by blast
  then have lt: "p < nobj d" using wf_abv [OF assms] by blast
  then obtain m where m: "m < nmap d" "DailyHits (objs d p) = Some m"
    using wf_map [OF assms] by blast
  show ?thesis by (rule hit [OF p lt m mem_GetUrl_hit [OF assms p m(2)]])
next
  case False
  then have n: "abvNdxMap d a = None \<or> (\<exists>p. abvNdxMap d a = Some p \<and> Url (objs d p) = '''')"
    by (cases "abvNdxMap d a") auto
  show ?thesis by (rule miss [OF mem_GetUrl_miss [OF n] n])
qed

lemma hit_obj_fields [simp]:
  "Abbreviation (hit_obj d p) = Abbreviation (objs d p)"
  "Url (hit_obj d p) = Url (objs d p)"
  "Hits (hit_obj d p) = Hits (objs d p) + 1"
  "LastAccess (hit_obj d p) = readings (clock d) (ticks (clock d))"
  "DailyHits (hit_obj d p) = DailyHits (objs d p)"
  by (simp_all add: hit_obj_def)

lemma wf_mem_GetUrl [wf_intros]:
  assumes "wf_mem d" shows "wf_mem (snd (mem_GetUrl d a))"
  using assms
proof (cases rule: mem_GetUrl_cases [where a = a])
  case (hit p m)
  have "wf_mem (snd (mem_GetUrl d a)) = wf_mem d"
    unfolding hit(6) by (rule wf_mem_cong) simp_all
  with assms show ?thesis by simp
qed (use assms in simp)

lemma mem_GetAbv_frame [simp]: "snd (mem_GetAbv d u) = d"
  by (simp add: mem_GetAbv_def split: option.splits)

lemma mem_GetStats_frame [simp]: "snd (mem_GetStats d a) = d"
  by (simp add: mem_GetStats_def split: option.splits)

section \<open>Coherent indexes\<close>

text \<open>
  The two indexes are inverse to each other and hold no empty key. Unlike \<open>wf_mem\<close> this depends
  on what is saved: \<open>Save\<close> keeps it for a pair that is \<open>savable\<close>.
\<close>

definition coherent :: "MemoryDB \<Rightarrow> bool" where
  "coherent d \<longleftrightarrow> wf_mem d \<and>
     (\<forall>a p. abvNdxMap d a = Some p \<longrightarrow>
        a \<noteq> '''' \<and> Url (objs d p) \<noteq> '''' \<and> urlNdxMap d (Url (objs d p)) = Some p) \<and>
     (\<forall>u p. urlNdxMap d u = Some p \<longrightarrow> abvNdxMap d (Abbreviation (objs d p)) = Some p)"

definition mem_links :: "MemoryDB \<Rightarrow> string \<rightharpoonup> string" where
  "mem_links d a = map_option (\<lambda>p. Url (objs d p)) (abvNdxMap d a)"

lemma coherent_wf: "coherent d \<Longrightarrow> wf_mem d"
  by (simp add: coherent_def)

lemma coherent_abv:
  "coherent d \<Longrightarrow> abvNdxMap d a = Some p \<Longrightarrow>
     a \<noteq> '''' \<and> Url (objs d p) \<noteq> '''' \<and> urlNdxMap d (Url (objs d p)) = Some p \<and> Abbreviation (objs d p) = a"
  using wf_abv [of d a p] by (auto simp: coherent_def)

lemma coherent_url:
  "coherent d \<Longrightarrow> urlNdxMap d u = Some p \<Longrightarrow>
     abvNdxMap d (Abbreviation (objs d p)) = Some p \<and> Url (objs d p) = u"
  using wf_url [of d u p] by (auto simp: coherent_def)

lemma coherentI:
  assumes "wf_mem d"
    and "\<And>a p. abvNdxMap d a = Some p \<Longrightarrow>
      a \<noteq> '''' \<and> Url (objs d p) \<noteq> '''' \<and> urlNdxMap d (Url (objs d p)) = Some p"
    and "\<And>u p. urlNdxMap d u = Some p \<Longrightarrow> abvNdxMap d (Abbreviation (objs d p)) = Some p"
  shows "coherent d"
  using assms by (simp add: coherent_def)

lemma mem_links_Some: "mem_links d a = Some u \<longleftrightarrow> (\<exists>p. abvNdxMap d a = Some p \<and> Url (objs d p) = u)"
  by (auto simp: mem_links_def)

lemma mem_links_None [simp]: "mem_links d a = None \<longleftrightarrow> abvNdxMap d a = None"
  by (simp add: mem_links_def)

lemma coherent_ran: "coherent d \<Longrightarrow> u \<in> ran (mem_links d) \<longleftrightarrow> urlNdxMap d u \<noteq> None"
  using coherent_abv coherent_url by (fastforce simp: ran_def mem_links_Some)

lemma coherent_cong:
  assumes "abvNdxMap d' = abvNdxMap d" "urlNdxMap d' = urlNdxMap d" "nobj d' = nobj d"
    "nmap d' = nmap d" "panicked d' = panicked d"
    "\<And>q. Abbreviation (objs d' q) = Abbreviation (objs d q)"
    "\<And>q. Url (objs d' q) = Url (objs d q)"
    "\<And>q. DailyHits (objs d' q) = DailyHits (objs d q)"
  shows "coherent d' = coherent d"
  unfolding coherent_def wf_mem_cong [OF assms] assms ..

lemma coherent_Create [wf_intros]: "coherent (CreateMemoryDB c)"
  unfolding coherent_def using wf_CreateMemoryDB [of c] by (simp add: CreateMemoryDB_def)

lemma coherent_GetUrl [wf_intros]:
  assumes "coherent d" shows "coherent (snd (mem_GetUrl d a))"
  using coherent_wf [OF assms]
proof (cases rule: mem_GetUrl_cases [where a = a])
  case (hit p m)
  have "coherent (snd (mem_GetUrl d a)) = coherent d"
    unfolding hit(6) by (rule coherent_cong) simp_all
  with assms show ?thesis by simp
qed (use assms in simp)

lemma mem_links_GetUrl:
  assumes "wf_mem d" shows "mem_links (snd (mem_GetUrl d a)) = mem_links d"
  using assms
proof (cases rule: mem_GetUrl_cases [where a = a])
  case (hit p m)
  then show ?thesis by (auto simp: mem_links_def fun_eq_iff option.map_comp intro!: map_option_cong)
qed simp

lemma mem_GetUrl_result:
  assumes "wf_mem d" shows "fst (mem_GetUrl d a) = (url_or_empty (mem_links d) a, None)"
  using assms
proof (cases rule: mem_GetUrl_cases [where a = a])
  case miss
  then show ?thesis by (auto simp: url_or_empty_def mem_links_def)
next
  case (hit p m)
  then show ?thesis by (simp add: url_or_empty_def mem_links_def)
qed

lemma mem_GetAbv_result:
  assumes "coherent d" "mem_GetAbv d u = ((v, e), d')"
  shows "d' = d \<and> e = None \<and> (if v = '''' then u \<notin> ran (mem_links d) else mem_links d v = Some u)"
proof (cases "urlNdxMap d u")
  case None
  with assms show ?thesis by (auto simp: mem_GetAbv_def coherent_ran)
next
  case (Some p)
  with assms coherent_url [OF assms(1) Some] coherent_abv [OF assms(1)]
  show ?thesis by (auto simp: mem_GetAbv_def mem_links_Some)
qed

lemma mem_links_Save:
  assumes "wf_mem d" shows "mem_links (snd (mem_Save d a u)) = (mem_links d)(a \<mapsto> u)"
proof
  fix b
  have "abvNdxMap d b = Some p \<Longrightarrow> p \<noteq> nobj d" for p using wf_abv [OF assms, of b p] by auto
  then show "mem_links (snd (mem_Save d a u)) b = ((mem_links d)(a \<mapsto> u)) b"
    by (auto simp: mem_links_def mem_Save_def make_map_def new_ShortUrl_def intro!: map_option_cong)
qed

lemma coherent_Save [wf_intros]:
  assumes "coherent d" "savable (mem_links d) a u"
  shows "coherent (snd (mem_Save d a u))"
proof -
  have wf: "wf_mem d" by (rule coherent_wf [OF assms(1)])
  have ne: "a \<noteq> ''''" "u \<noteq> ''''" using assms(2) by (auto simp: savable_def)
  have free: "b = a \<longleftrightarrow> Url (objs d p) = u" if b: "abvNdxMap d b = Some p" for b p
  proof
    assume "b = a"
    with b assms(2) show "Url (objs d p) = u" by (auto simp: savable_def mem_links_def)
  next
    assume u: "Url (objs d p) = u"
    with b have "mem_links d b = Some u" by (simp add: mem_links_def)
    then have "u \<in> ran (mem_links d)" by (rule ranI)
    with assms(2) obtain q where q: "abvNdxMap d a = Some q" "Url (objs d q) = u"
      by (auto simp: savable_def mem_links_Some)
    with coherent_abv [OF assms(1) b] coherent_abv [OF assms(1) q(1)] u show "b = a" by simp
  qed
  show ?thesis
    unfolding coherent_def
  proof (intro conjI allI impI wf_mem_Save [OF wf])
    fix b p assume b: "abvNdxMap (snd (mem_Save d a u)) b = Some p"
    let ?d = "snd (mem_Save d a u)"
    have "b = a \<and> p = nobj d \<or> b \<noteq> a \<and> p \<noteq> nobj d \<and> abvNdxMap d b = Some p"
      using b wf_abv [OF wf, of b p]
      by (auto simp: mem_Save_def make_map_def new_ShortUrl_def split: if_splits)
    then show "b \<noteq> ''''" "Url (objs ?d p) \<noteq> ''''" "urlNdxMap ?d (Url (objs ?d p)) = Some p"
      using ne free [of b p] coherent_abv [OF assms(1), of b p]
      by (auto simp: mem_Save_def make_map_def new_ShortUrl_def)
  next
    fix v p assume v: "urlNdxMap (snd (mem_Save d a u)) v = Some p"
    have "v = u \<and> p = nobj d \<or> v \<noteq> u \<and> p \<noteq> nobj d \<and> urlNdxMap d v = Some p"
      using v wf_url [OF wf, of v p]
      by (auto simp: mem_Save_def make_map_def new_ShortUrl_def split: if_splits)
    then show "abvNdxMap (snd (mem_Save d a u)) (Abbreviation (objs (snd (mem_Save d a u)) p)) = Some p"
      using coherent_url [OF assms(1), of v p] free [of "Abbreviation (objs d p)" p]
      by (auto simp: mem_Save_def make_map_def new_ShortUrl_def)
  qed
qed

lemma coherent_DeleteAbv [wf_intros]:
  assumes "coherent d" shows "coherent (snd (mem_DeleteAbv d a))"
proof (cases "abvNdxMap d a")
  case (Some p)
  have ap: "Abbreviation (objs d p) = a" using coherent_abv [OF assms Some] by simp
  have other: "b \<noteq> a \<Longrightarrow> abvNdxMap d b = Some q \<Longrightarrow> Url (objs d q) \<noteq> Url (objs d p)" for b q
    by (metis coherent_abv [OF assms] Some option.inject)
  have kept: "urlNdxMap d v = Some q \<Longrightarrow> v \<noteq> Url (objs d p) \<Longrightarrow> Abbreviation (objs d q) \<noteq> a" for v q
    by (metis coherent_url [OF assms] Some option.inject)
  show ?thesis
  proof (rule coherentI [OF wf_mem_DeleteAbv [OF coherent_wf [OF assms]]], goal_cases)
    case (1 b q)
    then have b: "b \<noteq> a" "abvNdxMap d b = Some q" by (simp_all add: mem_DeleteAbv_def Some split: if_splits)
    with coherent_abv [OF assms b(2)] other [OF b] show ?case by (simp add: mem_DeleteAbv_def Some)
  next
    case (2 v q)
    then have v: "urlNdxMap d v = Some q" "v \<noteq> Url (objs d p)"
      by (simp_all add: mem_DeleteAbv_def Some split: if_splits)
    with coherent_url [OF assms v(1)] kept [OF v] show ?case by (simp add: mem_DeleteAbv_def Some)
  qed
qed (use assms in \<open>simp add: mem_DeleteAbv_def\<close>)

lemma mem_links_DeleteAbv: "mem_links (snd (mem_DeleteAbv d a)) = (mem_links d)(a := None)"
  by (auto simp: mem_links_def mem_DeleteAbv_def fun_eq_iff split: option.splits)

lemma coherent_DeleteUrl [wf_intros]:
  assumes "coherent d" shows "coherent (snd (mem_DeleteUrl d u))"
proof (cases "urlNdxMap d u")
  case (Some p)
  have up: "Url (objs d p) = u" "abvNdxMap d (Abbreviation (objs d p)) = Some p"
    using coherent_url [OF assms Some] by simp_all
  have other: "b \<noteq> Abbreviation (objs d p) \<Longrightarrow> abvNdxMap d b = Some q \<Longrightarrow> Url (objs d q) \<noteq> u" for b q
    by (metis coherent_abv [OF assms] Some option.inject)
  have kept: "urlNdxMap d v = Some q \<Longrightarrow> v \<noteq> u \<Longrightarrow> Abbreviation (objs d q) \<noteq> Abbreviation (objs d p)" for v q
    by (metis coherent_url [OF assms] up option.inject)
  show ?thesis
  proof (rule coherentI [OF wf_mem_DeleteUrl [OF coherent_wf [OF assms]]], goal_cases)
    case (1 b q)
    then have b: "b \<noteq> Abbreviation (objs d p)" "abvNdxMap d b = Some q"
      by (simp_all add: mem_DeleteUrl_def Some split: if_splits)
    with coherent_abv [OF assms b(2)] other [OF b] show ?case by (simp add: mem_DeleteUrl_def Some)
  next
    case (2 v q)
    then have v: "urlNdxMap d v = Some q" "v \<noteq> u"
      by (simp_all add: mem_DeleteUrl_def Some split: if_splits)
    with coherent_url [OF assms v(1)] kept [OF v] show ?case by (simp add: mem_DeleteUrl_def Some)
  qed
qed (use assms in \<open>simp add: mem_DeleteUrl_def\<close>)

lemma mem_links_DeleteUrl:
  assumes "coherent d" shows "mem_links (snd (mem_DeleteUrl d u)) = drop_url (mem_links d) u"
proof (cases "urlNdxMap d u")
  case None
  then have "u \<notin> ran (mem_links d)" using coherent_ran [OF assms] by simp
  then show ?thesis using None by (auto simp: mem_DeleteUrl_def drop_url_def ran_def)
next
  case (Some p)
  have up: "Url (objs d p) = u" "abvNdxMap d (Abbreviation (objs d p)) = Some p"
    using coherent_url [OF assms Some] by simp_all
  have key: "abvNdxMap d b = Some q \<Longrightarrow> Url (objs d q) = u \<longleftrightarrow> b = Abbreviation (objs d p)" for b q
    by (metis coherent_abv [OF assms] Some up option.inject)
  show ?thesis
  proof
    fix b show "mem_links (snd (mem_DeleteUrl d u)) b = drop_url (mem_links d) u b"
      using key [of b] up
      by (cases "abvNdxMap d b") (simp_all add: mem_links_def mem_DeleteUrl_def drop_url_def Some)
  qed
qed

section \<open>The contract\<close>

lemma memory_dao_simps [simp]:
  "IsLikelyOk memory_dao = mem_IsLikelyOk" "Save memory_dao = mem_Save"
  "DeleteAbv memory_dao = mem_DeleteAbv" "DeleteUrl memory_dao = mem_DeleteUrl"
  "GetUrl memory_dao = mem_GetUrl" "GetAbv memory_dao = mem_GetAbv"
  "GetStats memory_dao = mem_GetStats" "Cleanup memory_dao = mem_Cleanup"
  by (simp_all add: memory_dao_def)

lemma mem_never_errs:
  "fst (mem_Save d a u) = None" "fst (mem_DeleteAbv d a) = None" "fst (mem_DeleteUrl d u) = None"
  "snd (fst (mem_GetUrl d a)) = None" "snd (fst (mem_GetAbv d u)) = None"
  "snd (fst (mem_GetStats d a)) = None"
  by (auto simp: mem_Save_def make_map_def new_ShortUrl_def mem_DeleteAbv_def mem_DeleteUrl_def
      mem_GetUrl_def mem_GetAbv_def mem_GetStats_def Let_def split: option.splits prod.splits)

interpretation mem: reliable_dao memory_dao coherent mem_links "\<lambda>_ _. True"
proof (unfold_locales, goal_cases)
  case (1 s a u)
  then show ?case using coherent_abv by (auto simp: mem_links_Some)
next
  case (2 s a u b)
  then show ?case by (metis coherent_abv mem_links_Some option.inject)
next
  case (3 s a v e s')
  then show ?case
    using mem_GetUrl_result [of s a] mem_links_GetUrl [of s a] coherent_GetUrl [of s a]
    by (auto dest: coherent_wf)
next
  case (4 s u v e s')
  then show ?case using mem_GetAbv_result [of s u v e s'] by auto
next
  case (5 s a u e s')
  then show ?case
    using coherent_Save [of s a u] mem_links_Save [of s a u] by (auto dest: coherent_wf)
next
  case (6 s a e s')
  then show ?case using coherent_DeleteAbv [of s a] mem_links_DeleteAbv [of s a] by auto
next
  case (7 s u e s')
  then show ?case using coherent_DeleteUrl [of s u] mem_links_DeleteUrl [of s u] by auto
next
  case (8 s a st e s')
  then show ?case
    by (auto simp: mem_GetStats_def mem_links_def zero_ShortUrl_def dest: coherent_abv split: option.splits)
next
  case (9 s ok s')
  then show ?case by (auto simp: mem_IsLikelyOk_def)
qed (use mem_never_errs in \<open>metis memory_dao_simps fst_conv snd_conv\<close>)+

end
