(* ===== verification/Env.thy ===== *)
theory Env
  imports GoPrelude
begin

text \<open>
  Package \<open>env\<close> (src/env/env.go): configuration values read from the process environment, each
  with a default for a variable that is empty, unset or does not parse. The environment is a
  function \<open>getenv\<close> (\<open>os.Getenv\<close>: the empty string for an unset variable); the program never
  writes it. \<open>strconv.ParseBool\<close> and \<open>time.ParseDuration\<close> are modelled here, \<open>strconv.Atoi\<close> in
  \<open>GoPrelude\<close>. Only the floating-point product that \<open>time.ParseDuration\<close> uses for the digits
  after a decimal point is a parameter (\<open>fmul\<close>).
\<close>

type_synonym getenv = "string \<Rightarrow> string"

definition StringOrDefault :: "getenv \<Rightarrow> string \<Rightarrow> string \<Rightarrow> string" where
  "StringOrDefault env key defaultValue =
     (let envVal = env key in if envVal = '''' then defaultValue else envVal)"

definition ParseBool :: "string \<Rightarrow> bool option" where
  "ParseBool s =
     (if s \<in> {''1'', ''t'', ''T'', ''TRUE'', ''true'', ''True''} then Some True
      else if s \<in> {''0'', ''f'', ''F'', ''FALSE'', ''false'', ''False''} then Some False
      else None)"

definition BoolOrDefault :: "getenv \<Rightarrow> string \<Rightarrow> bool \<Rightarrow> bool" where
  "BoolOrDefault env key defaultValue =
     (let envVal = env key
      in if envVal = '''' then defaultValue
         else case ParseBool envVal of None \<Rightarrow> defaultValue | Some r \<Rightarrow> r)"

definition IntOrDefault :: "getenv \<Rightarrow> string \<Rightarrow> int \<Rightarrow> int" where
  "IntOrDefault env key defaultValue =
     (let envVal = env key
      in if envVal = '''' then defaultValue
         else case Atoi envVal of (r, Some e) \<Rightarrow> defaultValue | (r, None) \<Rightarrow> r)"

section \<open>\<open>time.ParseDuration\<close>\<close>

text \<open>\<open>leadingInt\<close>: the digits at the front, \<open>None\<close> when their value passes \<open>2 ^ 63\<close>.\<close>

fun leadingInt :: "nat \<Rightarrow> string \<Rightarrow> (nat \<times> string) option" where
  "leadingInt x [] = Some (x, [])"
| "leadingInt x (c # s) =
     (case char_digit c of
        None \<Rightarrow> Some (x, c # s)
      | Some d \<Rightarrow> if x > 2 ^ 63 div 10 \<or> x * 10 + d > 2 ^ 63 then None
                  else leadingInt (x * 10 + d) s)"

text \<open>\<open>leadingFraction\<close>: the digits after the point, with the power of ten they are over; after
  an overflow the remaining digits are skipped.\<close>

fun leadingFraction :: "nat \<Rightarrow> nat \<Rightarrow> bool \<Rightarrow> string \<Rightarrow> nat \<times> nat \<times> string" where
  "leadingFraction x scale ovf [] = (x, scale, [])"
| "leadingFraction x scale ovf (c # s) =
     (case char_digit c of
        None \<Rightarrow> (x, scale, c # s)
      | Some d \<Rightarrow>
          if ovf \<or> x > (2 ^ 63 - 1) div 10 \<or> x * 10 + d > 2 ^ 63
          then leadingFraction x scale True s
          else leadingFraction (x * 10 + d) (scale * 10) False s)"

definition in_unit :: "char \<Rightarrow> bool" where
  "in_unit c \<longleftrightarrow> c \<noteq> CHR ''.'' \<and> char_digit c = None"

definition unitMap :: "string \<Rightarrow> nat option" where
  "unitMap u =
     (if u = ''ns'' then Some 1
      else if u = ''us'' \<or> u = [CHR 0xC2, CHR 0xB5, CHR ''s''] \<or> u = [CHR 0xCE, CHR 0xBC, CHR ''s'']
        then Some 1000
      else if u = ''ms'' then Some 1000000
      else if u = ''s'' then Some 1000000000
      else if u = ''m'' then Some 60000000000
      else if u = ''h'' then Some 3600000000000
      else None)"

text \<open>
  One round of the loop: the number with its fraction, then the unit. The result is the value in
  nanoseconds and the rest of the string. \<open>fmul f unit scale\<close> is the source's
  \<open>uint64(float64(f) * (float64(unit) / scale))\<close>.
\<close>

definition duration_number :: "string \<Rightarrow> (nat \<times> nat \<times> nat \<times> string) option" where
  "duration_number s =
     (case leadingInt 0 s of
        None \<Rightarrow> None
      | Some (v, s1) \<Rightarrow>
          let dot = (s1 \<noteq> [] \<and> hd s1 = CHR ''.'');
              (f, scale, s2) = (if dot then leadingFraction 0 1 False (tl s1) else (0, 1, s1));
              pre = (length s1 \<noteq> length s);
              post = (dot \<and> length s2 \<noteq> length (tl s1))
          in if \<not> pre \<and> \<not> post then None else Some (v, f, scale, s2))"

definition duration_unit ::
  "(nat \<Rightarrow> nat \<Rightarrow> nat \<Rightarrow> nat) \<Rightarrow> nat \<times> nat \<times> nat \<times> string \<Rightarrow> (nat \<times> string) option" where
  "duration_unit fmul = (\<lambda>(v, f, scale, s).
     (case unitMap (takeWhile in_unit s) of
        None \<Rightarrow> None
      | Some u \<Rightarrow>
          (if v > 2 ^ 63 div u then None
           else let w = (if f > 0 then v * u + fmul f u scale else v * u)
                in if f > 0 \<and> w > 2 ^ 63 then None else Some (w, dropWhile in_unit s))))"

definition duration_term ::
  "(nat \<Rightarrow> nat \<Rightarrow> nat \<Rightarrow> nat) \<Rightarrow> string \<Rightarrow> (nat \<times> string) option" where
  "duration_term fmul s =
     (if s = [] \<or> \<not> (hd s = CHR ''.'' \<or> char_digit (hd s) \<noteq> None) then None
      else Option.bind (duration_number s) (duration_unit fmul))"

lemma leadingInt_length: "leadingInt x s = Some (v, r) \<Longrightarrow> length r \<le> length s"
  by (induction x s rule: leadingInt.induct) (auto split: option.splits if_splits)

lemma leadingFraction_length: "leadingFraction x k b s = (f, c, r) \<Longrightarrow> length r \<le> length s"
  by (induction x k b s rule: leadingFraction.induct) (auto split: option.splits if_splits)

lemma duration_number_length: "duration_number s = Some (v, f, k, r) \<Longrightarrow> length r \<le> length s"
proof -
  assume h: "duration_number s = Some (v, f, k, r)"
  then obtain v1 s1 where 1: "leadingInt 0 s = Some (v1, s1)"
    by (auto simp: duration_number_def split: option.splits)
  with h have "length r \<le> length s1"
    using leadingFraction_length [of 0 1 False "tl s1" f k r]
    by (auto simp: duration_number_def Let_def split: if_splits prod.splits)
  with leadingInt_length [OF 1] show ?thesis by simp
qed

lemma duration_unit_length: "duration_unit fmul (v, f, k, s) = Some (w, r) \<Longrightarrow> length r < length s"
proof -
  assume h: "duration_unit fmul (v, f, k, s) = Some (w, r)"
  then have "r = dropWhile in_unit s" and "takeWhile in_unit s \<noteq> []"
    by (auto simp: duration_unit_def Let_def unitMap_def split: option.splits if_splits)
  then show ?thesis
    by (cases s) (auto simp: less_Suc_eq_le length_dropWhile_le split: if_splits)
qed

lemma duration_term_length: "duration_term fmul s = Some (w, r) \<Longrightarrow> length r < length s"
  by (fastforce simp: duration_term_def bind_eq_Some_conv split: if_splits
      dest: duration_number_length duration_unit_length)

text \<open>The loop of \<open>time.ParseDuration\<close>; \<open>d\<close> is a \<open>uint64\<close>, so its addition wraps.\<close>

function duration_loop ::
  "(nat \<Rightarrow> nat \<Rightarrow> nat \<Rightarrow> nat) \<Rightarrow> nat \<Rightarrow> string \<Rightarrow> nat option" where
  "duration_loop fmul d s =
     (if s = [] then Some d
      else case duration_term fmul s of
        None \<Rightarrow> None
      | Some (w, r) \<Rightarrow>
          (let d1 = (d + w) mod 2 ^ 64
           in if d1 > 2 ^ 63 then None else duration_loop fmul d1 r))"
  by pat_completeness auto
termination
  by (relation "measure (\<lambda>(fmul, d, s). length s)") (auto dest: duration_term_length)

declare duration_loop.simps [simp del]

definition ParseDuration :: "(nat \<Rightarrow> nat \<Rightarrow> nat \<Rightarrow> nat) \<Rightarrow> string \<Rightarrow> int option" where
  "ParseDuration fmul orig =
     (let signed = (orig \<noteq> [] \<and> (hd orig = CHR ''-'' \<or> hd orig = CHR ''+''));
          neg = (orig \<noteq> [] \<and> hd orig = CHR ''-'');
          s = (if signed then tl orig else orig)
      in if s = ''0'' then Some 0
         else if s = '''' then None
         else case duration_loop fmul 0 s of
           None \<Rightarrow> None
         | Some d \<Rightarrow> if neg then Some (- int d)
                     else if d > 2 ^ 63 - 1 then None else Some (int d))"

definition DurationOrDefault ::
  "(nat \<Rightarrow> nat \<Rightarrow> nat \<Rightarrow> nat) \<Rightarrow> getenv \<Rightarrow> string \<Rightarrow> int \<Rightarrow> int" where
  "DurationOrDefault fmul env key defaultValue =
     (let envVal = env key
      in if envVal = '''' then defaultValue
         else case ParseDuration fmul envVal of None \<Rightarrow> defaultValue | Some r \<Rightarrow> r)"

section \<open>What the readers return\<close>

lemma IntOrDefault_unset [simp]: "env key = '''' \<Longrightarrow> IntOrDefault env key d = d"
  by (simp add: IntOrDefault_def)

lemma IntOrDefault_range:
  assumes "- (2 ^ 63) \<le> d" "d < 2 ^ 63"
  shows "- (2 ^ 63) \<le> IntOrDefault env key d \<and> IntOrDefault env key d < 2 ^ 63"
proof -
  have "IntOrDefault env key d = d \<or> IntOrDefault env key d = fst (ParseInt 64 (env key))"
    by (auto simp: IntOrDefault_def Let_def Atoi_def split: prod.splits option.splits)
  with ParseInt_bounds [of 64 "env key"] assms show ?thesis by auto
qed

lemma show_int_nonempty [simp]: "show_int i \<noteq> []"
  by (simp add: show_int_def)

lemma leadingInt_digits:
  "parse_digits (2 ^ 63) x ds = (v, None) \<Longrightarrow> char_digit c = None
     \<Longrightarrow> leadingInt x (ds @ c # s) = Some (v, c # s)"
proof (induction ds arbitrary: x)
  case (Cons b ds)
  then show ?case
    by (auto split: option.splits if_splits)
qed simp

text \<open>The common form: a whole number and one unit.\<close>

lemma duration_term_whole:
  assumes u: "u \<noteq> []" "\<forall>c \<in> set u. in_unit c" "unitMap u = Some k" and n: "n \<le> 2 ^ 63 div k"
  shows "duration_term fmul (show_nat n @ u) = Some (n * k, [])"
proof -
  obtain c u' where uc: "u = c # u'" and c: "char_digit c = None" "c \<noteq> CHR ''.''"
    using u(1,2) by (cases u) (auto simp: in_unit_def)
  have "n \<le> 2 ^ 63" using n by (meson div_le_dividend le_trans)
  then have lead: "leadingInt 0 (show_nat n @ u) = Some (n, u)"
    using c by (simp add: uc leadingInt_digits parse_show_nat)
  have first: "char_digit (hd (show_nat n @ u)) \<noteq> None"
    using show_nat_digits [of "hd (show_nat n)" n] by (force simp: hd_append)
  have "duration_number (show_nat n @ u) = Some (n, 0, 1, u)"
    using lead c by (simp add: duration_number_def uc Let_def)
  moreover have "duration_unit fmul (n, 0, 1, u) = Some (n * k, [])"
  proof -
    have "unitMap (takeWhile in_unit u) = Some k" "dropWhile in_unit u = []"
      using u(2,3) by (metis takeWhile_eq_all_conv, simp)
    then show ?thesis using n by (simp add: duration_unit_def Let_def)
  qed
  ultimately show ?thesis
    using first by (simp add: duration_term_def)
qed

lemma ParseDuration_whole:
  assumes u: "u \<noteq> []" "\<forall>c \<in> set u. in_unit c" "unitMap u = Some k" and n: "n * k < 2 ^ 63"
  shows "ParseDuration fmul (show_nat n @ u) = Some (int (n * k))"
proof -
  have k: "0 < k" using u(3) by (auto simp: unitMap_def split: if_splits)
  with n have le: "n \<le> 2 ^ 63 div k" by (simp add: less_eq_div_iff_mult_less_eq)
  have h: "hd (show_nat n @ u) = hd (show_nat n)" by simp
  have "length (show_nat n) \<ge> 1" "length u \<ge> 1"
    using show_nat_nonempty [of n] u(1) by (simp_all add: Suc_leI)
  then have "length (show_nat n @ u) \<ge> 2" by simp
  then have "show_nat n @ u \<noteq> ''0''" by (intro notI) (simp only: list.size)
  moreover have "duration_loop fmul 0 (show_nat n @ u) = Some (n * k)"
    using duration_term_whole [OF u le] n u(1)
    by (simp add: duration_loop.simps [of fmul 0] duration_loop.simps [of fmul _ "[]"])
  ultimately show ?thesis
    using hd_show_nat [of n] n u(1) by (simp add: ParseDuration_def Let_def)
qed



text \<open>
  DurationOrDefault reads a whole number with one unit (ns, us, ms, s, m, h) as that many
  nanoseconds as long as they fit in 63 bits, and returns its default for an empty variable.
\<close>

theorem DurationOrDefault_reads:
  assumes "u \<noteq> []" "\<forall>c \<in> set u. in_unit c" "unitMap u = Some k" "n * k < 2 ^ 63"
  shows "(env key = '''' \<longrightarrow> DurationOrDefault fmul env key d = d) \<and>
    (env key = show_nat n @ u \<longrightarrow> DurationOrDefault fmul env key d = int (n * k))"
  using ParseDuration_whole [OF assms, of fmul] by (simp add: DurationOrDefault_def)

theorem DurationOrDefault_reads_witness:
  "DurationOrDefault (\<lambda>_ _ _. 0) (\<lambda>_. show_nat 15 @ ''s'') ''status_interval'' 30000000000 = int (15 * 1000000000)"
  using DurationOrDefault_reads [of "''s''" 1000000000 15 "\<lambda>_. show_nat 15 @ ''s''" "''status_interval''"]
  by (simp add: unitMap_def in_unit_def char_digit_def)

end
