(* ===== verification/Connection.thy ===== *)
theory Connection
  imports LinkSpec Env
begin

text \<open>
  A database server and the connection to it, as the stores of package \<open>dao\<close> see them: what the
  server holds (tables, keys or documents), changed by one command at a time, and an arbitrary
  stream of outcomes: a command runs and is answered, is lost before it runs, or runs and its
  answer is lost (a timeout); a closed connection answers nothing. So whatever is proved holds
  under every pattern of failures. The goroutines that a method leaves behind are part of the
  state, as a list of what they still have to do.
\<close>

section \<open>Commands\<close>

text \<open>A command's result: an error with its text, or what it returns.\<close>

type_synonym 'r res = "string + 'r"
type_synonym ('t, 'r) cmd = "'t \<Rightarrow> 'r res \<times> 't"

text \<open>The field \<open>DailyHits\<close> of these stores: a map made for each call.\<close>

type_synonym days = "(string \<rightharpoonup> int) option"  \<comment> \<open>a map of days, \<open>None\<close> for the nil map\<close>

section \<open>The connection\<close>

datatype outcome = Runs | Lost string | AckLost string

record ('t, 'j) conn =
  tabs :: 't
  net :: "nat \<Rightarrow> outcome"
  sent :: nat
  closed :: bool
  closed_msg :: string
  dup_msg :: string
  sclock :: wall_clock
  jobs :: "'j list"

definition statement :: "('t, 'r) cmd \<Rightarrow> ('t, 'j) conn \<Rightarrow> 'r res \<times> ('t, 'j) conn" where
  "statement f d =
     (if closed d then (Inl (closed_msg d), d)
      else
        (let d1 = d\<lparr>sent := Suc (sent d)\<rparr>
         in case net d (sent d) of
              Runs \<Rightarrow> (let (r, t) = f (tabs d) in (r, d1\<lparr>tabs := t\<rparr>))
            | Lost m \<Rightarrow> (Inl m, d1)
            | AckLost m \<Rightarrow> (let (_, t) = f (tabs d) in (Inl m, d1\<lparr>tabs := t\<rparr>))))"

section \<open>What the connection may answer\<close>

text \<open>No error of the connection reads like a duplicate, as \<open>is_dup\<close> reads the error text.\<close>

definition plain :: "(string \<Rightarrow> bool) \<Rightarrow> ('t, 'j) conn \<Rightarrow> bool" where
  "plain is_dup d \<longleftrightarrow> \<not> is_dup (closed_msg d) \<and>
     (\<forall>n m. net d n = Lost m \<or> net d n = AckLost m \<longrightarrow> \<not> is_dup m)"

text \<open>A connection that works.\<close>

definition quiet :: "('t, 'j) conn \<Rightarrow> bool" where
  "quiet d \<longleftrightarrow> \<not> closed d \<and> (\<forall>n. net d n = Runs)"

lemma statement_frame [simp]:
  "net (snd (statement f d)) = net d" "closed (snd (statement f d)) = closed d"
  "dup_msg (snd (statement f d)) = dup_msg d" "closed_msg (snd (statement f d)) = closed_msg d" "jobs (snd (statement f d)) = jobs d"
  "sclock (snd (statement f d)) = sclock d"
  by (simp_all add: statement_def Let_def split: outcome.split prod.split)

lemma statement_conn:
  "statement f d = (r, d') \<Longrightarrow> net d' = net d \<and> closed d' = closed d \<and> closed_msg d' = closed_msg d"
  using statement_frame(1,2,4) [of f d] by simp

lemma statement_tabs:
  "tabs (snd (statement f d)) = tabs d \<or> tabs (snd (statement f d)) = snd (f (tabs d))"
  by (simp add: statement_def Let_def split: outcome.split prod.split)

lemma statement_frozen: "(\<And>t. snd (f t) = t) \<Longrightarrow> tabs (snd (statement f d)) = tabs d"
  using statement_tabs [of f d] by auto

lemma statement_cases:
  assumes "statement f d = (r, d')"
  obtains (run) "r = fst (f (tabs d))" "tabs d' = snd (f (tabs d))"
  | (fail) m where "r = Inl m" "tabs d' = tabs d \<or> tabs d' = snd (f (tabs d))"
      "\<And>is_dup. plain is_dup d \<Longrightarrow> \<not> is_dup m"
proof (cases "closed d")
  case True
  with assms show ?thesis by (intro fail [of "closed_msg d"]) (auto simp: statement_def plain_def)
next
  case False
  show ?thesis
  proof (cases "net d (sent d)")
    case Runs
    with assms False show ?thesis by (intro run) (auto simp: statement_def Let_def split: prod.splits)
  next
    case (Lost m)
    with assms False show ?thesis by (intro fail [of m]) (auto simp: statement_def Let_def plain_def)
  next
    case (AckLost m)
    with assms False show ?thesis
      by (intro fail [of m]) (auto simp: statement_def Let_def plain_def split: prod.splits)
  qed
qed

lemma statement_quiet:
  "quiet d \<Longrightarrow> statement f d = (fst (f (tabs d)), d\<lparr>sent := Suc (sent d), tabs := snd (f (tabs d))\<rparr>)"
  by (simp add: statement_def quiet_def Let_def split: prod.split)

text \<open>From now on every command runs.\<close>

definition runs_on :: "('t, 'j) conn \<Rightarrow> bool" where
  "runs_on d \<longleftrightarrow> \<not> closed d \<and> (\<forall>n \<ge> sent d. net d n = Runs)"

lemma runs_on_statement:
  "runs_on d \<Longrightarrow> statement f d = (fst (f (tabs d)), d\<lparr>sent := Suc (sent d), tabs := snd (f (tabs d))\<rparr>)"
  by (simp add: statement_def runs_on_def Let_def split: prod.split)

lemma runs_on_sent [simp]: "runs_on d \<Longrightarrow> runs_on (d\<lparr>sent := Suc (sent d), tabs := t\<rparr>)"
  by (simp add: runs_on_def)

lemma quiet_runs_on: "quiet d \<Longrightarrow> runs_on d"
  by (simp add: quiet_def runs_on_def)

lemma plain_statement [simp]: "plain p (snd (statement f d)) = plain p d"
  by (simp add: plain_def)

lemma quiet_statement [simp]: "quiet (snd (statement f d)) = quiet d"
  by (simp add: quiet_def)

lemma plain_cong: "net d' = net d \<Longrightarrow> closed_msg d' = closed_msg d \<Longrightarrow> plain p d' = plain p d"
  by (simp add: plain_def)

lemma quiet_cong: "net d' = net d \<Longrightarrow> closed d' = closed d \<Longrightarrow> quiet d' = quiet d"
  by (simp add: quiet_def)

lemma quiet_plain: "quiet d \<Longrightarrow> \<not> is_dup (closed_msg d) \<Longrightarrow> plain is_dup d"
  by (simp add: quiet_def plain_def)

section \<open>What stays\<close>

text \<open>What a method leaves of the connection, whatever happens on it.\<close>

definition same_conn :: "('t, 'j) conn \<Rightarrow> ('t, 'j) conn \<Rightarrow> bool" where
  "same_conn d d' \<longleftrightarrow> net d' = net d \<and> closed d' = closed d \<and> closed_msg d' = closed_msg d"

lemma same_conn_refl [simp]: "same_conn d d"
  by (simp add: same_conn_def)

lemma same_conn_trans: "same_conn d d1 \<Longrightarrow> same_conn d1 d2 \<Longrightarrow> same_conn d d2"
  by (simp add: same_conn_def)

lemma same_conn_statement: "statement f d = (r, d') \<Longrightarrow> same_conn d d'"
  using statement_conn [of f d r d'] by (simp add: same_conn_def)

lemma quiet_conn: "same_conn d d' \<Longrightarrow> quiet d \<Longrightarrow> quiet d'"
  by (simp add: same_conn_def quiet_def)

lemma plain_conn: "same_conn d d' \<Longrightarrow> plain p d \<Longrightarrow> plain p d'"
  by (simp add: same_conn_def plain_def)

text \<open>Commands that keep what the server holds, one after the other.\<close>

lemma same_conn_snd: "same_conn d (snd (statement f d))"
  using statement_frame [of f d] by (simp add: same_conn_def)

definition kept :: "('t, 'j) conn \<Rightarrow> ('t, 'j) conn \<Rightarrow> bool" where
  "kept c d \<longleftrightarrow> same_conn c d \<and> tabs d = tabs c \<and> jobs d = jobs c"

lemma kept_refl: "kept c c"
  by (simp add: kept_def)

lemma kept_statement: "(\<And>t. snd (f t) = t) \<Longrightarrow> kept c d \<Longrightarrow> kept c (snd (statement f d))"
  using same_conn_trans [OF _ same_conn_snd, of c d f] statement_frozen [of f d] by (simp add: kept_def)

end
