(* ===== verification/SqlTables.thy ===== *)
theory SqlTables
  imports Connection
begin

text \<open>
  What the three SQL stores share: the two tables their schemas declare (\<open>short_urls\<close> and
  \<open>daily_hits\<close>, src/dao/postgresdb.go, mysqldb.go and sqlitedb.go), the statements their methods
  send, each as the function on the tables that its SQL text says, and how a store is opened.

  The statistics of a hit are written by a goroutine of their own: \<open>GetUrl\<close> leaves it behind as
  a pending job, and \<open>run_job\<close> runs the next statement of any pending one, at any later time.
\<close>

section \<open>Tables\<close>

record row =
  r_id :: nat
  r_abv :: string
  r_url :: string
  r_hits :: int
  r_last :: "gotime option"

record day_row =
  d_sid :: nat
  d_date :: string
  d_hits :: int

record tables =
  rows :: "row list"
  day_rows :: "day_row list"
  next_id :: nat

definition no_tables :: tables where
  "no_tables = \<lparr>rows = [], day_rows = [], next_id = 1\<rparr>"

section \<open>Statements\<close>

type_synonym 'r stmt = "(tables, 'r) cmd"

text \<open>\<open>SELECT ... FROM short_urls WHERE abbreviation = $1\<close>, or \<open>url = $1\<close>\<close>

definition find_abv :: "tables \<Rightarrow> string \<Rightarrow> row option" where
  "find_abv t a = find (\<lambda>r. r_abv r = a) (rows t)"

definition find_url :: "tables \<Rightarrow> string \<Rightarrow> row option" where
  "find_url t u = find (\<lambda>r. r_url r = u) (rows t)"

definition select_abv :: "string \<Rightarrow> row option stmt" where
  "select_abv a t = (Inr (find_abv t a), t)"

definition select_url :: "string \<Rightarrow> row option stmt" where
  "select_url u t = (Inr (find_url t u), t)"

text \<open>\<open>Ping\<close>\<close>

definition ping :: "unit stmt" where
  "ping t = (Inr (), t)"

text \<open>The row an \<open>INSERT INTO short_urls (abbreviation, url, hits) VALUES ($1, $2, 0)\<close> appends.\<close>

definition insert_row :: "string \<Rightarrow> string \<Rightarrow> tables \<Rightarrow> tables" where
  "insert_row a u t =
     t\<lparr>rows := rows t @ [\<lparr>r_id = next_id t, r_abv = a, r_url = u, r_hits = 0, r_last = None\<rparr>],
       next_id := Suc (next_id t)\<rparr>"

text \<open>\<open>DELETE FROM short_urls WHERE ...\<close>, with \<open>ON DELETE CASCADE\<close> on \<open>daily_hits\<close>\<close>

definition delete_where :: "(row \<Rightarrow> bool) \<Rightarrow> unit stmt" where
  "delete_where P t =
     (Inr (), t\<lparr>rows := filter (\<lambda>r. \<not> P r) (rows t),
               day_rows := filter (\<lambda>d. d_sid d \<notin> r_id ` set (filter P (rows t))) (day_rows t)\<rparr>)"

text \<open>
  \<open>UPDATE short_urls SET hits = hits + 1, last_access = ... WHERE id = $1\<close>; a count that passes
  the largest value of its column type is an error.
\<close>

definition bump_row :: "int \<Rightarrow> gotime \<Rightarrow> nat \<Rightarrow> unit stmt" where
  "bump_row maxint now i t =
     (if \<exists>r \<in> set (rows t). r_id r = i \<and> maxint < r_hits r + 1 then (Inl ''integer out of range'', t)
      else (Inr (), t\<lparr>rows := map (\<lambda>r. if r_id r = i then r\<lparr>r_hits := r_hits r + 1, r_last := Some now\<rparr> else r) (rows t)\<rparr>))"

text \<open>
  \<open>INSERT INTO daily_hits ... VALUES ($1, today, 1) ON CONFLICT (short_url_id, hit_date) DO UPDATE
  SET hits = daily_hits.hits + 1\<close>, with the foreign key
\<close>

definition bump_day :: "int \<Rightarrow> string \<Rightarrow> nat \<Rightarrow> unit stmt" where
  "bump_day maxint date i t =
     (if i \<notin> r_id ` set (rows t) then (Inl ''foreign key constraint'', t)
      else if \<exists>d \<in> set (day_rows t). d_sid d = i \<and> d_date d = date then
        (if \<exists>d \<in> set (day_rows t). d_sid d = i \<and> d_date d = date \<and> maxint < d_hits d + 1
         then (Inl ''integer out of range'', t)
         else (Inr (), t\<lparr>day_rows := map (\<lambda>d. if d_sid d = i \<and> d_date d = date then d\<lparr>d_hits := d_hits d + 1\<rparr> else d) (day_rows t)\<rparr>))
      else (Inr (), t\<lparr>day_rows := day_rows t @ [\<lparr>d_sid = i, d_date = date, d_hits = 1\<rparr>]\<rparr>))"

text \<open>\<open>SELECT hit_date, hits FROM daily_hits WHERE short_url_id = $1 ORDER BY hit_date DESC\<close>: the
  rows go into a map by date, so their order does not show.\<close>

definition select_days :: "nat \<Rightarrow> day_row list stmt" where
  "select_days i t = (Inr (filter (\<lambda>d. d_sid d = i) (day_rows t)), t)"

definition day_map :: "day_row list \<Rightarrow> (string \<rightharpoonup> int)" where
  "day_map ds = fold (\<lambda>d m. m(d_date d \<mapsto> d_hits d)) ds Map.empty"

section \<open>The store\<close>

text \<open>A goroutine that still has both its statements to send, or the second one only.\<close>

datatype job = J_row nat | J_day nat

type_synonym sqldb = "(tables, job) conn"

text \<open>
  Opening a store: the server that the driver connects to, with what its tables hold, how it and
  the network behave and the text of its error for a duplicate, and the limits set on the pool of
  connections. A \<open>CREATE TABLE IF NOT EXISTS\<close> (also of an index) keeps what is there; that it
  fails is logged only.
\<close>

record sql_server =
  contents :: tables
  behaviour :: "nat \<Rightarrow> outcome"
  dup_text :: string
  server_time :: wall_clock

record pool_limits =
  max_open :: int
  max_idle :: int
  lifetime :: "64 word"

definition connect :: "string \<Rightarrow> sql_server \<Rightarrow> sqldb" where
  "connect closed_text s =
     \<lparr>tabs = contents s, net = behaviour s, sent = 0, closed = False, closed_msg = closed_text,
      dup_msg = dup_text s, sclock = server_time s, jobs = []\<rparr>"

definition create_if_missing :: "unit stmt" where
  "create_if_missing t = (Inr (), t)"

definition pragma :: "unit stmt" where
  "pragma t = (Inr (), t)"

text \<open>The next statement of the \<open>k\<close>-th pending goroutine, at the database's time.\<close>

definition run_job :: "int \<Rightarrow> nat \<Rightarrow> sqldb \<Rightarrow> sqldb" where
  "run_job maxint k d =
     (if k < length (jobs d) then
        (let (now, c1) = time_Now (sclock d); d0 = d\<lparr>sclock := c1\<rparr>
         in case jobs d ! k of
              J_row i \<Rightarrow> (snd (statement (bump_row maxint now i) d0))\<lparr>jobs := (jobs d)[k := J_day i]\<rparr>
            | J_day i \<Rightarrow> (snd (statement (bump_day maxint (format_date now) i) d0))
                             \<lparr>jobs := take k (jobs d) @ drop (Suc k) (jobs d)\<rparr>)
      else d)"

section \<open>Well-formed tables\<close>

text \<open>The constraints of the schema, and that no key is empty.\<close>

definition wf_tables :: "tables \<Rightarrow> bool" where
  "wf_tables t \<longleftrightarrow>
     distinct (map r_id (rows t)) \<and> distinct (map r_abv (rows t)) \<and> distinct (map r_url (rows t)) \<and>
     (\<forall>r \<in> set (rows t). r_id r < next_id t \<and> r_abv r \<noteq> '''' \<and> r_url r \<noteq> '''') \<and>
     distinct (map (\<lambda>d. (d_sid d, d_date d)) (day_rows t)) \<and>
     (\<forall>d \<in> set (day_rows t). d_sid d \<in> r_id ` set (rows t))"

definition sql_links :: "tables \<Rightarrow> string \<rightharpoonup> string" where
  "sql_links t a = map_option r_url (find_abv t a)"

lemma find_in: "find P xs = Some x \<Longrightarrow> x \<in> set xs \<and> P x"
  by (induction xs) (auto split: if_splits)

lemma find_abvD: "find_abv t a = Some r \<Longrightarrow> r \<in> set (rows t) \<and> r_abv r = a"
  unfolding find_abv_def by (rule find_in)

lemma find_urlD: "find_url t u = Some r \<Longrightarrow> r \<in> set (rows t) \<and> r_url r = u"
  unfolding find_url_def by (rule find_in)

lemma find_abv_None: "find_abv t a = None \<longleftrightarrow> a \<notin> r_abv ` set (rows t)"
  by (auto simp: find_abv_def find_None_iff)

lemma find_url_None: "find_url t u = None \<longleftrightarrow> u \<notin> r_url ` set (rows t)"
  by (auto simp: find_url_def find_None_iff)

lemma find_abvI:
  assumes "wf_tables t" "r \<in> set (rows t)" shows "find_abv t (r_abv r) = Some r"
proof (cases "find_abv t (r_abv r)")
  case None
  with assms(2) show ?thesis by (auto simp: find_abv_None)
next
  case (Some x)
  with find_abvD [OF Some] assms show ?thesis
    by (auto simp: wf_tables_def distinct_map dest: inj_onD)
qed

lemma find_urlI:
  assumes "wf_tables t" "r \<in> set (rows t)" shows "find_url t (r_url r) = Some r"
proof (cases "find_url t (r_url r)")
  case None
  with assms(2) show ?thesis by (auto simp: find_url_None)
next
  case (Some x)
  with find_urlD [OF Some] assms show ?thesis
    by (auto simp: wf_tables_def distinct_map dest: inj_onD)
qed

text \<open>A link of the tables is a row, and the two searches find it.\<close>

lemma sql_links_iff:
  assumes "wf_tables t"
  shows "sql_links t a = Some u \<longleftrightarrow> (\<exists>r \<in> set (rows t). r_abv r = a \<and> r_url r = u)"
  using find_abvI [OF assms] find_abvD [of t a] by (force simp: sql_links_def)

lemma sql_links_url: "wf_tables t \<Longrightarrow> sql_links t a = Some u \<longleftrightarrow> map_option r_abv (find_url t u) = Some a"
  using find_urlI [of t] find_urlD [of t u] by (fastforce simp: sql_links_iff)

lemma sql_links_None: "sql_links t a = None \<longleftrightarrow> find_abv t a = None"
  by (simp add: sql_links_def)

lemma sql_links_ran: "wf_tables t \<Longrightarrow> u \<in> ran (sql_links t) \<longleftrightarrow> find_url t u \<noteq> None"
  by (auto simp: ran_def sql_links_url)

lemma sql_links_nonempty: "wf_tables t \<Longrightarrow> sql_links t a = Some u \<Longrightarrow> a \<noteq> '''' \<and> u \<noteq> ''''"
  by (auto simp: sql_links_iff wf_tables_def)

lemma sql_links_inj: "wf_tables t \<Longrightarrow> sql_links t a = Some u \<Longrightarrow> sql_links t b = Some u \<Longrightarrow> a = b"
  by (auto simp: sql_links_url)

lemma wf_no_tables [wf_intros]: "wf_tables no_tables"
  by (simp add: wf_tables_def no_tables_def)

lemma sql_links_no_tables [simp]: "sql_links no_tables = Map.empty"
  by (simp add: fun_eq_iff sql_links_def find_abv_def no_tables_def)

section \<open>What the statements do to the links\<close>

lemma insert_row_ok:
  assumes "wf_tables t" "find_abv t a = None" "find_url t u = None" "a \<noteq> ''''" "u \<noteq> ''''"
  shows "wf_tables (insert_row a u t) \<and> sql_links (insert_row a u t) = (sql_links t)(a \<mapsto> u)"
proof
  show wf: "wf_tables (insert_row a u t)"
    using assms unfolding wf_tables_def find_abv_None find_url_None
    by (auto simp: insert_row_def less_Suc_eq)
  have rows: "set (rows (insert_row a u t))
      = insert \<lparr>r_id = next_id t, r_abv = a, r_url = u, r_hits = 0, r_last = None\<rparr> (set (rows t))"
    by (simp add: insert_row_def)
  have "sql_links (insert_row a u t) b = Some v \<longleftrightarrow> ((sql_links t)(a \<mapsto> u)) b = Some v" for b v
    using assms(2) unfolding sql_links_iff [OF wf] rows find_abv_None
    by (cases "b = a") (auto simp: sql_links_iff [OF assms(1)])
  then show "sql_links (insert_row a u t) = (sql_links t)(a \<mapsto> u)"
    by (intro ext option_Some_eqI)
qed

lemma wf_delete_where: "wf_tables t \<Longrightarrow> wf_tables (snd (delete_where P t))"
  unfolding wf_tables_def delete_where_def
  by (auto simp: distinct_map_filter) blast

lemma delete_where_links:
  assumes "wf_tables t" "\<And>r. r \<in> set (rows t) \<Longrightarrow> P r \<longleftrightarrow> Q (r_abv r) (r_url r)"
  shows "sql_links (snd (delete_where P t)) = (\<lambda>a. case sql_links t a of None \<Rightarrow> None
    | Some u \<Rightarrow> if Q a u then None else Some u)"
proof
  fix a
  have rows: "set (rows (snd (delete_where P t))) = {r \<in> set (rows t). \<not> P r}"
    by (auto simp: delete_where_def)
  have "sql_links (snd (delete_where P t)) a = Some u \<longleftrightarrow> sql_links t a = Some u \<and> \<not> Q a u" for u
    unfolding sql_links_iff [OF wf_delete_where [OF assms(1)]] rows sql_links_iff [OF assms(1)]
    using assms(2) by auto
  then show "sql_links (snd (delete_where P t)) a =
      (case sql_links t a of None \<Rightarrow> None | Some u \<Rightarrow> if Q a u then None else Some u)"
    by (intro option_Some_eqI) (auto split: option.split)
qed

text \<open>The links are what the key columns say; the other columns do not matter.\<close>

lemma sql_links_map_of: "sql_links t a = map_of (map (\<lambda>r. (r_abv r, r_url r)) (rows t)) a"
proof -
  have "map_option r_url (find (\<lambda>r. r_abv r = a) xs) = map_of (map (\<lambda>r. (r_abv r, r_url r)) xs) a" for xs
    by (induction xs) auto
  then show ?thesis by (simp add: sql_links_def find_abv_def)
qed

lemma wf_tables_keys:
  assumes "wf_tables t" "map (\<lambda>r. (r_id r, r_abv r, r_url r)) (rows t') = map (\<lambda>r. (r_id r, r_abv r, r_url r)) (rows t)"
    and "map (\<lambda>d. (d_sid d, d_date d)) (day_rows t') = map (\<lambda>d. (d_sid d, d_date d)) (day_rows t)"
    and "next_id t' = next_id t"
  shows "wf_tables t'" "sql_links t' = sql_links t"
proof -
  have k: "map r_id (rows t') = map r_id (rows t)" "map r_abv (rows t') = map r_abv (rows t)"
    "map r_url (rows t') = map r_url (rows t)"
    "map (\<lambda>r. (r_abv r, r_url r)) (rows t') = map (\<lambda>r. (r_abv r, r_url r)) (rows t)"
    using arg_cong [OF assms(2), of "map fst"] arg_cong [OF assms(2), of "map (\<lambda>x. fst (snd x))"]
      arg_cong [OF assms(2), of "map (\<lambda>x. snd (snd x))"] arg_cong [OF assms(2), of "map snd"]
    by (simp_all add: comp_def)
  have d: "map d_sid (day_rows t') = map d_sid (day_rows t)"
    using arg_cong [OF assms(3), of "map fst"] by (simp add: comp_def)
  have rows: "(\<lambda>r. (r_id r, r_abv r, r_url r)) ` set (rows t') = (\<lambda>r. (r_id r, r_abv r, r_url r)) ` set (rows t)"
    using arg_cong [OF assms(2), of set] by simp
  have all: "(\<forall>r \<in> set (rows s). r_id r < n \<and> r_abv r \<noteq> [] \<and> r_url r \<noteq> []) \<longleftrightarrow>
      (\<forall>x \<in> (\<lambda>r. (r_id r, r_abv r, r_url r)) ` set (rows s). fst x < n \<and> fst (snd x) \<noteq> [] \<and> snd (snd x) \<noteq> [])" for s n
    by auto
  have days: "(\<forall>d \<in> set (day_rows s). d_sid d \<in> r_id ` set (rows s)) \<longleftrightarrow>
      set (map d_sid (day_rows s)) \<subseteq> set (map r_id (rows s))" for s
    by auto
  show "wf_tables t'"
    using assms(1) unfolding wf_tables_def all days rows k d assms(3,4) .
  show "sql_links t' = sql_links t" unfolding fun_eq_iff sql_links_map_of k by simp
qed

lemma bump_row_ok:
  assumes "wf_tables t"
  shows "wf_tables (snd (bump_row mx now i t))" "sql_links (snd (bump_row mx now i t)) = sql_links t"
proof -
  have "map (\<lambda>r. (r_id r, r_abv r, r_url r)) (rows (snd (bump_row mx now i t))) = map (\<lambda>r. (r_id r, r_abv r, r_url r)) (rows t)"
    by (simp add: bump_row_def)
  from wf_tables_keys [OF assms this]
  show "wf_tables (snd (bump_row mx now i t))" "sql_links (snd (bump_row mx now i t)) = sql_links t"
    by (simp_all add: bump_row_def)
qed

lemma bump_day_ok:
  assumes "wf_tables t"
  shows "wf_tables (snd (bump_day mx date i t))" "sql_links (snd (bump_day mx date i t)) = sql_links t"
proof -
  have rows: "rows (snd (bump_day mx date i t)) = rows t" "next_id (snd (bump_day mx date i t)) = next_id t"
    by (simp_all add: bump_day_def)
  then show "sql_links (snd (bump_day mx date i t)) = sql_links t" by (simp add: fun_eq_iff sql_links_map_of)
  show "wf_tables (snd (bump_day mx date i t))"
  proof (cases "i \<in> r_id ` set (rows t) \<and> (\<forall>d \<in> set (day_rows t). \<not> (d_sid d = i \<and> d_date d = date))")
    case True
    then have "day_rows (snd (bump_day mx date i t)) = day_rows t @ [\<lparr>d_sid = i, d_date = date, d_hits = 1\<rparr>]"
      by (simp add: bump_day_def)
    with assms True show ?thesis unfolding wf_tables_def rows by auto
  next
    case False
    then have "map (\<lambda>d. (d_sid d, d_date d)) (day_rows (snd (bump_day mx date i t))) = map (\<lambda>d. (d_sid d, d_date d)) (day_rows t)"
      by (auto simp: bump_day_def)
    from wf_tables_keys(1) [OF assms _ this] show ?thesis by (simp add: rows)
  qed
qed

lemma select_frame [simp]:
  "snd (select_abv a t) = t" "snd (select_url u t) = t" "snd (select_days i t) = t" "snd (ping t) = t"
  "snd (create_if_missing t) = t" "snd (pragma t) = t"
  by (simp_all add: select_abv_def select_url_def select_days_def ping_def create_if_missing_def pragma_def)

section \<open>Late statistics\<close>

text \<open>Whenever a goroutine's statement runs, and however it ends, the links stay.\<close>

lemma run_job_ok:
  assumes "wf_tables (tabs d)"
  shows "wf_tables (tabs (run_job mx k d))" "sql_links (tabs (run_job mx k d)) = sql_links (tabs d)"
    and "net (run_job mx k d) = net d" "closed (run_job mx k d) = closed d" "closed_msg (run_job mx k d) = closed_msg d"
proof -
  have s: "wf_tables (tabs (snd (statement f e))) \<and> sql_links (tabs (snd (statement f e))) = sql_links (tabs e)"
    if "wf_tables (tabs e)" "wf_tables (snd (f (tabs e)))" "sql_links (snd (f (tabs e))) = sql_links (tabs e)"
    for e :: sqldb and f :: "unit stmt"
    using statement_tabs [of f e] that by auto
  show "wf_tables (tabs (run_job mx k d))" "sql_links (tabs (run_job mx k d)) = sql_links (tabs d)"
    using assms s bump_row_ok bump_day_ok
    by (auto simp: run_job_def time_Now_def Let_def split: job.split)
  show "net (run_job mx k d) = net d" "closed (run_job mx k d) = closed d" "closed_msg (run_job mx k d) = closed_msg d"
    by (simp_all add: run_job_def time_Now_def Let_def split: job.split)
qed

end
