(* ===== verification/LateStats.thy ===== *)
theory LateStats
  imports SqlTables
begin

text \<open>
  The statistics of the SQL stores, which goroutines write after \<open>GetUrl\<close> has answered: on a
  connection that works every look-up is counted in the end, once, on the link it was made of, and
  the hit count and the days agree whenever no goroutine is left. Proved once for every store that
  treats tables and goroutines as the locale \<open>sql_store\<close> says; the stores interpret it.
\<close>

section \<open>Counts\<close>

definition days_total :: "tables \<Rightarrow> nat \<Rightarrow> int" where
  "days_total t i = (\<Sum>d \<leftarrow> filter (\<lambda>d. d_sid d = i) (day_rows t). d_hits d)"

abbreviation waiting :: "sqldb \<Rightarrow> job \<Rightarrow> int" where
  "waiting d j \<equiv> int (count_list (jobs d) j)"

fun job_id :: "job \<Rightarrow> nat" where
  "job_id (J_row i) = i"
| "job_id (J_day i) = i"

text \<open>
  The balance of a row: as long as its count has not reached the largest value of its column, it is
  what its days add up to, with the days that are still to be written.
\<close>

definition in_balance :: "int \<Rightarrow> sqldb \<Rightarrow> row \<Rightarrow> bool" where
  "in_balance mx d r \<longleftrightarrow> 0 \<le> r_hits r \<and> r_hits r \<le> mx \<and>
     (r_hits r < mx \<longrightarrow> r_hits r = days_total (tabs d) (r_id r) + waiting d (J_day (r_id r)))"

definition stats_ok :: "int \<Rightarrow> sqldb \<Rightarrow> bool" where
  "stats_ok mx d \<longleftrightarrow> 0 \<le> mx \<and> wf_tables (tabs d) \<and> (\<forall>r \<in> set (rows (tabs d)). in_balance mx d r) \<and>
     (\<forall>x \<in> set (day_rows (tabs d)). 0 \<le> d_hits x) \<and> (\<forall>j \<in> set (jobs d). job_id j < next_id (tabs d))"

lemma days_total_none: "(\<And>x. x \<in> set (day_rows t) \<Longrightarrow> d_sid x \<noteq> i) \<Longrightarrow> days_total t i = 0"
  by (simp add: days_total_def filter_False)

lemma days_total_nonneg: "(\<forall>x \<in> set (day_rows t). 0 \<le> d_hits x) \<Longrightarrow> 0 \<le> days_total t i"
  unfolding days_total_def by (rule sum_list_nonneg) auto

lemma days_total_member:
  assumes "\<forall>x \<in> set (day_rows t). 0 \<le> d_hits x" "y \<in> set (day_rows t)" "d_sid y = i"
  shows "d_hits y \<le> days_total t i"
  unfolding days_total_def using assms by (intro member_le_sum_list) auto

text \<open>Writing a day adds one to its row's days, and to no other's.\<close>

lemma bump_list_total:
  assumes "distinct (map (\<lambda>d. (d_sid d, d_date d)) ds)"
  shows "(\<Sum>d \<leftarrow> filter (\<lambda>d. d_sid d = k) (map (\<lambda>d. if d_sid d = i \<and> d_date d = date then d\<lparr>d_hits := d_hits d + 1\<rparr> else d) ds). d_hits d)
    = (\<Sum>d \<leftarrow> filter (\<lambda>d. d_sid d = k) ds. d_hits d) + of_bool (k = i \<and> (\<exists>d \<in> set ds. d_sid d = i \<and> d_date d = date))"
  using assms
proof (induction ds)
  case (Cons d ds)
  show ?case
  proof (cases "d_sid d = i \<and> d_date d = date")
    case True
    then have "(i, date) \<notin> (\<lambda>d. (d_sid d, d_date d)) ` set ds" using Cons.prems by auto
    then have "\<not> (\<exists>x \<in> set ds. d_sid x = i \<and> d_date x = date)" by (auto simp: image_iff)
    with Cons True show ?thesis by auto
  next
    case False
    with Cons show ?thesis by auto
  qed
qed simp

lemma bump_day_total:
  assumes "wf_tables t" "i \<in> r_id ` set (rows t)" "\<And>x. x \<in> set (day_rows t) \<Longrightarrow> d_sid x = i \<Longrightarrow> d_hits x < mx"
  shows "days_total (snd (bump_day mx date i t)) k = days_total t k + of_bool (k = i)"
    and "rows (snd (bump_day mx date i t)) = rows t" "next_id (snd (bump_day mx date i t)) = next_id t"
    and "(\<forall>x \<in> set (day_rows t). 0 \<le> d_hits x) \<Longrightarrow> \<forall>x \<in> set (day_rows (snd (bump_day mx date i t))). 0 \<le> d_hits x"
proof -
  have dist: "distinct (map (\<lambda>d. (d_sid d, d_date d)) (day_rows t))" using assms(1) by (simp add: wf_tables_def)
  have small: "\<not> (\<exists>d \<in> set (day_rows t). d_sid d = i \<and> d_date d = date \<and> mx < d_hits d + 1)"
    using assms(3) by force
  show "days_total (snd (bump_day mx date i t)) k = days_total t k + of_bool (k = i)"
  proof (cases "\<exists>d \<in> set (day_rows t). d_sid d = i \<and> d_date d = date")
    case True
    then have "day_rows (snd (bump_day mx date i t))
        = map (\<lambda>d. if d_sid d = i \<and> d_date d = date then d\<lparr>d_hits := d_hits d + 1\<rparr> else d) (day_rows t)"
      unfolding bump_day_def using assms(2) small by auto
    with bump_list_total [OF dist, of k i date] True show ?thesis by (simp add: days_total_def)
  next
    case False
    then have "day_rows (snd (bump_day mx date i t)) = day_rows t @ [\<lparr>d_sid = i, d_date = date, d_hits = 1\<rparr>]"
      unfolding bump_day_def using assms(2) by simp
    then show ?thesis by (simp add: days_total_def)
  qed
  show "rows (snd (bump_day mx date i t)) = rows t" "next_id (snd (bump_day mx date i t)) = next_id t"
    by (simp_all add: bump_day_def)
  show "\<forall>x \<in> set (day_rows t). 0 \<le> d_hits x \<Longrightarrow> \<forall>x \<in> set (day_rows (snd (bump_day mx date i t))). 0 \<le> d_hits x"
    by (auto simp: bump_day_def)
qed

section \<open>The balance under each effect\<close>

lemma stats_ok_insert:
  assumes "stats_ok mx d" "find_abv (tabs d) a = None" "find_url (tabs d) u = None" "a \<noteq> ''''" "u \<noteq> ''''"
    and "tabs d' = insert_row a u (tabs d)" "jobs d' = jobs d"
  shows "stats_ok mx d'"
proof -
  have wf: "wf_tables (tabs d)" using assms(1) by (simp add: stats_ok_def)
  have ids: "r \<in> set (rows (tabs d)) \<Longrightarrow> r_id r \<noteq> next_id (tabs d)" for r
    using wf by (auto simp: wf_tables_def)
  have "days_total (tabs d) (next_id (tabs d)) = 0"
    using wf ids by (intro days_total_none) (auto simp: wf_tables_def)
  moreover have "J_day (next_id (tabs d)) \<notin> set (jobs d)"
    using assms(1) by (force simp: stats_ok_def)
  moreover have "days_total (insert_row a u (tabs d)) i = days_total (tabs d) i" for i
    by (simp add: days_total_def insert_row_def)
  ultimately have "\<forall>r \<in> set (rows (tabs d')). in_balance mx d' r"
    using assms(1,6,7) by (auto simp: stats_ok_def in_balance_def insert_row_def count_list_0_iff)
  moreover have "wf_tables (tabs d')" using insert_row_ok [OF wf assms(2-5)] assms(6) by simp
  ultimately show ?thesis using assms(1,6,7) by (auto simp: stats_ok_def insert_row_def less_SucI)
qed

lemma stats_ok_burn:
  assumes "stats_ok mx d" "tabs d' = (tabs d)\<lparr>next_id := Suc (next_id (tabs d))\<rparr>" "jobs d' = jobs d"
  shows "stats_ok mx d'"
  using assms by (auto simp: stats_ok_def in_balance_def days_total_def wf_tables_def less_SucI)

lemma stats_ok_delete:
  assumes "stats_ok mx d" "tabs d' = snd (delete_where P (tabs d))" "jobs d' = jobs d"
  shows "stats_ok mx d'"
proof -
  have wf: "wf_tables (tabs d)" using assms(1) by (simp add: stats_ok_def)
  have "days_total (tabs d') (r_id r) = days_total (tabs d) (r_id r)" if "r \<in> set (rows (tabs d))" "\<not> P r" for r
  proof -
    define I where "I = r_id ` set (filter P (rows (tabs d)))"
    have "r_id r \<notin> I"
      unfolding I_def using that wf by (auto simp: wf_tables_def distinct_map dest: inj_onD)
    then have "filter (\<lambda>x. d_sid x \<notin> I \<and> d_sid x = r_id r) (day_rows (tabs d)) = filter (\<lambda>x. d_sid x = r_id r) (day_rows (tabs d))"
      by (intro filter_cong refl) auto
    moreover have "day_rows (tabs d') = filter (\<lambda>x. d_sid x \<notin> I) (day_rows (tabs d))"
      by (simp add: assms(2) delete_where_def I_def)
    ultimately show ?thesis unfolding days_total_def by (simp only: filter_filter)
  qed
  then have "\<forall>r \<in> set (rows (tabs d')). in_balance mx d' r"
    using assms by (auto simp: stats_ok_def in_balance_def delete_where_def)
  then show ?thesis using assms wf_delete_where [OF wf, of P] by (auto simp: stats_ok_def delete_where_def)
qed

lemma stats_ok_spawn:
  assumes "stats_ok mx d" "r \<in> set (rows (tabs d))" "tabs d' = tabs d" "jobs d' = jobs d @ [J_row (r_id r)]"
  shows "stats_ok mx d'"
  using assms by (auto simp: stats_ok_def in_balance_def wf_tables_def)

lemma stats_ok_cong:
  "stats_ok mx d \<Longrightarrow> tabs d' = tabs d \<Longrightarrow> jobs d' = jobs d \<Longrightarrow> stats_ok mx d'"
  by (simp add: stats_ok_def in_balance_def)

section \<open>A goroutine's statement\<close>

lemma run_job_quiet:
  assumes "quiet d" "k < length (jobs d)"
  obtains (row) i now where "jobs d ! k = J_row i" "tabs (run_job mx k d) = snd (bump_row mx now i (tabs d))"
      "jobs (run_job mx k d) = (jobs d)[k := J_day i]"
  | (day) i date where "jobs d ! k = J_day i" "tabs (run_job mx k d) = snd (bump_day mx date i (tabs d))"
      "jobs (run_job mx k d) = take k (jobs d) @ drop (Suc k) (jobs d)"
proof -
  let ?now = "readings (sclock d) (ticks (sclock d))"
  have q: "quiet (d\<lparr>sclock := c\<rparr>)" for c using assms(1) by (simp add: quiet_def)
  show ?thesis
  proof (cases "jobs d ! k")
    case (J_row i)
    then show ?thesis using assms(2)
      by (intro row [of i ?now]) (simp_all add: run_job_def time_Now_def Let_def statement_quiet [OF q])
  next
    case (J_day i)
    then show ?thesis using assms(2)
      by (intro day [of i "format_date ?now"]) (simp_all add: run_job_def time_Now_def Let_def statement_quiet [OF q])
  qed
qed

lemma count_update:
  "k < length xs \<Longrightarrow> int (count_list (xs[k := y]) z) = int (count_list xs z) - of_bool (xs ! k = z) + of_bool (y = z)"
proof -
  assume k: "k < length xs"
  have "count_list xs z = count_list (take k xs @ xs ! k # drop (Suc k) xs) z"
    using k by (simp add: id_take_nth_drop [symmetric])
  then show ?thesis using k by (simp add: upd_conv_take_nth_drop)
qed

lemma count_remove:
  "k < length xs \<Longrightarrow> int (count_list (take k xs @ drop (Suc k) xs) z) = int (count_list xs z) - of_bool (xs ! k = z)"
proof -
  assume k: "k < length xs"
  have "count_list xs z = count_list (take k xs @ xs ! k # drop (Suc k) xs) z"
    using k by (simp add: id_take_nth_drop [symmetric])
  then show ?thesis by simp
qed

lemma stats_ok_job:
  assumes "quiet d" "stats_ok mx d" shows "stats_ok mx (run_job mx k d)"
proof (cases "k < length (jobs d)")
  case False
  then show ?thesis using assms(2) by (simp add: run_job_def)
next
  case k: True
  have wf: "wf_tables (tabs d)" and bal: "\<And>r. r \<in> set (rows (tabs d)) \<Longrightarrow> in_balance mx d r"
    and pos: "\<forall>x \<in> set (day_rows (tabs d)). 0 \<le> d_hits x" and mx: "0 \<le> mx"
    and ids: "\<And>j. j \<in> set (jobs d) \<Longrightarrow> job_id j < next_id (tabs d)"
    using assms(2) by (simp_all add: stats_ok_def)
  from run_job_ok(1) [OF wf] have wf': "wf_tables (tabs (run_job mx k d))" .
  have here: "jobs d ! k \<in> set (jobs d)" using k by simp
  from assms(1) k show ?thesis
  proof (cases rule: run_job_quiet [where mx = mx])
    case (row i now)
    have ids': "\<forall>j \<in> set (jobs (run_job mx k d)). job_id j < next_id (tabs (run_job mx k d))"
    proof -
      have "next_id (tabs (run_job mx k d)) = next_id (tabs d)" using row(2) by (simp add: bump_row_def)
      moreover have "i < next_id (tabs d)" using ids [OF here] row(1) by simp
      ultimately show ?thesis using ids row(3) by (auto dest!: set_update_subset_insert [THEN subsetD])
    qed
    have days: "days_total (tabs (run_job mx k d)) n = days_total (tabs d) n"
      "day_rows (tabs (run_job mx k d)) = day_rows (tabs d)" for n
      using row by (simp_all add: days_total_def bump_row_def)
    have w: "waiting (run_job mx k d) (J_day n) = waiting d (J_day n) + of_bool (n = i)" for n
      using count_update [OF k, of "J_day i" "J_day n"] row by auto
    have "in_balance mx (run_job mx k d) r" if r: "r \<in> set (rows (tabs (run_job mx k d)))" for r
    proof (cases "\<exists>x \<in> set (rows (tabs d)). r_id x = i \<and> mx < r_hits x + 1")
      case True
      then have same: "rows (tabs (run_job mx k d)) = rows (tabs d)" using row by (simp add: bump_row_def)
      have "r_id r = i \<longrightarrow> r_hits r = mx"
        using True r same wf bal [of r] by (auto simp: wf_tables_def distinct_map in_balance_def dest: inj_onD)
      with bal [of r] r same days w show ?thesis by (auto simp: in_balance_def)
    next
      case False
      then have "rows (tabs (run_job mx k d))
          = map (\<lambda>r. if r_id r = i then r\<lparr>r_hits := r_hits r + 1, r_last := Some now\<rparr> else r) (rows (tabs d))"
        using row by (auto simp: bump_row_def)
      with r obtain x where x: "x \<in> set (rows (tabs d))"
        "r = (if r_id x = i then x\<lparr>r_hits := r_hits x + 1, r_last := Some now\<rparr> else x)" by auto
      with False bal [OF x(1)] days w show ?thesis by (auto simp: in_balance_def)
    qed
    with wf' ids' days pos mx show ?thesis by (simp add: stats_ok_def)
  next
    case (day i date)
    have w: "waiting (run_job mx k d) (J_day n) = waiting d (J_day n) - of_bool (n = i)" for n
      using count_remove [OF k, of "J_day n"] day by auto
    have sub: "set (jobs (run_job mx k d)) \<subseteq> set (jobs d)"
      using day by (auto dest: in_set_takeD in_set_dropD)
    have some: "1 \<le> waiting d (J_day i)"
      using here day by (metis count_list_0_iff less_one not_le of_nat_1 of_nat_le_iff)
    show ?thesis
    proof (cases "i \<in> r_id ` set (rows (tabs d))")
      case False
      then have "tabs (run_job mx k d) = tabs d" using day by (simp add: bump_day_def)
      then have "in_balance mx (run_job mx k d) r" if "r \<in> set (rows (tabs d))" for r
        using bal [OF that] w False that by (auto simp: in_balance_def)
      with \<open>tabs (run_job mx k d) = tabs d\<close> wf' pos mx ids sub show ?thesis by (auto simp: stats_ok_def)
    next
      case True
      then obtain r where r: "r \<in> set (rows (tabs d))" "r_id r = i" by auto
      have uniq: "x \<in> set (rows (tabs d)) \<Longrightarrow> r_id x = i \<Longrightarrow> x = r" for x
        using r wf by (auto simp: wf_tables_def distinct_map dest: inj_onD)
      show ?thesis
      proof (cases "r_hits r < mx")
        case True
        have "d_hits x < mx" if "x \<in> set (day_rows (tabs d))" "d_sid x = i" for x
          using days_total_member [OF pos that] bal [OF r(1)] r(2) True some by (simp add: in_balance_def)
        note eff = bump_day_total [OF wf \<open>i \<in> r_id ` set (rows (tabs d))\<close> this, where date = date, folded day(2)]
        have "in_balance mx (run_job mx k d) x" if "x \<in> set (rows (tabs d))" for x
          using bal [OF that] w eff(1) by (auto simp: in_balance_def)
        with eff wf' pos mx ids sub show ?thesis by (auto simp: stats_ok_def)
      next
        case False
        have full: "r_hits r = mx" using False bal [OF r(1)] by (simp add: in_balance_def)
        have rows: "rows (tabs (run_job mx k d)) = rows (tabs d)" "next_id (tabs (run_job mx k d)) = next_id (tabs d)"
          "\<forall>x \<in> set (day_rows (tabs (run_job mx k d))). 0 \<le> d_hits x"
          using day pos by (auto simp: bump_day_def)
        have other: "days_total (tabs (run_job mx k d)) n = days_total (tabs d) n" if "n \<noteq> i" for n
          using that day(2) bump_list_total [of "day_rows (tabs d)" n i date] wf
          by (auto simp: days_total_def bump_day_def wf_tables_def)
        have "in_balance mx (run_job mx k d) x" if "x \<in> set (rows (tabs d))" for x
          using bal [OF that] w other uniq [OF that] full by (cases "r_id x = i") (auto simp: in_balance_def)
        with rows wf' mx ids sub show ?thesis by (auto simp: stats_ok_def)
      qed
    qed
  qed
qed

section \<open>Every look-up counts\<close>

text \<open>The hits of a row, those its goroutines still have to write included.\<close>

definition promised :: "sqldb \<Rightarrow> row \<Rightarrow> int" where
  "promised d r = r_hits r + waiting d (J_row (r_id r))"

text \<open>An event: a call of the store, or a statement of a goroutine.\<close>

datatype sql_event = Dao dao_call | Job nat

text \<open>The interface a store offers to the proofs: its effect on tables and goroutines.\<close>

locale sql_store =
  fixes D :: "(sqldb, 'd) ShortUrlDao" and mx :: int and next_job :: "nat \<Rightarrow> sqldb \<Rightarrow> sqldb"
    and safe :: "string \<Rightarrow> string \<Rightarrow> bool"
  assumes read_effect: "quiet d \<Longrightarrow> c \<in> {CGetAbv u, CGetStats a, CIsLikelyOk} \<Longrightarrow>
      quiet (dao_step D d c) \<and> tabs (dao_step D d c) = tabs d \<and> jobs (dao_step D d c) = jobs d"
    and hit_effect: "quiet d \<Longrightarrow> quiet (dao_step D d (CGetUrl a)) \<and> tabs (dao_step D d (CGetUrl a)) = tabs d \<and>
      jobs (dao_step D d (CGetUrl a)) = jobs d @ (case find_abv (tabs d) a of None \<Rightarrow> [] | Some r \<Rightarrow> [J_row (r_id r)])"
    and save_effect: "quiet d \<Longrightarrow> safe a u \<Longrightarrow> a \<noteq> '''' \<Longrightarrow> u \<noteq> '''' \<Longrightarrow> quiet (dao_step D d (CSave a u)) \<and> jobs (dao_step D d (CSave a u)) = jobs d \<and>
      (tabs (dao_step D d (CSave a u)) = tabs d \<or>
       tabs (dao_step D d (CSave a u)) = (tabs d)\<lparr>next_id := Suc (next_id (tabs d))\<rparr> \<or>
       find_abv (tabs d) a = None \<and> find_url (tabs d) u = None \<and> tabs (dao_step D d (CSave a u)) = insert_row a u (tabs d))"
    and delete_effect: "quiet d \<Longrightarrow> quiet (dao_step D d (CDeleteAbv a)) \<and> jobs (dao_step D d (CDeleteAbv a)) = jobs d \<and>
      tabs (dao_step D d (CDeleteAbv a)) = snd (delete_where (\<lambda>r. r_abv r = a) (tabs d))"
    and delete_url_effect: "quiet d \<Longrightarrow> quiet (dao_step D d (CDeleteUrl u)) \<and> jobs (dao_step D d (CDeleteUrl u)) = jobs d \<and>
      tabs (dao_step D d (CDeleteUrl u)) = snd (delete_where (\<lambda>r. r_url r = u) (tabs d))"
    and job_effect: "\<exists>ks. next_job k d = fold (run_job mx) ks d"

text \<open>A \<open>Save\<close> is of a pair that the store can hold.\<close>

fun good_event :: "(string \<Rightarrow> string \<Rightarrow> bool) \<Rightarrow> sql_event \<Rightarrow> bool" where
  "good_event safe (Dao (CSave a u)) \<longleftrightarrow> a \<noteq> '''' \<and> u \<noteq> '''' \<and> safe a u"
| "good_event safe e \<longleftrightarrow> True"

fun sql_step :: "(sqldb, 'd) ShortUrlDao \<Rightarrow> (nat \<Rightarrow> sqldb \<Rightarrow> sqldb) \<Rightarrow> sql_event \<Rightarrow> sqldb \<Rightarrow> sqldb" where
  "sql_step D nj (Dao c) d = dao_step D d c"
| "sql_step D nj (Job k) d = nj k d"

lemma quiet_run_job: "quiet d \<Longrightarrow> quiet (run_job mx k d)"
  by (simp add: quiet_def run_job_def time_Now_def Let_def split: job.split)

lemma quiet_jobs: "quiet d \<Longrightarrow> stats_ok mx d \<Longrightarrow> quiet (fold (run_job mx) ks d) \<and> stats_ok mx (fold (run_job mx) ks d)"
  by (induction ks arbitrary: d) (simp_all add: quiet_run_job stats_ok_job)

context sql_store
begin

lemma stats_ok_step:
  assumes "quiet d" "stats_ok mx d" "good_event safe e"
  shows "quiet (sql_step D next_job e d) \<and> stats_ok mx (sql_step D next_job e d)"
proof (cases e)
  case (Job k)
  then show ?thesis using job_effect [of k d] quiet_jobs [OF assms(1,2)] by auto
next
  case (Dao c)
  show ?thesis
  proof (cases c)
    case (CSave a u)
    with Dao assms save_effect [OF assms(1), of a u] show ?thesis
      by (auto intro: stats_ok_cong stats_ok_burn stats_ok_insert)
  next
    case (CDeleteAbv a)
    with Dao assms(2) delete_effect [OF assms(1), of a] show ?thesis by (auto intro: stats_ok_delete)
  next
    case (CDeleteUrl u)
    with Dao assms(2) delete_url_effect [OF assms(1), of u] show ?thesis by (auto intro: stats_ok_delete)
  next
    case (CGetUrl a)
    with Dao assms(2) hit_effect [OF assms(1), of a] show ?thesis
      by (cases "find_abv (tabs d) a") (auto intro: stats_ok_cong stats_ok_spawn dest: find_abvD)
  next
    case (CGetAbv u)
    with Dao assms(2) read_effect [OF assms(1), of c u u] show ?thesis by (auto intro: stats_ok_cong)
  next
    case (CGetStats a)
    with Dao assms(2) read_effect [OF assms(1), of c a a] show ?thesis by (auto intro: stats_ok_cong)
  next
    case CIsLikelyOk
    with Dao assms(2) read_effect [OF assms(1), of c] show ?thesis by (auto intro: stats_ok_cong)
  qed
qed

lemma stats_ok_run:
  "quiet d \<Longrightarrow> stats_ok mx d \<Longrightarrow> list_all (good_event safe) es \<Longrightarrow>
     quiet (fold (sql_step D next_job) es d) \<and> stats_ok mx (fold (sql_step D next_job) es d)"
  by (induction es arbitrary: d) (auto simp: stats_ok_step)

text \<open>When no goroutine is left, a count that fits its column is the sum of its days.\<close>

lemma settled:
  assumes "quiet d" "stats_ok mx d" "list_all (good_event safe) es"
    and "jobs (fold (sql_step D next_job) es d) = []"
    and "r \<in> set (rows (tabs (fold (sql_step D next_job) es d)))" "r_hits r < mx"
  shows "r_hits r = days_total (tabs (fold (sql_step D next_job) es d)) (r_id r)"
  using stats_ok_run [OF assms(1-3)] assms(4-6) by (auto simp: stats_ok_def in_balance_def)

end

text \<open>Following one row: its hits, written or promised, grow by its look-ups and nothing else.\<close>

definition follows :: "row \<Rightarrow> sqldb \<Rightarrow> sqldb \<Rightarrow> int \<Rightarrow> row \<Rightarrow> bool" where
  "follows r d d' n r' \<longleftrightarrow> r' \<in> set (rows (tabs d')) \<and> r_id r' = r_id r \<and> r_abv r' = r_abv r \<and>
     r_url r' = r_url r \<and> promised d' r' = promised d r + n"

lemma follows_same:
  "r \<in> set (rows (tabs d')) \<Longrightarrow> waiting d' (J_row (r_id r)) = waiting d (J_row (r_id r)) + n \<Longrightarrow> follows r d d' n r"
  by (simp add: follows_def promised_def)

lemma follows_trans: "follows r d d1 m r1 \<Longrightarrow> follows r1 d1 d2 n r2 \<Longrightarrow> follows r d d2 (m + n) r2"
  by (simp add: follows_def)

lemma follows_job:
  assumes "quiet d" "stats_ok mx d" "r \<in> set (rows (tabs d))" "promised d r \<le> mx"
  shows "\<exists>r'. follows r d (run_job mx k d) 0 r'"
proof (cases "k < length (jobs d)")
  case False
  then have "run_job mx k d = d" by (simp add: run_job_def)
  with assms(3) show ?thesis by (auto simp: follows_def)
next
  case k: True
  have wf: "wf_tables (tabs d)" using assms(2) by (simp add: stats_ok_def)
  from assms(1) k show ?thesis
  proof (cases rule: run_job_quiet [where mx = mx])
    case (row i now)
    have w: "waiting (run_job mx k d) (J_row n) = waiting d (J_row n) - of_bool (n = i)" for n
      using count_update [OF k, of "J_day i" "J_row n"] row by auto
    show ?thesis
    proof (cases "r_id r = i")
      case True
      have "1 \<le> waiting d (J_row i)"
        using k row(1) nth_mem [OF k] by (metis count_list_0_iff less_one not_le of_nat_1 of_nat_le_iff)
      then have le: "r_hits r + 1 \<le> mx" using assms(4) True by (simp add: promised_def)
      have "x = r" if "x \<in> set (rows (tabs d))" "r_id x = i" for x
        using that assms(3) True wf by (auto simp: wf_tables_def distinct_map dest: inj_onD)
      with le have "\<not> (\<exists>x \<in> set (rows (tabs d)). r_id x = i \<and> mx < r_hits x + 1)" by force
      then have "rows (tabs (run_job mx k d))
          = map (\<lambda>r. if r_id r = i then r\<lparr>r_hits := r_hits r + 1, r_last := Some now\<rparr> else r) (rows (tabs d))"
        using row(2) by (auto simp: bump_row_def)
      then have "r\<lparr>r_hits := r_hits r + 1, r_last := Some now\<rparr> \<in> set (rows (tabs (run_job mx k d)))"
        using assms(3) True by force
      then have "follows r d (run_job mx k d) 0 (r\<lparr>r_hits := r_hits r + 1, r_last := Some now\<rparr>)"
        using w [of i] True by (simp add: follows_def promised_def)
      then show ?thesis ..
    next
      case False
      then have "r \<in> set (rows (tabs (run_job mx k d)))" using row(2) assms(3) by (force simp: bump_row_def)
      then have "follows r d (run_job mx k d) 0 r" using w [of "r_id r"] False by (intro follows_same) simp_all
      then show ?thesis ..
    qed
  next
    case (day i date)
    have "r \<in> set (rows (tabs (run_job mx k d)))" using day(2) assms(3) by (simp add: bump_day_def)
    moreover have "waiting (run_job mx k d) (J_row n) = waiting d (J_row n)" for n
      using count_remove [OF k, of "J_row n"] day by auto
    ultimately have "follows r d (run_job mx k d) 0 r" by (intro follows_same) simp_all
    then show ?thesis ..
  qed
qed

lemma follows_jobs:
  assumes "quiet d" "stats_ok mx d" "r \<in> set (rows (tabs d))" "promised d r \<le> mx"
  shows "\<exists>r'. follows r d (fold (run_job mx) ks d) 0 r'"
  using assms
proof (induction ks arbitrary: d r)
  case Nil
  then show ?case by (auto simp: follows_def)
next
  case (Cons k ks)
  obtain r1 where r1: "follows r d (run_job mx k d) 0 r1" using follows_job [OF Cons.prems] by blast
  then obtain r2 where "follows r1 (run_job mx k d) (fold (run_job mx) ks (run_job mx k d)) 0 r2"
    using Cons.IH [of "run_job mx k d" r1] quiet_run_job [OF Cons.prems(1)] stats_ok_job [OF Cons.prems(1,2)] Cons.prems(4)
    by (auto simp: follows_def)
  from follows_trans [OF r1 this] show ?case by auto
qed

context sql_store
begin

lemma follows_step:
  assumes "quiet d" "stats_ok mx d" "good_event safe e" "r \<in> set (rows (tabs d))"
    and "e \<noteq> Dao (CDeleteAbv (r_abv r))" "e \<noteq> Dao (CDeleteUrl (r_url r))" "promised d r \<le> mx"
  shows "\<exists>r'. follows r d (sql_step D next_job e d) (of_bool (e = Dao (CGetUrl (r_abv r)))) r'"
proof (cases e)
  case (Job k)
  then show ?thesis using job_effect [of k d] follows_jobs [OF assms(1,2,4,7)] by auto
next
  case (Dao c)
  have wf: "wf_tables (tabs d)" using assms(2) by (simp add: stats_ok_def)
  have "follows r d (dao_step D d c) (of_bool (c = CGetUrl (r_abv r))) r"
  proof (cases c)
    case (CSave a u)
    with assms(3,4) Dao save_effect [OF assms(1), of a u] show ?thesis
      by (intro follows_same) (auto simp: insert_row_def)
  next
    case (CDeleteAbv a)
    with assms(4,5) Dao delete_effect [OF assms(1), of a] show ?thesis
      by (intro follows_same) (auto simp: delete_where_def)
  next
    case (CDeleteUrl u)
    with assms(4,6) Dao delete_url_effect [OF assms(1), of u] show ?thesis
      by (intro follows_same) (auto simp: delete_where_def)
  next
    case (CGetUrl a)
    have "find_abv (tabs d) a = Some x \<Longrightarrow> r_id x = r_id r \<longleftrightarrow> a = r_abv r" for x
      using find_abvI [OF wf assms(4)] find_abvD [of "tabs d" a x] wf assms(4)
      by (auto simp: wf_tables_def distinct_map dest: inj_onD)
    with CGetUrl assms(4) hit_effect [OF assms(1), of a] find_abvI [OF wf assms(4)] show ?thesis
      by (intro follows_same) (auto split: option.splits)
  next
    case (CGetAbv u)
    with assms(4) read_effect [OF assms(1), of c u u] show ?thesis by (intro follows_same) auto
  next
    case (CGetStats a)
    with assms(4) read_effect [OF assms(1), of c a a] show ?thesis by (intro follows_same) auto
  next
    case CIsLikelyOk
    with assms(4) read_effect [OF assms(1), of c] show ?thesis by (intro follows_same) auto
  qed
  with Dao show ?thesis by auto
qed

text \<open>
  Over any run that does not delete the link: its row is still there, and its hits have grown by
  the number of its look-ups, with the hits still to be written counted in.
\<close>

lemma every_hit_counts:
  assumes "quiet d" "stats_ok mx d" "list_all (good_event safe) es" "r \<in> set (rows (tabs d))"
    and "Dao (CDeleteAbv (r_abv r)) \<notin> set es" "Dao (CDeleteUrl (r_url r)) \<notin> set es"
    and "promised d r + int (count_list es (Dao (CGetUrl (r_abv r)))) \<le> mx"
  shows "\<exists>r'. follows r d (fold (sql_step D next_job) es d) (int (count_list es (Dao (CGetUrl (r_abv r))))) r'"
  using assms
proof (induction es arbitrary: d r)
  case Nil
  then show ?case by (auto simp: follows_def)
next
  case (Cons e es)
  let ?d1 = "sql_step D next_job e d" and ?n = "of_bool (e = Dao (CGetUrl (r_abv r))) :: int"
  have total: "int (count_list (e # es) (Dao (CGetUrl (r_abv r)))) = ?n + int (count_list es (Dao (CGetUrl (r_abv r))))"
    by simp
  have "\<exists>r1. follows r d ?d1 ?n r1"
    using Cons.prems total by (intro follows_step) auto
  then obtain r1 where r1: "follows r d ?d1 ?n r1" by blast
  have "quiet ?d1 \<and> stats_ok mx ?d1" using Cons.prems by (intro stats_ok_step) simp_all
  then have "\<exists>r2. follows r1 ?d1 (fold (sql_step D next_job) es ?d1) (int (count_list es (Dao (CGetUrl (r_abv r1))))) r2"
    using Cons.prems r1 total by (intro Cons.IH) (auto simp: follows_def)
  then obtain r2 where r2: "follows r1 ?d1 (fold (sql_step D next_job) es ?d1) (int (count_list es (Dao (CGetUrl (r_abv r1))))) r2"
    by blast
  have "r_abv r1 = r_abv r" using r1 by (simp add: follows_def)
  with follows_trans [OF r1 r2] total show ?case by auto
qed

end

end
