(* ===== verification/SqlStore.thy ===== *)
theory SqlStore
  imports LateStats
begin

text \<open>
  What the stores of PostgreSQL, MySQL and SQLite have in common. Their Go methods differ in the
  \<open>INSERT\<close> they send, in how they tell a duplicate from a failure, in the width of their counters
  and in when a goroutine's statements run; for the rest they send the same statements and read the
  answers the same way. The \<open>std_\<close> functions are that common behaviour, written once as a
  reference. The locale \<open>sql_dao\<close> says what a store has to show: that its methods are the reference
  methods, and what its \<open>INSERT\<close> does. From it follow the contract of \<open>Dao\<close> under every pattern of
  failures (\<open>faulty\<close>), the reliable one on a connection that works (\<open>working\<close>), and the accounting
  of hits of \<open>LateStats\<close> (\<open>stats\<close>).
\<close>

section \<open>The reference methods\<close>

text \<open>\<open>Scan\<close> into the field \<open>Hits\<close>: a value that does not fit is an error (package database/sql).\<close>

definition scan_int32 :: "int \<Rightarrow> 32 word res" where
  "scan_int32 n = (if - (2 ^ 31) \<le> n \<and> n < 2 ^ 31 then Inr (of_int n) else Inl ''value out of range'')"

definition std_IsLikelyOk :: "sqldb \<Rightarrow> bool \<times> sqldb" where
  "std_IsLikelyOk d =
     (let (res, d1) = statement ping d
      in case res of Inl _ \<Rightarrow> (False, d1) | Inr _ \<Rightarrow> (True, d1))"

definition std_Save :: "(string \<Rightarrow> bool) \<Rightarrow> nat stmt \<Rightarrow> sqldb \<Rightarrow> string \<Rightarrow> string \<Rightarrow> err \<times> sqldb" where
  "std_Save is_dup insert_stmt d abv url =
     (let (result, d1) = statement insert_stmt d
      in case result of
           Inl e \<Rightarrow> (if is_dup e then (None, d1) else (Some (''couldn't store ('' @ abv @ '', '' @ url @ ''): '' @ e), d1))
         | Inr n \<Rightarrow>
             if n = 0 then
               (let (existing, d2) = statement (select_abv abv) d1
                in case existing of
                     Inl _ \<Rightarrow> (None, d2)
                   | Inr None \<Rightarrow> (None, d2)
                   | Inr (Some r) \<Rightarrow>
                       if r_url r \<noteq> url
                       then (Some (''abbreviation '' @ abv @ '' already exists with different URL''), d2)
                       else (None, d2))
             else (None, d1))"

definition std_DeleteAbv :: "sqldb \<Rightarrow> string \<Rightarrow> err \<times> sqldb" where
  "std_DeleteAbv d abv =
     (let (res, d1) = statement (delete_where (\<lambda>r. r_abv r = abv)) d
      in case res of
           Inl e \<Rightarrow> (Some (''couldn't delete abbreviation '' @ abv @ '': '' @ e), d1)
         | Inr _ \<Rightarrow> (None, d1))"

definition std_DeleteUrl :: "sqldb \<Rightarrow> string \<Rightarrow> err \<times> sqldb" where
  "std_DeleteUrl d url =
     (let (res, d1) = statement (delete_where (\<lambda>r. r_url r = url)) d
      in case res of
           Inl e \<Rightarrow> (Some (''couldn't delete URL '' @ url @ '': '' @ e), d1)
         | Inr _ \<Rightarrow> (None, d1))"

definition std_GetUrl :: "sqldb \<Rightarrow> string \<Rightarrow> (string \<times> err) \<times> sqldb" where
  "std_GetUrl d abv =
     (let (res, d1) = statement (select_abv abv) d
      in case res of
           Inl e \<Rightarrow> (('''', Some (''error getting URL for '' @ abv @ '': '' @ e)), d1)
         | Inr None \<Rightarrow> (('''', None), d1)
         | Inr (Some r) \<Rightarrow> ((r_url r, None), d1\<lparr>jobs := jobs d1 @ [J_row (r_id r)]\<rparr>))"

definition std_GetAbv :: "sqldb \<Rightarrow> string \<Rightarrow> (string \<times> err) \<times> sqldb" where
  "std_GetAbv d url =
     (let (res, d1) = statement (select_url url) d
      in case res of
           Inl e \<Rightarrow> (('''', Some (''error getting abbreviation for '' @ url @ '': '' @ e)), d1)
         | Inr None \<Rightarrow> (('''', None), d1)
         | Inr (Some r) \<Rightarrow> ((r_abv r, None), d1))"

definition std_GetStats :: "sqldb \<Rightarrow> string \<Rightarrow> (days ShortUrl \<times> err) \<times> sqldb" where
  "std_GetStats d abv =
     (let (res, d1) = statement (select_abv abv) d
      in case res of
           Inl e \<Rightarrow> ((zero_ShortUrl None, Some (''error getting stats for '' @ abv @ '': '' @ e)), d1)
         | Inr None \<Rightarrow> ((zero_ShortUrl None, None), d1)
         | Inr (Some r) \<Rightarrow>
             (case scan_int32 (r_hits r) of
                Inl e \<Rightarrow> ((zero_ShortUrl None, Some (''error getting stats for '' @ abv @ '': '' @ e)), d1)
              | Inr hits \<Rightarrow>
                  (let su = \<lparr>Abbreviation = r_abv r, Url = r_url r, Hits = hits,
                             LastAccess = (case r_last r of None \<Rightarrow> zero_time | Some t \<Rightarrow> t),
                             DailyHits = Some Map.empty\<rparr>;
                       (found, d2) = statement (select_days (r_id r)) d1
                   in case found of
                        Inl _ \<Rightarrow> ((su, None), d2)
                      | Inr ds \<Rightarrow> ((su\<lparr>DailyHits := Some (day_map ds)\<rparr>, None), d2))))"

section \<open>What they do to tables, connection and goroutines\<close>

lemma std_connection:
  "same_conn d (snd (std_IsLikelyOk d))" "same_conn d (snd (std_Save is_dup ins d a u))"
  "same_conn d (snd (std_DeleteAbv d a))" "same_conn d (snd (std_DeleteUrl d u))"
  "same_conn d (snd (std_GetUrl d a))" "same_conn d (snd (std_GetAbv d u))" "same_conn d (snd (std_GetStats d a))"
  by (auto simp: std_IsLikelyOk_def std_Save_def std_DeleteAbv_def std_DeleteUrl_def std_GetUrl_def std_GetAbv_def
      std_GetStats_def same_conn_def Let_def dest!: statement_conn split: prod.splits sum.splits option.splits if_splits)

text \<open>The reading methods leave the tables alone.\<close>

lemma std_reads:
  "tabs (snd (std_IsLikelyOk d)) = tabs d" "tabs (snd (std_GetUrl d a)) = tabs d"
  "tabs (snd (std_GetAbv d u)) = tabs d" "tabs (snd (std_GetStats d a)) = tabs d"
  using statement_frozen [of ping e for e :: sqldb] statement_frozen [of "select_abv a" e for e :: sqldb]
    statement_frozen [of "select_url u" e for e :: sqldb] statement_frozen [of "select_days i" e for i and e :: sqldb]
  by (auto simp: std_IsLikelyOk_def std_GetUrl_def std_GetAbv_def std_GetStats_def Let_def prod_eq_iff
      split: prod.splits sum.splits option.splits dest!: arg_cong [of _ _ snd] sym [of "snd _"])


section \<open>The laws of the reference methods\<close>

definition db_links :: "sqldb \<Rightarrow> string \<rightharpoonup> string" where
  "db_links d = sql_links (tabs d)"

lemma db_links_cong: "tabs d' = tabs d \<Longrightarrow> db_links d' = db_links d"
  by (simp add: db_links_def)

lemma db_links_finite: "finite (dom (db_links d))"
proof -
  have "db_links d = map_of (map (\<lambda>r. (r_abv r, r_url r)) (rows (tabs d)))"
    by (rule ext) (simp add: db_links_def sql_links_map_of)
  then show ?thesis by (simp add: finite_dom_map_of)
qed

text \<open>A statement that only reads answers what the tables hold, or an error.\<close>

lemma read_cases:
  assumes "statement f d = (res, d1)" "\<And>t. snd (f t) = t"
  obtains (answer) "res = fst (f (tabs d))" | (error) m where "res = Inl m"
  using assms(1) by (cases rule: statement_cases)

lemma std_GetUrl_law:
  assumes "std_GetUrl d a = ((v, e), d')"
  shows "v = (if e = None then url_or_empty (db_links d) a else '''')" and "quiet d \<Longrightarrow> e = None"
proof -
  obtain res d1 where s: "statement (select_abv a) d = (res, d1)" by (metis prod.exhaust)
  then show "v = (if e = None then url_or_empty (db_links d) a else '''')"
    by (cases rule: read_cases)
      (use s assms in \<open>auto simp: std_GetUrl_def select_abv_def db_links_def sql_links_def url_or_empty_def
        split: sum.splits option.splits\<close>)
  show "e = None" if "quiet d"
    using assms statement_quiet [OF that, of "select_abv a"]
    by (auto simp: std_GetUrl_def select_abv_def split: option.splits)
qed

lemma std_GetAbv_law:
  assumes "wf_tables (tabs d)" "std_GetAbv d u = ((v, e), d')"
  shows "if e = None then (if v = '''' then u \<notin> ran (db_links d) else db_links d v = Some u) else v = ''''"
    and "quiet d \<Longrightarrow> e = None"
proof -
  obtain res d1 where s: "statement (select_url u) d = (res, d1)" by (metis prod.exhaust)
  have ne: "find_url (tabs d) u = Some r \<Longrightarrow> r_abv r \<noteq> ''''" for r
    using find_urlD [of "tabs d" u r] assms(1) by (auto simp: wf_tables_def)
  from s show "if e = None then (if v = '''' then u \<notin> ran (db_links d) else db_links d v = Some u) else v = ''''"
    by (cases rule: read_cases)
      (use s assms(2) ne in \<open>auto simp: std_GetAbv_def select_url_def db_links_def sql_links_ran [OF assms(1)]
        sql_links_url [OF assms(1)] split: sum.splits option.splits\<close>)
  show "e = None" if "quiet d"
    using assms(2) statement_quiet [OF that, of "select_url u"]
    by (auto simp: std_GetAbv_def select_url_def split: option.splits)
qed

text \<open>The counts that \<open>Scan\<close> can read into the field \<open>Hits\<close>.\<close>

definition hits_fit :: "tables \<Rightarrow> bool" where
  "hits_fit t \<longleftrightarrow> (\<forall>r \<in> set (rows t). 0 \<le> r_hits r \<and> r_hits r < 2 ^ 31)"

lemma scan_fits: "0 \<le> n \<Longrightarrow> n < 2 ^ 31 \<Longrightarrow> scan_int32 n = Inr (of_int n)"
  by (simp add: scan_int32_def)

lemma std_GetStats_law:
  assumes "std_GetStats d a = ((st, e), d')"
  shows "e = None \<longrightarrow> (case db_links d a of None \<Rightarrow> Abbreviation st = '''' | Some u \<Rightarrow> Abbreviation st = a \<and> Url st = u)"
    and "quiet d \<Longrightarrow> hits_fit (tabs d) \<Longrightarrow> e = None"
proof -
  obtain res d1 where s: "statement (select_abv a) d = (res, d1)" by (metis prod.exhaust)
  then show "e = None \<longrightarrow> (case db_links d a of None \<Rightarrow> Abbreviation st = '''' | Some u \<Rightarrow> Abbreviation st = a \<and> Url st = u)"
    by (cases rule: read_cases)
      (use s assms find_abvD [of "tabs d" a] in \<open>auto simp: std_GetStats_def select_abv_def db_links_def sql_links_def
        zero_ShortUrl_def Let_def split: sum.splits option.splits prod.splits\<close>)
  show "e = None" if "quiet d" "hits_fit (tabs d)"
  proof (cases "find_abv (tabs d) a")
    case None
    with assms statement_quiet [OF that(1), of "select_abv a"] show ?thesis
      by (simp add: std_GetStats_def select_abv_def)
  next
    case (Some r)
    with that(2) have "scan_int32 (r_hits r) = Inr (of_int (r_hits r))"
      using find_abvD [OF Some] by (intro scan_fits) (auto simp: hits_fit_def)
    with assms Some statement_quiet [OF that(1), of "select_abv a"] show ?thesis
      by (auto simp: std_GetStats_def select_abv_def Let_def split: prod.splits sum.splits)
  qed
qed

text \<open>A deletion runs, or is lost with an error.\<close>

lemma delete_cases:
  assumes "wf_tables (tabs d)" "statement (delete_where P) d = (res, d1)"
    "\<And>r. r \<in> set (rows (tabs d)) \<Longrightarrow> P r \<longleftrightarrow> Q (r_abv r) (r_url r)"
  shows "db_links d1 = (\<lambda>a. case db_links d a of None \<Rightarrow> None | Some u \<Rightarrow> if Q a u then None else Some u) \<or>
      (\<exists>m. res = Inl m) \<and> db_links d1 = db_links d"
  using assms(2) delete_where_links [where Q = Q, OF assms(1,3)]
  by (cases rule: statement_cases) (auto simp: db_links_def)

lemma std_DeleteAbv_law:
  assumes "wf_tables (tabs d)" "std_DeleteAbv d a = (e, d')"
  shows "db_links d' = (db_links d)(a := None) \<or> e \<noteq> None \<and> db_links d' = db_links d"
    and "tabs d' \<in> {tabs d, snd (delete_where (\<lambda>r. r_abv r = a) (tabs d))}"
    and "quiet d \<Longrightarrow> e = None"
proof -
  obtain res where s: "statement (delete_where (\<lambda>r. r_abv r = a)) d = (res, d')"
    using assms(2) by (cases "statement (delete_where (\<lambda>r. r_abv r = a)) d") (auto simp: std_DeleteAbv_def split: sum.splits)
  have "(\<lambda>b. case db_links d b of None \<Rightarrow> None | Some u \<Rightarrow> if b = a then None else Some u) = (db_links d)(a := None)"
    by (auto simp: fun_eq_iff split: option.split)
  with delete_cases [OF assms(1) s, of "\<lambda>b u. b = a"] assms(2) s
  show "db_links d' = (db_links d)(a := None) \<or> e \<noteq> None \<and> db_links d' = db_links d"
    by (auto simp: std_DeleteAbv_def)
  show "tabs d' \<in> {tabs d, snd (delete_where (\<lambda>r. r_abv r = a) (tabs d))}"
    using statement_tabs [of "delete_where (\<lambda>r. r_abv r = a)" d] s by auto
  show "e = None" if "quiet d"
    using assms(2) statement_quiet [OF that, of "delete_where (\<lambda>r. r_abv r = a)"]
    by (simp add: std_DeleteAbv_def delete_where_def)
qed

lemma std_DeleteUrl_law:
  assumes "wf_tables (tabs d)" "std_DeleteUrl d u = (e, d')"
  shows "db_links d' = drop_url (db_links d) u \<or> e \<noteq> None \<and> db_links d' = db_links d"
    and "tabs d' \<in> {tabs d, snd (delete_where (\<lambda>r. r_url r = u) (tabs d))}"
    and "quiet d \<Longrightarrow> e = None"
proof -
  obtain res where s: "statement (delete_where (\<lambda>r. r_url r = u)) d = (res, d')"
    using assms(2) by (cases "statement (delete_where (\<lambda>r. r_url r = u)) d") (auto simp: std_DeleteUrl_def split: sum.splits)
  have "(\<lambda>b. case db_links d b of None \<Rightarrow> None | Some v \<Rightarrow> if v = u then None else Some v) = drop_url (db_links d) u"
    by (auto simp: fun_eq_iff drop_url_def split: option.split)
  with delete_cases [OF assms(1) s, of "\<lambda>b v. v = u"] assms(2) s
  show "db_links d' = drop_url (db_links d) u \<or> e \<noteq> None \<and> db_links d' = db_links d"
    by (auto simp: std_DeleteUrl_def)
  show "tabs d' \<in> {tabs d, snd (delete_where (\<lambda>r. r_url r = u) (tabs d))}"
    using statement_tabs [of "delete_where (\<lambda>r. r_url r = u)" d] s by auto
  show "e = None" if "quiet d"
    using assms(2) statement_quiet [OF that, of "delete_where (\<lambda>r. r_url r = u)"]
    by (simp add: std_DeleteUrl_def delete_where_def)
qed

text \<open>The tables after a \<open>Save\<close>, and what it means that it reports no error.\<close>

lemma std_Save_tabs:
  assumes "plain is_dup d" "std_Save is_dup ins d a u = (e, d')"
  shows "tabs d' \<in> {tabs d, snd (ins (tabs d))}"
    and "e = None \<Longrightarrow> tabs d' = snd (ins (tabs d)) \<and> (\<forall>m. fst (ins (tabs d)) = Inl m \<longrightarrow> is_dup m)"
proof -
  obtain res d1 where s: "statement ins d = (res, d1)" by (metis prod.exhaust)
  have "tabs (snd (statement (select_abv a) d1)) = tabs d1" by (rule statement_frozen) simp
  with assms(2) s have d': "tabs d' = tabs d1"
    by (auto simp: std_Save_def split: sum.splits option.splits if_splits prod.splits)
  from s show "tabs d' \<in> {tabs d, snd (ins (tabs d))}"
    using d' by (cases rule: statement_cases) auto
  show "tabs d' = snd (ins (tabs d)) \<and> (\<forall>m. fst (ins (tabs d)) = Inl m \<longrightarrow> is_dup m)" if "e = None"
    using s
  proof (cases rule: statement_cases)
    case run
    with assms(2) that s have "is_dup m" if "fst (ins (tabs d)) = Inl m" for m
      using that by (auto simp: std_Save_def split: if_splits)
    with run d' show ?thesis by simp
  next
    case (fail m)
    with fail(3) [OF assms(1)] assms(2) that s show ?thesis by (simp add: std_Save_def)
  qed
qed


section \<open>What a store has to show\<close>

definition burn :: "tables \<Rightarrow> tables" where
  "burn t = t\<lparr>next_id := Suc (next_id t)\<rparr>"

lemma burn_ok: "wf_tables t \<Longrightarrow> wf_tables (burn t)" "sql_links (burn t) = sql_links t" "hits_fit (burn t) = hits_fit t"
  by (auto simp: burn_def wf_tables_def fun_eq_iff sql_links_map_of less_SucI hits_fit_def)

text \<open>
  The invariant under failures: the tables are good and no failure of the connection reads like a
  duplicate (else \<open>Save\<close> would take it for success). The one of a connection that works: besides,
  every statement runs, and every hit count can be read.
\<close>

definition store_ok :: "(string \<Rightarrow> bool) \<Rightarrow> (tables \<Rightarrow> bool) \<Rightarrow> sqldb \<Rightarrow> bool" where
  "store_ok is_dup good d \<longleftrightarrow> good (tabs d) \<and> plain is_dup d"

definition store_works :: "(string \<Rightarrow> bool) \<Rightarrow> (tables \<Rightarrow> bool) \<Rightarrow> sqldb \<Rightarrow> bool" where
  "store_works is_dup good d \<longleftrightarrow> store_ok is_dup good d \<and> quiet d \<and> hits_fit (tabs d)"

text \<open>
  \<open>insert\<close> is the store's \<open>INSERT\<close> (its first argument the text of the server's error for a
  duplicate), \<open>is_dup\<close> its test of an error's text, \<open>good\<close> what holds of its tables. A pair that
  is \<open>safe\<close> is inserted when it is free, or refused with an error; one that \<open>fits\<close> is inserted.
\<close>

locale sql_dao =
  fixes D :: "(sqldb, days) ShortUrlDao" and mx :: int and next_job :: "nat \<Rightarrow> sqldb \<Rightarrow> sqldb"
    and is_dup :: "string \<Rightarrow> bool" and insert :: "string \<Rightarrow> string \<Rightarrow> string \<Rightarrow> nat stmt"
    and good :: "tables \<Rightarrow> bool" and safe :: "string \<Rightarrow> string \<Rightarrow> bool" and fits :: "string \<Rightarrow> string \<Rightarrow> bool"
  assumes isLikelyOk_std: "IsLikelyOk D d = std_IsLikelyOk d"
    and save_std: "Save D d a u = std_Save is_dup (insert (dup_msg d) a u) d a u"
    and deleteAbv_std: "DeleteAbv D d a = std_DeleteAbv d a"
    and deleteUrl_std: "DeleteUrl D d u = std_DeleteUrl d u"
    and getUrl_std: "GetUrl D d a = std_GetUrl d a"
    and getAbv_std: "GetAbv D d u = std_GetAbv d u"
    and getStats_std: "GetStats D d a = std_GetStats d a"
    and job_std: "\<exists>ks. next_job k d = fold (run_job mx) ks d"
    and good_wf: "good t \<Longrightarrow> wf_tables t"
    and good_links: "good t \<Longrightarrow> wf_tables t' \<Longrightarrow> sql_links t' = sql_links t \<Longrightarrow> good t'"
    and good_delete: "good t \<Longrightarrow> good (snd (delete_where P t))"
    and good_insert: "good t \<Longrightarrow> safe a u \<Longrightarrow> snd (insert dup a u t) = insert_row a u t \<Longrightarrow>
      wf_tables (insert_row a u t) \<Longrightarrow> good (insert_row a u t)"
    and insert_taken: "good t \<Longrightarrow> find_abv t a \<noteq> None \<or> find_url t u \<noteq> None \<Longrightarrow> snd (insert dup a u t) \<in> {t, burn t}"
    and insert_free: "good t \<Longrightarrow> safe a u \<Longrightarrow> find_abv t a = None \<Longrightarrow> find_url t u = None \<Longrightarrow>
      insert dup a u t = (Inr 1, insert_row a u t) \<or>
      \<not> fits a u \<and> snd (insert dup a u t) \<in> {t, burn t} \<and> (\<exists>m. fst (insert dup a u t) = Inl m \<and> \<not> is_dup m)"
    and insert_same: "good t \<Longrightarrow> fits a u \<Longrightarrow> find_abv t a = Some r \<Longrightarrow> fst (insert dup a u t) = Inr 0"
    and insert_effect: "safe a u \<Longrightarrow> snd (insert dup a u t) \<in> {t, burn t} \<or>
      find_abv t a = None \<and> find_url t u = None \<and> snd (insert dup a u t) = insert_row a u t"
    and fits_safe: "fits a u \<Longrightarrow> safe a u"
begin

lemma good_burn: "good t \<Longrightarrow> good (burn t)"
  using good_links [of t "burn t"] good_wf burn_ok(1,2) by blast

abbreviation sql_ok :: "sqldb \<Rightarrow> bool" where
  "sql_ok \<equiv> store_ok is_dup good"

abbreviation sql_works :: "sqldb \<Rightarrow> bool" where
  "sql_works \<equiv> store_works is_dup good"

lemmas sql_ok_def = store_ok_def [of is_dup good]
lemmas sql_works_def = store_works_def [of is_dup good]

lemma sql_ok_cong: "sql_ok d \<Longrightarrow> same_conn d d' \<Longrightarrow> good (tabs d') \<Longrightarrow> sql_ok d'"
  by (simp add: sql_ok_def plain_conn)

lemma sql_okD: "sql_ok d \<Longrightarrow> wf_tables (tabs d)" "sql_ok d \<Longrightarrow> good (tabs d)" "sql_ok d \<Longrightarrow> plain is_dup d"
  by (simp_all add: sql_ok_def good_wf)

lemma works_ok: "sql_works d \<Longrightarrow> sql_ok d"
  by (simp add: sql_works_def)

lemma read_ok: "sql_ok d \<Longrightarrow> same_conn d d' \<Longrightarrow> tabs d' = tabs d \<Longrightarrow> sql_ok d' \<and> db_links d' = db_links d"
  using sql_ok_cong [of d d'] sql_okD(2) [of d] db_links_cong [of d' d] by simp

lemma read_works: "sql_works d \<Longrightarrow> same_conn d d' \<Longrightarrow> tabs d' = tabs d \<Longrightarrow> sql_works d'"
  using read_ok [of d d'] quiet_conn [of d d'] by (simp add: sql_works_def)

text \<open>The statements of goroutines touch the statistics only.\<close>

lemma job_ok: "sql_ok d \<Longrightarrow> sql_ok (next_job k d) \<and> db_links (next_job k d) = db_links d"
proof -
  have "sql_ok d \<Longrightarrow> sql_ok (fold (run_job mx) ks d) \<and> db_links (fold (run_job mx) ks d) = db_links d" for ks
  proof (induction ks arbitrary: d)
    case (Cons k ks)
    note j = run_job_ok [OF sql_okD(1) [OF Cons.prems], of mx k]
    have "sql_ok (run_job mx k d)"
      using Cons.prems good_links [OF sql_okD(2) [OF Cons.prems] j(1,2)] j(3,5) by (simp add: sql_ok_def plain_def)
    with Cons.IH [of "run_job mx k d"] j(2) show ?case by (simp add: db_links_def)
  qed simp
  then show "sql_ok d \<Longrightarrow> ?thesis" using job_std [of k d] by auto
qed

text \<open>A store that has just been opened, on what the server held before.\<close>

lemma opened:
  assumes "kept (connect txt s) d" "\<not> is_dup txt" "good (contents s)"
  shows "(\<And>n m. behaviour s n = Lost m \<or> behaviour s n = AckLost m \<Longrightarrow> \<not> is_dup m) \<Longrightarrow> sql_ok d"
    and "(\<And>n. behaviour s n = Runs) \<Longrightarrow> hits_fit (contents s) \<Longrightarrow> sql_works d"
    and "db_links d = sql_links (contents s)"
  using assms by (auto simp: kept_def same_conn_def connect_def sql_ok_def sql_works_def quiet_def plain_def db_links_def)

text \<open>Tables that a deletion or an insertion leaves.\<close>

lemma kept_works:
  assumes "sql_works d" "same_conn d d'" "sql_ok d'"
    and "set (rows (tabs d')) \<subseteq> {r. r \<in> set (rows (tabs d)) \<or> r_hits r = 0}"
  shows "sql_works d'"
  using assms quiet_conn [of d d'] by (auto simp: sql_works_def hits_fit_def)

lemma delete_ok:
  assumes "sql_ok d" "same_conn d d'" "tabs d' \<in> {tabs d, snd (delete_where P (tabs d))}"
  shows "sql_ok d'" "sql_works d \<Longrightarrow> sql_works d'"
proof -
  show ok: "sql_ok d'" using sql_ok_cong [OF assms(1,2)] assms(3) good_delete sql_okD(2) [OF assms(1)] by auto
  show "sql_works d'" if "sql_works d"
    by (rule kept_works [OF that assms(2) ok]) (use assms(3) in \<open>auto simp: delete_where_def\<close>)
qed

lemma save_taken:
  assumes "sql_ok d" "Save D d a u = (e, d')" "find_abv (tabs d) a \<noteq> None \<or> find_url (tabs d) u \<noteq> None"
  shows "sql_ok d'" "db_links d' = db_links d" "sql_works d \<Longrightarrow> sql_works d'"
proof -
  have t: "tabs d' \<in> {tabs d, burn (tabs d)}"
    using std_Save_tabs(1) [OF sql_okD(3) [OF assms(1)] assms(2) [unfolded save_std]]
      insert_taken [OF sql_okD(2) [OF assms(1)] assms(3), of "dup_msg d"] by auto
  have c: "same_conn d d'" using std_connection(2) [of d is_dup _ a u] assms(2) save_std by (metis snd_conv)
  show ok: "sql_ok d'" using sql_ok_cong [OF assms(1) c] t good_burn sql_okD(2) [OF assms(1)] by auto
  show "db_links d' = db_links d" using t burn_ok(2) by (auto simp: db_links_def)
  show "sql_works d'" if "sql_works d"
    by (rule kept_works [OF that c ok]) (use t in \<open>auto simp: burn_def\<close>)
qed

lemma save_free:
  assumes "sql_ok d" "Save D d a u = (e, d')" "find_abv (tabs d) a = None" "find_url (tabs d) u = None"
    and "safe a u" "a \<noteq> ''''" "u \<noteq> ''''"
  shows "sql_ok d'" "db_links d' = (db_links d)(a \<mapsto> u) \<or> e \<noteq> None \<and> db_links d' = db_links d"
    and "sql_works d \<Longrightarrow> sql_works d'"
    and "quiet d \<Longrightarrow> fits a u \<Longrightarrow> e = None"
proof -
  have wf: "wf_tables (tabs d)" and good: "good (tabs d)" and pl: "plain is_dup d"
    using sql_okD assms(1) by simp_all
  note ins = insert_row_ok [OF wf assms(3,4,6,7)]
  note tab = std_Save_tabs [OF pl assms(2) [unfolded save_std]]
  have c: "same_conn d d'" using std_connection(2) [of d is_dup _ a u] assms(2) save_std by (metis snd_conv)
  note free = insert_free [OF good assms(5,3,4), of "dup_msg d"]
  have t: "tabs d' \<in> {tabs d, burn (tabs d)} \<or> tabs d' = insert_row a u (tabs d) \<and> good (insert_row a u (tabs d))"
    using tab(1) free good_insert [OF good assms(5), of "dup_msg d"] assms(5) ins by auto
  show ok: "sql_ok d'" using sql_ok_cong [OF assms(1) c] t good good_burn by auto
  show "sql_works d'" if "sql_works d"
    by (rule kept_works [OF that c ok]) (use t in \<open>auto simp: burn_def insert_row_def\<close>)
  show "db_links d' = (db_links d)(a \<mapsto> u) \<or> e \<noteq> None \<and> db_links d' = db_links d"
    using tab free ins t burn_ok(2) by (cases e) (auto simp: db_links_def)
  show "e = None" if "quiet d" "fits a u"
    using assms(2) free statement_quiet [OF that(1), of "insert (dup_msg d) a u"] that(2)
    by (auto simp: save_std std_Save_def)
qed

lemma save_same:
  assumes "sql_ok d" "Save D d a u = (e, d')" "db_links d a = Some u" "quiet d" "fits a u"
  shows "e = None"
proof -
  obtain r where r: "find_abv (tabs d) a = Some r" "r_url r = u" using assms(3) by (auto simp: db_links_def sql_links_def)
  have i: "fst (insert (dup_msg d) a u (tabs d)) = Inr 0"
    using insert_same [OF sql_okD(2) [OF assms(1)] assms(5) r(1)] .
  have "snd (insert (dup_msg d) a u (tabs d)) \<in> {tabs d, burn (tabs d)}"
    using insert_taken [OF sql_okD(2) [OF assms(1)], of a u] r by simp
  then have s: "find_abv (snd (insert (dup_msg d) a u (tabs d))) a = Some r"
    using r by (auto simp: find_abv_def burn_def)
  have q: "quiet (d\<lparr>sent := Suc (sent d), tabs := t\<rparr>)" for t using assms(4) by (simp add: quiet_def)
  show ?thesis
    using assms(2) i s r(2) statement_quiet [OF assms(4), of "insert (dup_msg d) a u"]
      statement_quiet [OF q, of "select_abv a"]
    by (auto simp: save_std std_Save_def select_abv_def)
qed

end


section \<open>The contracts that follow\<close>

context sql_dao
begin

text \<open>Each law once, for the invariant under failures and for the one on a working connection.\<close>

lemma conns:
  "same_conn d (snd (IsLikelyOk D d))" "same_conn d (snd (DeleteAbv D d a))" "same_conn d (snd (DeleteUrl D d u))"
  "same_conn d (snd (GetUrl D d a))" "same_conn d (snd (GetAbv D d u))" "same_conn d (snd (GetStats D d a))"
  by (simp_all add: isLikelyOk_std deleteAbv_std deleteUrl_std getUrl_std getAbv_std getStats_std std_connection)

lemma reads:
  "tabs (snd (IsLikelyOk D d)) = tabs d" "tabs (snd (GetUrl D d a)) = tabs d"
  "tabs (snd (GetAbv D d u)) = tabs d" "tabs (snd (GetStats D d a)) = tabs d"
  by (simp_all add: isLikelyOk_std getUrl_std getAbv_std getStats_std std_reads)

lemma read_calls:
  assumes "sql_ok d" "d' \<in> {snd (IsLikelyOk D d), snd (GetUrl D d a), snd (GetAbv D d u), snd (GetStats D d a)}"
  shows "sql_ok d' \<and> db_links d' = db_links d" "sql_works d \<Longrightarrow> sql_works d'"
proof -
  have d': "same_conn d d'" "tabs d' = tabs d"
    using assms(2) conns(1,4-6) [of d] reads [of d] by fastforce+
  show "sql_ok d' \<and> db_links d' = db_links d" using read_ok [OF assms(1) d'] .
  show "sql_works d'" if "sql_works d" using read_works [OF that d'] .
qed

lemma ok_nonempty: "sql_ok d \<Longrightarrow> db_links d a = Some u \<Longrightarrow> a \<noteq> '''' \<and> u \<noteq> ''''"
  using sql_links_nonempty [OF sql_okD(1)] by (simp add: db_links_def)

lemma ok_inj: "sql_ok d \<Longrightarrow> db_links d a = Some u \<Longrightarrow> db_links d b = Some u \<Longrightarrow> a = b"
  using sql_links_inj [OF sql_okD(1)] by (simp add: db_links_def)

lemma ok_getAbv:
  "sql_ok d \<Longrightarrow> GetAbv D d u = ((v, e), d') \<Longrightarrow>
     if e = None then (if v = '''' then u \<notin> ran (db_links d) else db_links d v = Some u) else v = ''''"
  using std_GetAbv_law(1) [OF sql_okD(1)] by (simp add: getAbv_std)

lemma ok_getStats:
  "GetStats D d a = ((st, e), d') \<Longrightarrow> e = None \<Longrightarrow>
     (case db_links d a of None \<Rightarrow> Abbreviation st = '''' | Some u \<Rightarrow> Abbreviation st = a \<and> Url st = u)"
  using std_GetStats_law(1) by (simp add: getStats_std)

lemma ok_deleteAbv:
  assumes "sql_ok d" "DeleteAbv D d a = (e, d')"
  shows "sql_ok d'" "db_links d' = (db_links d)(a := None) \<or> e \<noteq> None \<and> db_links d' = db_links d"
    "sql_works d \<Longrightarrow> sql_works d'"
  using std_DeleteAbv_law [OF sql_okD(1) [OF assms(1)] assms(2) [unfolded deleteAbv_std]]
    delete_ok [OF assms(1)] conns(2) [of d a] assms(2) by auto

lemma ok_deleteUrl:
  assumes "sql_ok d" "DeleteUrl D d u = (e, d')"
  shows "sql_ok d'" "db_links d' = drop_url (db_links d) u \<or> e \<noteq> None \<and> db_links d' = db_links d"
    "sql_works d \<Longrightarrow> sql_works d'"
  using std_DeleteUrl_law [OF sql_okD(1) [OF assms(1)] assms(2) [unfolded deleteUrl_std]]
    delete_ok [OF assms(1)] conns(3) [of d u] assms(2) by auto

lemma ok_save:
  assumes "sql_ok d" "safe a u" "savable (db_links d) a u" "Save D d a u = (e, d')"
  shows "sql_ok d'" "db_links d' = (db_links d)(a \<mapsto> u) \<or> e \<noteq> None \<and> db_links d' = db_links d"
    "sql_works d \<Longrightarrow> sql_works d'" "quiet d \<Longrightarrow> fits a u \<Longrightarrow> e = None"
proof -
  have ne: "a \<noteq> ''''" "u \<noteq> ''''" using assms(3) by (simp_all add: savable_def)
  consider "find_abv (tabs d) a = None" "find_url (tabs d) u = None" | "db_links d a = Some u"
    using assms(3) sql_links_ran [OF sql_okD(1) [OF assms(1)], of u]
    by (auto simp: savable_def db_links_def sql_links_None)
  then have "sql_ok d' \<and> (db_links d' = (db_links d)(a \<mapsto> u) \<or> e \<noteq> None \<and> db_links d' = db_links d) \<and>
    (sql_works d \<longrightarrow> sql_works d') \<and> (quiet d \<longrightarrow> fits a u \<longrightarrow> e = None)"
  proof cases
    case 1
    from save_free [OF assms(1,4) this assms(2) ne] show ?thesis by blast
  next
    case 2
    then have "find_abv (tabs d) a \<noteq> None" by (auto simp: db_links_def sql_links_def)
    with save_taken [OF assms(1,4)] save_same [OF assms(1,4) 2] 2 show ?thesis by (auto simp: map_upd_triv)
  qed
  then show "sql_ok d'" "db_links d' = (db_links d)(a \<mapsto> u) \<or> e \<noteq> None \<and> db_links d' = db_links d"
    "sql_works d \<Longrightarrow> sql_works d'" "quiet d \<Longrightarrow> fits a u \<Longrightarrow> e = None" by blast+
qed

lemma ok_taken:
  assumes "sql_ok d" "Save D d a u = (e, d')" "db_links d a = Some w \<or> db_links d b = Some u"
  shows "sql_ok d' \<and> db_links d' = db_links d"
proof -
  have "find_abv (tabs d) a \<noteq> None \<or> find_url (tabs d) u \<noteq> None"
    using assms(3) sql_links_url [OF sql_okD(1) [OF assms(1)], of b u] by (auto simp: db_links_def sql_links_def)
  from save_taken(1,2) [OF assms(1,2) this] show ?thesis by simp
qed

lemma works_quiet: "sql_works d \<Longrightarrow> quiet d" "sql_works d \<Longrightarrow> hits_fit (tabs d)"
  by (simp_all add: sql_works_def)

end

text \<open>Under every pattern of failures links are neither lost nor taken over.\<close>

sublocale sql_dao \<subseteq> faulty: refusing_dao D sql_ok db_links safe
proof (unfold_locales, goal_cases)
  case (3 s a v e s')
  then show ?case using std_GetUrl_law(1) [of s a v e s'] read_calls(1) [OF 3(1), of s' a] by (simp add: getUrl_std)
next
  case (4 s u v e s')
  then show ?case using ok_getAbv [OF 4] read_calls(1) [OF 4(1), of s' _ u] by simp
next
  case (8 s a st e s')
  then show ?case using ok_getStats [OF 8(2)] read_calls(1) [OF 8(1), of s' a] by simp
next
  case (9 s ok s')
  then show ?case using read_calls(1) [OF 9(1), of s'] by simp
next
  case (1 s a u)
  then show ?case by (rule ok_nonempty)
next
  case (2 s a u b)
  then show ?case by (rule ok_inj)
next
  case (5 s a u e s')
  from ok_save(1,2) [OF 5] show ?case by simp
next
  case (6 s a e s')
  from ok_deleteAbv(1,2) [OF 6] show ?case by simp
next
  case (7 s u e s')
  from ok_deleteUrl(1,2) [OF 7] show ?case by simp
next
  case (10 s a w u e s')
  from ok_taken [OF 10(1,4) disjI1 [OF 10(2)]] show ?case .
next
  case (11 s b u a e s')
  from ok_taken [OF 11(1,4) disjI2 [OF 11(2)]] show ?case .
qed

text \<open>On a connection that works no call fails.\<close>

sublocale sql_dao \<subseteq> working: reliable_dao D sql_works db_links fits
proof (unfold_locales, goal_cases)
  case (1 s a u)
  then show ?case using ok_nonempty works_ok by blast
next
  case (2 s a u b)
  then show ?case using ok_inj works_ok by blast
next
  case (3 s a v e s')
  then show ?case using faulty.getUrl [OF works_ok] read_calls(2) [OF works_ok, of s s' a] by simp
next
  case (4 s u v e s')
  then show ?case using faulty.getAbv [OF works_ok] read_calls(2) [OF works_ok, of s s' _ u] by simp
next
  case (5 s a u e s')
  then show ?case using ok_save(2,3) [OF works_ok fits_safe] by blast
next
  case (6 s a e s')
  then show ?case using ok_deleteAbv(2,3) [OF works_ok] by blast
next
  case (7 s u e s')
  then show ?case using ok_deleteUrl(2,3) [OF works_ok] by blast
next
  case (8 s a st e s')
  then show ?case using faulty.getStats [OF works_ok] read_calls(2) [OF works_ok, of s s' a] by simp
next
  case (9 s ok s')
  then show ?case using faulty.isLikelyOk [OF works_ok] read_calls(2) [OF works_ok, of s s'] by simp
next
  case (10 s a v e s')
  then show ?case using std_GetUrl_law(2) works_quiet(1) by (simp add: getUrl_std)
next
  case (11 s u v e s')
  then show ?case using std_GetAbv_law(2) [OF sql_okD(1) [OF works_ok]] works_quiet(1) by (simp add: getAbv_std)
next
  case (12 s a u e s')
  then show ?case using ok_save(4) [OF works_ok fits_safe] works_quiet(1) by blast
next
  case (13 s a e s')
  then show ?case
    using std_DeleteAbv_law(3) [OF sql_okD(1) [OF works_ok]] works_quiet(1) by (simp add: deleteAbv_std)
next
  case (14 s a st e s')
  then show ?case using std_GetStats_law(2) works_quiet by (simp add: getStats_std)
qed


text \<open>What a call does to tables and goroutines on a connection that works.\<close>

lemma std_quiet:
  assumes "quiet d"
  shows "jobs (snd (std_IsLikelyOk d)) = jobs d" "jobs (snd (std_GetAbv d u)) = jobs d"
    and "jobs (snd (std_GetStats d a)) = jobs d"
    and "jobs (snd (std_GetUrl d a)) = jobs d @ (case find_abv (tabs d) a of None \<Rightarrow> [] | Some r \<Rightarrow> [J_row (r_id r)])"
    and "jobs (snd (std_Save is_dup ins d a u)) = jobs d \<and> tabs (snd (std_Save is_dup ins d a u)) = snd (ins (tabs d))"
    and "jobs (snd (std_DeleteAbv d a)) = jobs d \<and> tabs (snd (std_DeleteAbv d a)) = snd (delete_where (\<lambda>r. r_abv r = a) (tabs d))"
    and "jobs (snd (std_DeleteUrl d u)) = jobs d \<and> tabs (snd (std_DeleteUrl d u)) = snd (delete_where (\<lambda>r. r_url r = u) (tabs d))"
proof -
  have q: "quiet (d\<lparr>sent := n\<rparr>)" "quiet (d\<lparr>sent := n, tabs := t\<rparr>)" for n t using assms by (simp_all add: quiet_def)
  note s = statement_quiet [OF assms] statement_quiet [OF q(1)] statement_quiet [OF q(2)]
  show "jobs (snd (std_IsLikelyOk d)) = jobs d" "jobs (snd (std_GetAbv d u)) = jobs d"
    "jobs (snd (std_GetUrl d a)) = jobs d @ (case find_abv (tabs d) a of None \<Rightarrow> [] | Some r \<Rightarrow> [J_row (r_id r)])"
    by (auto simp: std_IsLikelyOk_def std_GetAbv_def std_GetUrl_def s ping_def select_url_def select_abv_def split: option.split)
  show "jobs (snd (std_GetStats d a)) = jobs d"
    by (auto simp: std_GetStats_def Let_def s select_abv_def select_days_def split: option.split sum.split)
  show "jobs (snd (std_Save is_dup ins d a u)) = jobs d \<and> tabs (snd (std_Save is_dup ins d a u)) = snd (ins (tabs d))"
    by (auto simp: std_Save_def Let_def s select_abv_def split: option.split sum.split)
  show "jobs (snd (std_DeleteAbv d a)) = jobs d \<and> tabs (snd (std_DeleteAbv d a)) = snd (delete_where (\<lambda>r. r_abv r = a) (tabs d))"
    "jobs (snd (std_DeleteUrl d u)) = jobs d \<and> tabs (snd (std_DeleteUrl d u)) = snd (delete_where (\<lambda>r. r_url r = u) (tabs d))"
    by (auto simp: std_DeleteAbv_def std_DeleteUrl_def s delete_where_def)
qed

text \<open>Every look-up is counted in the end, and the days add up.\<close>

sublocale sql_dao \<subseteq> stats: sql_store D mx next_job safe
proof (unfold_locales, goal_cases)
  case (1 d c u a)
  then show ?case
    using quiet_conn [OF _ 1(1)] conns [of d] reads [of d] std_quiet [OF 1(1)]
    by (auto simp: isLikelyOk_std getAbv_std getStats_std)
next
  case (2 d a)
  then show ?case using quiet_conn [OF conns(4) 2, of a] reads(2) [of d a] std_quiet(4) [OF 2, of a] by (simp add: getUrl_std)
next
  case (3 d a u)
  then show ?case
    using quiet_conn [OF std_connection(2) 3(1), of is_dup "insert (dup_msg d) a u" a u]
      std_quiet(5) [OF 3(1), of is_dup "insert (dup_msg d) a u" a u] insert_effect [OF 3(2), of "dup_msg d" "tabs d"]
    by (auto simp: save_std burn_def)
next
  case (4 d a)
  then show ?case using quiet_conn [OF conns(2) 4, of a] std_quiet(6) [OF 4, of a] by (simp add: deleteAbv_std)
next
  case (5 d u)
  then show ?case using quiet_conn [OF conns(3) 5, of u] std_quiet(7) [OF 5, of u] by (simp add: deleteUrl_std)
next
  case (6 k d)
  show ?case by (rule job_std)
qed

end
