(* ===== verification/PostgresDB.thy ===== *)
theory PostgresDB
  imports SqlStore
begin

text \<open>
  The PostgreSQL store (src/dao/postgresdb.go), each method with the statements it sends, in
  order, and what it makes of their results. \<open>Save\<close> reads the driver's error text to tell a
  duplicate from a failure. Log lines are left out; the timeout of a context is an outcome of the
  connection.
\<close>

section \<open>Methods\<close>

definition pg_maxint :: int where
  "pg_maxint = 2 ^ 31 - 1"

text \<open>Each table with its indexes is one call of \<open>Exec\<close>.\<close>

definition pg_initSchema :: "sqldb \<Rightarrow> sqldb" where
  "pg_initSchema d =
     (let (_, d1) = statement create_if_missing d;
          (_, d2) = statement create_if_missing d1
      in d2)"

text \<open>
  The driver's \<open>ParseConfig\<close> and \<open>NewWithConfig\<close> are parameters; \<open>Inl\<close> is the end of the process
  (\<open>log.Fatalf\<close>). The number of connections is cut to 32 bits.
\<close>

definition CreatePostgresDB ::
  "getenv \<Rightarrow> (string \<Rightarrow> string + 'c) \<Rightarrow> ('c \<Rightarrow> 32 word \<Rightarrow> string + sql_server) \<Rightarrow> string \<Rightarrow> string + sqldb" where
  "CreatePostgresDB env ParseConfig NewWithConfig connString =
     (case ParseConfig connString of
        Inl e \<Rightarrow> Inl (''Unable to parse connection string: '' @ e)
      | Inr config \<Rightarrow>
          (let maxConns = of_int (IntOrDefault env ''postgres_max_conns'' 10)
           in case NewWithConfig config maxConns of
                Inl e \<Rightarrow> Inl (''Unable to create connection pool: '' @ e)
              | Inr server \<Rightarrow> Inr (pg_initSchema (connect ''closed pool'' server))))"

definition pg_Cleanup :: "sqldb \<Rightarrow> sqldb" where
  "pg_Cleanup d = d\<lparr>closed := True\<rparr>"

definition pg_IsLikelyOk :: "sqldb \<Rightarrow> bool \<times> sqldb" where
  "pg_IsLikelyOk d =
     (let (res, d1) = statement ping d
      in case res of Inl _ \<Rightarrow> (False, d1) | Inr _ \<Rightarrow> (True, d1))"

text \<open>
  \<open>INSERT ... ON CONFLICT (abbreviation) DO NOTHING\<close> into a table whose abbreviation is a
  \<open>VARCHAR(50)\<close> and whose \<open>url\<close> is unique as well; the answer is the number of rows inserted. The
  serial number is drawn before the conflict is found.
\<close>

definition pg_insert :: "string \<Rightarrow> string \<Rightarrow> string \<Rightarrow> nat stmt" where
  "pg_insert dup abv url t =
     (if 50 < length abv then (Inl ''value too long for type character varying(50)'', t)
      else case find_abv t abv of
             Some _ \<Rightarrow> (Inr 0, t\<lparr>next_id := Suc (next_id t)\<rparr>)
           | None \<Rightarrow>
               (case find_url t url of
                  Some _ \<Rightarrow> (Inl dup, t\<lparr>next_id := Suc (next_id t)\<rparr>)
                | None \<Rightarrow> (Inr 1, insert_row abv url t)))"

definition pg_Save :: "sqldb \<Rightarrow> string \<Rightarrow> string \<Rightarrow> err \<times> sqldb" where
  "pg_Save d abv url =
     (let (result, d1) = statement (pg_insert (dup_msg d) abv url) d
      in case result of
           Inl e \<Rightarrow>
             (if contains e ''duplicate key'' \<or> contains e ''unique constraint'' then (None, d1)
              else (Some (''couldn't store ('' @ abv @ '', '' @ url @ ''): '' @ e), d1))
         | Inr n \<Rightarrow>
             if n = 0 then
               (let (existing, d2) = statement (select_abv abv) d1
                in case existing of
                     Inl _ \<Rightarrow> (None, d2)
                   | Inr None \<Rightarrow> (None, d2)
                   | Inr (Some r) \<Rightarrow>
                       if r_url r \<noteq> url
                       then (Some (''abbreviation '' @ abv @ '' already exists with different URL''), d2)
                       else (None, d2))
             else (None, d1))"

definition pg_DeleteAbv :: "sqldb \<Rightarrow> string \<Rightarrow> err \<times> sqldb" where
  "pg_DeleteAbv d abv =
     (let (res, d1) = statement (delete_where (\<lambda>r. r_abv r = abv)) d
      in case res of
           Inl e \<Rightarrow> (Some (''couldn't delete abbreviation '' @ abv @ '': '' @ e), d1)
         | Inr _ \<Rightarrow> (None, d1))"

definition pg_DeleteUrl :: "sqldb \<Rightarrow> string \<Rightarrow> err \<times> sqldb" where
  "pg_DeleteUrl d url =
     (let (res, d1) = statement (delete_where (\<lambda>r. r_url r = url)) d
      in case res of
           Inl e \<Rightarrow> (Some (''couldn't delete URL '' @ url @ '': '' @ e), d1)
         | Inr _ \<Rightarrow> (None, d1))"

definition pg_GetUrl :: "sqldb \<Rightarrow> string \<Rightarrow> (string \<times> err) \<times> sqldb" where
  "pg_GetUrl d abv =
     (let (res, d1) = statement (select_abv abv) d
      in case res of
           Inl e \<Rightarrow> (('''', Some (''error getting URL for '' @ abv @ '': '' @ e)), d1)
         | Inr None \<Rightarrow> (('''', None), d1)
         | Inr (Some r) \<Rightarrow> ((r_url r, None), d1\<lparr>jobs := jobs d1 @ [J_row (r_id r)]\<rparr>))"

definition pg_GetAbv :: "sqldb \<Rightarrow> string \<Rightarrow> (string \<times> err) \<times> sqldb" where
  "pg_GetAbv d url =
     (let (res, d1) = statement (select_url url) d
      in case res of
           Inl e \<Rightarrow> (('''', Some (''error getting abbreviation for '' @ url @ '': '' @ e)), d1)
         | Inr None \<Rightarrow> (('''', None), d1)
         | Inr (Some r) \<Rightarrow> ((r_abv r, None), d1))"

definition pg_GetStats :: "sqldb \<Rightarrow> string \<Rightarrow> (days ShortUrl \<times> err) \<times> sqldb" where
  "pg_GetStats d abv =
     (let (res, d1) = statement (select_abv abv) d
      in case res of
           Inl e \<Rightarrow> ((zero_ShortUrl None, Some (''error getting stats for '' @ abv @ '': '' @ e)), d1)
         | Inr None \<Rightarrow> ((zero_ShortUrl None, None), d1)
         | Inr (Some r) \<Rightarrow>
             (case scan_int32 (r_hits r) of
                Inl e \<Rightarrow> ((zero_ShortUrl None, Some (''error getting stats for '' @ abv @ '': '' @ e)), d1)
              | Inr hits \<Rightarrow>
                  (let su = \<lparr>Abbreviation = r_abv r, Url = r_url r, Hits = hits,
                             LastAccess = (case r_last r of None \<Rightarrow> zero_time | Some t \<Rightarrow> t),
                             DailyHits = Some Map.empty\<rparr>;
                       (found, d2) = statement (select_days (r_id r)) d1
                   in case found of
                        Inl _ \<Rightarrow> ((su, None), d2)
                      | Inr ds \<Rightarrow> ((su\<lparr>DailyHits := Some (day_map ds)\<rparr>, None), d2))))"

text \<open>The next statement of a goroutine that \<open>GetUrl\<close> has left behind.\<close>

definition pg_job :: "nat \<Rightarrow> sqldb \<Rightarrow> sqldb" where
  "pg_job = run_job pg_maxint"

definition postgres_dao :: "(sqldb, days) ShortUrlDao" where
  "postgres_dao =
     \<lparr>IsLikelyOk = pg_IsLikelyOk, Save = pg_Save, DeleteAbv = pg_DeleteAbv, DeleteUrl = pg_DeleteUrl,
      GetUrl = pg_GetUrl, GetAbv = pg_GetAbv, GetStats = pg_GetStats, Cleanup = pg_Cleanup\<rparr>"

lemma postgres_dao_simps [simp]:
  "IsLikelyOk postgres_dao = pg_IsLikelyOk" "Save postgres_dao = pg_Save"
  "DeleteAbv postgres_dao = pg_DeleteAbv" "DeleteUrl postgres_dao = pg_DeleteUrl"
  "GetUrl postgres_dao = pg_GetUrl" "GetAbv postgres_dao = pg_GetAbv"
  "GetStats postgres_dao = pg_GetStats" "Cleanup postgres_dao = pg_Cleanup"
  by (simp_all add: postgres_dao_def)

section \<open>The contract\<close>

text \<open>The methods are the reference methods of \<open>SqlStore\<close>.\<close>

definition pg_dup :: "string \<Rightarrow> bool" where
  "pg_dup e \<longleftrightarrow> contains e ''duplicate key'' \<or> contains e ''unique constraint''"

lemma pg_std:
  "pg_IsLikelyOk d = std_IsLikelyOk d" "pg_Save d a u = std_Save pg_dup (pg_insert (dup_msg d) a u) d a u"
  "pg_DeleteAbv d a = std_DeleteAbv d a" "pg_DeleteUrl d u = std_DeleteUrl d u"
  "pg_GetUrl d a = std_GetUrl d a" "pg_GetAbv d u = std_GetAbv d u" "pg_GetStats d a = std_GetStats d a"
  by (simp_all only: pg_IsLikelyOk_def std_IsLikelyOk_def pg_Save_def std_Save_def pg_DeleteAbv_def std_DeleteAbv_def
      pg_DeleteUrl_def std_DeleteUrl_def pg_GetUrl_def std_GetUrl_def pg_GetAbv_def std_GetAbv_def
      pg_GetStats_def std_GetStats_def pg_dup_def)

lemma too_long_no_dup: "\<not> pg_dup ''value too long for type character varying(50)''"
  by (simp add: pg_dup_def)

text \<open>What fits the column of the abbreviation can be stored; what does not is refused with an error.\<close>

definition pg_fits :: "string \<Rightarrow> string \<Rightarrow> bool" where
  "pg_fits a u \<longleftrightarrow> length a \<le> 50"

interpretation pg: sql_dao postgres_dao pg_maxint pg_job pg_dup pg_insert wf_tables "\<lambda>_ _. True" pg_fits
proof (unfold_locales, goal_cases)
  case (8 k d)
  show ?case by (rule exI [of _ "[k]"]) (simp add: pg_job_def)
next
  case (14 t a u dup)
  then show ?case using too_long_no_dup
    by (cases "length a \<le> 50") (auto simp: pg_insert_def pg_fits_def)
qed (auto simp: pg_std wf_delete_where pg_insert_def pg_fits_def burn_def split: option.split)

text \<open>Opened on what the server held before, the store has those links.\<close>

lemma pg_opened:
  assumes "CreatePostgresDB env ParseConfig NewWithConfig connString = Inr d"
  obtains config server where "NewWithConfig config (of_int (IntOrDefault env ''postgres_max_conns'' 10)) = Inr server"
    "kept (connect ''closed pool'' server) d"
proof -
  from assms obtain config server where
    1: "NewWithConfig config (of_int (IntOrDefault env ''postgres_max_conns'' 10)) = Inr server"
    and d: "d = pg_initSchema (connect ''closed pool'' server)"
    by (auto simp: CreatePostgresDB_def Let_def split: sum.splits)
  have "kept (connect ''closed pool'' server) d"
    unfolding d pg_initSchema_def split_beta Let_def by (intro kept_statement kept_refl) simp_all
  with 1 show ?thesis by (rule that)
qed

end
