(* ===== verification/MySQLDB.thy ===== *)
theory MySQLDB
  imports SqlStore
begin

text \<open>
  The MySQL store (src/dao/mysqldb.go), each method with the statements it sends, in order. Two
  things set it apart from PostgreSQL and SQLite. Text is compared by the collation of the server,
  which the code leaves to the server's default: \<open>coll\<close>, the form under which two texts are equal,
  is a parameter of every method (a case-insensitive collation maps letters to one case; \<open>binary\<close>
  is the collation under which only equal texts are equal). And \<open>INSERT IGNORE\<close> turns every error of
  the statement into a warning: a duplicate, also of the first 255 characters of a URL, inserts no
  row, and a text too long for its column is cut. Log lines are left out.
\<close>

section \<open>Methods\<close>

definition my_maxint :: int where
  "my_maxint = 2 ^ 31 - 1"

text \<open>The data source name as \<open>CreateMySQLDB\<close> completes it.\<close>

definition my_dsn :: "string \<Rightarrow> string" where
  "my_dsn dsn =
     (if \<not> contains dsn ''parseTime'' then
        (if contains dsn ''?'' then dsn @ ''&parseTime=true'' else dsn @ ''?parseTime=true'')
      else dsn)"

text \<open>The first table, an index that the server may refuse, and the second table.\<close>

definition my_initSchema :: "sqldb \<Rightarrow> sqldb" where
  "my_initSchema d =
     (let (_, d1) = statement create_if_missing d;
          (_, d2) = statement create_if_missing d1;
          (_, d3) = statement create_if_missing d2
      in d3)"

text \<open>
  \<open>sql.Open\<close> with the limits of the pool is a parameter; \<open>Inl\<close> is the end of the process. The
  minutes become nanoseconds in 64 bits.
\<close>

definition my_limits :: "getenv \<Rightarrow> pool_limits" where
  "my_limits env =
     \<lparr>max_open = IntOrDefault env ''mysql_max_conns'' 10, max_idle = IntOrDefault env ''mysql_max_idle_conns'' 5,
      lifetime = of_int (IntOrDefault env ''mysql_conn_max_lifetime_minutes'' 5) * 60000000000\<rparr>"

definition CreateMySQLDB ::
  "getenv \<Rightarrow> (string \<Rightarrow> string + (pool_limits \<Rightarrow> sql_server)) \<Rightarrow> string \<Rightarrow> string + sqldb" where
  "CreateMySQLDB env Open dsn =
     (case Open (my_dsn dsn) of
        Inl e \<Rightarrow> Inl (''Unable to open MySQL database: '' @ e)
      | Inr server \<Rightarrow>
          (let (res, d) = statement ping (connect ''sql: database is closed'' (server (my_limits env)))
           in case res of
                Inl e \<Rightarrow> Inl (''Unable to connect to MySQL: '' @ e)
              | Inr _ \<Rightarrow> Inr (my_initSchema d)))"

definition my_Cleanup :: "sqldb \<Rightarrow> sqldb" where
  "my_Cleanup d = d\<lparr>closed := True\<rparr>"

definition my_IsLikelyOk :: "sqldb \<Rightarrow> bool \<times> sqldb" where
  "my_IsLikelyOk d =
     (let (res, d1) = statement ping d
      in case res of Inl _ \<Rightarrow> (False, d1) | Inr _ \<Rightarrow> (True, d1))"

text \<open>\<open>SELECT ... WHERE abbreviation = ?\<close>, or \<open>url = ?\<close>, under the collation\<close>

definition my_find_abv :: "(string \<Rightarrow> string) \<Rightarrow> tables \<Rightarrow> string \<Rightarrow> row option" where
  "my_find_abv coll t a = find (\<lambda>r. coll (r_abv r) = coll a) (rows t)"

definition my_find_url :: "(string \<Rightarrow> string) \<Rightarrow> tables \<Rightarrow> string \<Rightarrow> row option" where
  "my_find_url coll t u = find (\<lambda>r. coll (r_url r) = coll u) (rows t)"

definition my_select_abv :: "(string \<Rightarrow> string) \<Rightarrow> string \<Rightarrow> row option stmt" where
  "my_select_abv coll a t = (Inr (my_find_abv coll t a), t)"

definition my_select_url :: "(string \<Rightarrow> string) \<Rightarrow> string \<Rightarrow> row option stmt" where
  "my_select_url coll u t = (Inr (my_find_url coll t u), t)"

text \<open>
  \<open>INSERT IGNORE\<close> into a table with the unique keys \<open>abbreviation\<close>, a \<open>VARCHAR(50)\<close>, and
  \<open>url(255)\<close>; the answer is the number of rows inserted.
\<close>

definition my_insert :: "(string \<Rightarrow> string) \<Rightarrow> string \<Rightarrow> string \<Rightarrow> nat stmt" where
  "my_insert coll abv url t =
     (let a = take 50 abv
      in if \<exists>r \<in> set (rows t). coll (r_abv r) = coll a \<or> coll (take 255 (r_url r)) = coll (take 255 url)
         then (Inr 0, t\<lparr>next_id := Suc (next_id t)\<rparr>)
         else (Inr 1, insert_row a url t))"

definition my_Save :: "(string \<Rightarrow> string) \<Rightarrow> sqldb \<Rightarrow> string \<Rightarrow> string \<Rightarrow> err \<times> sqldb" where
  "my_Save coll d abv url =
     (let (result, d1) = statement (my_insert coll abv url) d
      in case result of
           Inl e \<Rightarrow>
             (if contains e ''Duplicate entry'' then (None, d1)
              else (Some (''couldn't store ('' @ abv @ '', '' @ url @ ''): '' @ e), d1))
         | Inr n \<Rightarrow>
             if n = 0 then
               (let (existing, d2) = statement (my_select_abv coll abv) d1
                in case existing of
                     Inl _ \<Rightarrow> (None, d2)
                   | Inr None \<Rightarrow> (None, d2)
                   | Inr (Some r) \<Rightarrow>
                       if r_url r \<noteq> url
                       then (Some (''abbreviation '' @ abv @ '' already exists with different URL''), d2)
                       else (None, d2))
             else (None, d1))"

definition my_DeleteAbv :: "(string \<Rightarrow> string) \<Rightarrow> sqldb \<Rightarrow> string \<Rightarrow> err \<times> sqldb" where
  "my_DeleteAbv coll d abv =
     (let (res, d1) = statement (delete_where (\<lambda>r. coll (r_abv r) = coll abv)) d
      in case res of
           Inl e \<Rightarrow> (Some (''couldn't delete abbreviation '' @ abv @ '': '' @ e), d1)
         | Inr _ \<Rightarrow> (None, d1))"

definition my_DeleteUrl :: "(string \<Rightarrow> string) \<Rightarrow> sqldb \<Rightarrow> string \<Rightarrow> err \<times> sqldb" where
  "my_DeleteUrl coll d url =
     (let (res, d1) = statement (delete_where (\<lambda>r. coll (r_url r) = coll url)) d
      in case res of
           Inl e \<Rightarrow> (Some (''couldn't delete URL '' @ url @ '': '' @ e), d1)
         | Inr _ \<Rightarrow> (None, d1))"

definition my_GetUrl :: "(string \<Rightarrow> string) \<Rightarrow> sqldb \<Rightarrow> string \<Rightarrow> (string \<times> err) \<times> sqldb" where
  "my_GetUrl coll d abv =
     (let (res, d1) = statement (my_select_abv coll abv) d
      in case res of
           Inl e \<Rightarrow> (('''', Some (''error getting URL for '' @ abv @ '': '' @ e)), d1)
         | Inr None \<Rightarrow> (('''', None), d1)
         | Inr (Some r) \<Rightarrow> ((r_url r, None), d1\<lparr>jobs := jobs d1 @ [J_row (r_id r)]\<rparr>))"

definition my_GetAbv :: "(string \<Rightarrow> string) \<Rightarrow> sqldb \<Rightarrow> string \<Rightarrow> (string \<times> err) \<times> sqldb" where
  "my_GetAbv coll d url =
     (let (res, d1) = statement (my_select_url coll url) d
      in case res of
           Inl e \<Rightarrow> (('''', Some (''error getting abbreviation for '' @ url @ '': '' @ e)), d1)
         | Inr None \<Rightarrow> (('''', None), d1)
         | Inr (Some r) \<Rightarrow> ((r_abv r, None), d1))"

definition my_GetStats :: "(string \<Rightarrow> string) \<Rightarrow> sqldb \<Rightarrow> string \<Rightarrow> (days ShortUrl \<times> err) \<times> sqldb" where
  "my_GetStats coll d abv =
     (let (res, d1) = statement (my_select_abv coll abv) d
      in case res of
           Inl e \<Rightarrow> ((zero_ShortUrl None, Some (''error getting stats for '' @ abv @ '': '' @ e)), d1)
         | Inr None \<Rightarrow> ((zero_ShortUrl None, None), d1)
         | Inr (Some r) \<Rightarrow>
             (case scan_int32 (r_hits r) of
                Inl e \<Rightarrow> ((zero_ShortUrl None, Some (''error getting stats for '' @ abv @ '': '' @ e)), d1)
              | Inr hits \<Rightarrow>
                  (let su = \<lparr>Abbreviation = r_abv r, Url = r_url r, Hits = hits,
                             LastAccess = (case r_last r of None \<Rightarrow> zero_time | Some t \<Rightarrow> t),
                             DailyHits = Some Map.empty\<rparr>;
                       (found, d2) = statement (select_days (r_id r)) d1
                   in case found of
                        Inl _ \<Rightarrow> ((su, None), d2)
                      | Inr ds \<Rightarrow> ((su\<lparr>DailyHits := Some (day_map ds)\<rparr>, None), d2))))"

text \<open>The next statement of a goroutine that \<open>GetUrl\<close> has left behind.\<close>

definition my_job :: "nat \<Rightarrow> sqldb \<Rightarrow> sqldb" where
  "my_job = run_job my_maxint"

definition mysql_dao :: "(string \<Rightarrow> string) \<Rightarrow> (sqldb, days) ShortUrlDao" where
  "mysql_dao coll =
     \<lparr>IsLikelyOk = my_IsLikelyOk, Save = my_Save coll, DeleteAbv = my_DeleteAbv coll, DeleteUrl = my_DeleteUrl coll,
      GetUrl = my_GetUrl coll, GetAbv = my_GetAbv coll, GetStats = my_GetStats coll, Cleanup = my_Cleanup\<rparr>"

lemma mysql_dao_simps [simp]:
  "IsLikelyOk (mysql_dao coll) = my_IsLikelyOk" "Save (mysql_dao coll) = my_Save coll"
  "DeleteAbv (mysql_dao coll) = my_DeleteAbv coll" "DeleteUrl (mysql_dao coll) = my_DeleteUrl coll"
  "GetUrl (mysql_dao coll) = my_GetUrl coll" "GetAbv (mysql_dao coll) = my_GetAbv coll"
  "GetStats (mysql_dao coll) = my_GetStats coll" "Cleanup (mysql_dao coll) = my_Cleanup"
  by (simp_all add: mysql_dao_def)

section \<open>The contract\<close>

text \<open>Under a binary collation the methods are the reference methods of \<open>SqlStore\<close>.\<close>

definition binary :: "string \<Rightarrow> string" where
  "binary s = s"

definition my_dup :: "string \<Rightarrow> bool" where
  "my_dup e \<longleftrightarrow> contains e ''Duplicate entry''"

lemma my_binary: "my_select_abv binary = select_abv" "my_select_url binary = select_url"
  by (simp_all add: fun_eq_iff my_select_abv_def select_abv_def my_select_url_def select_url_def my_find_abv_def
      find_abv_def my_find_url_def find_url_def binary_def)

lemma my_std:
  "my_IsLikelyOk d = std_IsLikelyOk d" "my_Save binary d a u = std_Save my_dup (my_insert binary a u) d a u"
  "my_DeleteAbv binary d a = std_DeleteAbv d a" "my_DeleteUrl binary d u = std_DeleteUrl d u"
  "my_GetUrl binary d a = std_GetUrl d a" "my_GetAbv binary d u = std_GetAbv d u"
  "my_GetStats binary d a = std_GetStats d a"
  by (simp_all only: my_IsLikelyOk_def std_IsLikelyOk_def my_Save_def std_Save_def my_DeleteAbv_def std_DeleteAbv_def
      my_DeleteUrl_def std_DeleteUrl_def my_GetUrl_def std_GetUrl_def my_GetAbv_def std_GetAbv_def
      my_GetStats_def std_GetStats_def my_dup_def my_binary binary_def)

text \<open>The pairs that fit the columns and the prefix that the unique key of the URL looks at.\<close>

definition my_fits :: "string \<Rightarrow> string \<Rightarrow> bool" where
  "my_fits a u \<longleftrightarrow> length a \<le> 50 \<and> length u \<le> 255"

definition my_good :: "tables \<Rightarrow> bool" where
  "my_good t \<longleftrightarrow> wf_tables t \<and> (\<forall>r \<in> set (rows t). my_fits (r_abv r) (r_url r))"

lemma my_insert_taken:
  assumes "my_good t" "find_abv t a \<noteq> None \<or> find_url t u \<noteq> None"
  shows "my_insert binary a u t = (Inr 0, burn t)"
proof -
  have "\<exists>r \<in> set (rows t). r_abv r = take 50 a \<or> take 255 (r_url r) = take 255 u"
  proof (cases "find_abv t a")
    case None
    with assms(2) obtain r where "find_url t u = Some r" by auto
    from find_urlD [OF this] show ?thesis by auto
  next
    case (Some r)
    from find_abvD [OF this] assms(1) show ?thesis by (force simp: my_good_def my_fits_def)
  qed
  then show ?thesis by (auto simp: my_insert_def binary_def burn_def)
qed

lemma my_insert_free:
  assumes "my_good t" "my_fits a u" "find_abv t a = None" "find_url t u = None"
  shows "my_insert binary a u t = (Inr 1, insert_row a u t)"
  using assms by (auto simp: my_insert_def binary_def my_good_def my_fits_def find_abv_None find_url_None)

lemma my_insert_effect:
  assumes "my_fits a u"
  shows "snd (my_insert binary a u t) \<in> {t, burn t} \<or>
    find_abv t a = None \<and> find_url t u = None \<and> snd (my_insert binary a u t) = insert_row a u t"
proof (cases "\<exists>r \<in> set (rows t). r_abv r = a \<or> take 255 (r_url r) = take 255 u")
  case True
  with assms show ?thesis by (simp add: my_insert_def binary_def my_fits_def burn_def)
next
  case False
  then have "find_abv t a = None" "find_url t u = None" by (auto simp: find_abv_None find_url_None)
  with False assms show ?thesis by (simp add: my_insert_def binary_def my_fits_def)
qed

lemma my_good_delete: "my_good t \<Longrightarrow> my_good (snd (delete_where P t))"
  using wf_delete_where [of t P] by (auto simp: my_good_def delete_where_def)

lemma my_good_links:
  assumes "my_good t" "wf_tables t'" "sql_links t' = sql_links t" shows "my_good t'"
proof -
  have "sql_links t' (r_abv r) = Some (r_url r)" if "r \<in> set (rows t')" for r
    using that assms(2) by (auto simp: sql_links_iff)
  with assms show ?thesis by (auto simp: my_good_def sql_links_iff) metis
qed

interpretation my: sql_dao "mysql_dao binary" my_maxint my_job my_dup "\<lambda>_. my_insert binary" my_good my_fits my_fits
proof (unfold_locales, goal_cases)
  case (8 k d)
  show ?case by (rule exI [of _ "[k]"]) (simp add: my_job_def)
next
  case (12 t a u dup)
  then show ?case by (auto simp: my_good_def insert_row_def)
next
  case (13 t a u dup)
  then show ?case by (simp add: my_insert_taken)
next
  case (14 t a u dup)
  then show ?case by (simp add: my_insert_free)
next
  case (15 t a u r dup)
  then show ?case by (simp add: my_insert_taken)
next
  case (16 a u dup t)
  then show ?case using my_insert_effect by blast
next
  case (9 t)
  then show ?case by (simp add: my_good_def)
next
  case (10 t t')
  then show ?case by (rule my_good_links)
qed (simp_all add: my_std my_good_delete)

text \<open>Opened on what the server held before, the store has those links.\<close>

lemma my_opened:
  assumes "CreateMySQLDB env Open dsn = Inr d"
  obtains server where "Open (my_dsn dsn) = Inr server"
    "kept (connect ''sql: database is closed'' (server (my_limits env))) d"
proof -
  from assms obtain server where server: "Open (my_dsn dsn) = Inr server" by (auto simp: CreateMySQLDB_def split: sum.splits)
  let ?c = "connect ''sql: database is closed'' (server (my_limits env))"
  have d: "d = my_initSchema (snd (statement ping ?c))"
    using assms server by (auto simp: CreateMySQLDB_def split_beta Let_def split: sum.splits)
  have "kept ?c d"
    unfolding d my_initSchema_def split_beta Let_def by (intro kept_statement kept_refl) simp_all
  with server show ?thesis by (rule that)
qed

lemma my_closed_no_dup: "\<not> my_dup ''sql: database is closed''"
  by (simp add: my_dup_def)

text \<open>The completed data source name asks for times to be parsed, and is the given one otherwise.\<close>

lemma my_dsn_parses: "contains (my_dsn dsn) ''parseTime'' \<and> prefix dsn (my_dsn dsn)"
proof -
  have "contains ((dsn @ [c]) @ ''parseTime'' @ ''=true'') ''parseTime''" for c
    by (rule contains_append) (rule contains_self)
  from this [of "CHR ''&''"] this [of "CHR ''?''"] show ?thesis by (simp add: my_dsn_def del: contains.simps)
qed

end
