(* ===== verification/SQLiteDB.thy ===== *)
theory SQLiteDB
  imports SqlStore
begin

text \<open>
  The SQLite store (src/dao/sqlitedb.go), each method with the statements it sends, in order. The
  mutex makes every method one step and a goroutine's two statements one step as well
  (\<open>lite_job\<close>). Columns are untyped text and 64-bit integers, so no abbreviation is too long and a
  hit count may pass the 32 bits of the field \<open>Hits\<close>; then \<open>Scan\<close> in \<open>GetStats\<close> fails. Log lines
  are left out.
\<close>

section \<open>Methods\<close>

definition lite_maxint :: int where
  "lite_maxint = 2 ^ 63 - 1"

text \<open>The two tables, each with its indexes, and the foreign keys; the mutex makes it one step.\<close>

definition lite_initSchema :: "sqldb \<Rightarrow> sqldb" where
  "lite_initSchema d =
     (let (_, d1) = statement create_if_missing d;
          (_, d2) = statement create_if_missing d1;
          (_, d3) = statement pragma d2
      in d3)"

text \<open>\<open>sql.Open\<close> with the limits of the pool is a parameter; \<open>Inl\<close> is the end of the process.\<close>

definition CreateSQLiteDB :: "(string \<Rightarrow> string + (pool_limits \<Rightarrow> sql_server)) \<Rightarrow> string \<Rightarrow> string + sqldb" where
  "CreateSQLiteDB Open dbPath =
     (case Open dbPath of
        Inl e \<Rightarrow> Inl (''Unable to open SQLite database: '' @ e)
      | Inr file \<Rightarrow>
          (let d = connect ''sql: database is closed'' (file \<lparr>max_open = 1, max_idle = 1, lifetime = 0\<rparr>);
               (_, d1) = statement pragma d;
               (_, d2) = statement pragma d1
           in Inr (lite_initSchema d2)))"

definition lite_Cleanup :: "sqldb \<Rightarrow> sqldb" where
  "lite_Cleanup d = d\<lparr>closed := True\<rparr>"

definition lite_IsLikelyOk :: "sqldb \<Rightarrow> bool \<times> sqldb" where
  "lite_IsLikelyOk d =
     (let (res, d1) = statement ping d
      in case res of Inl _ \<Rightarrow> (False, d1) | Inr _ \<Rightarrow> (True, d1))"

text \<open>\<open>INSERT ... ON CONFLICT (abbreviation) DO NOTHING\<close>; the \<open>url\<close> is unique as well.\<close>

definition lite_insert :: "string \<Rightarrow> string \<Rightarrow> string \<Rightarrow> nat stmt" where
  "lite_insert dup abv url t =
     (case find_abv t abv of
        Some _ \<Rightarrow> (Inr 0, t)
      | None \<Rightarrow>
          (case find_url t url of
             Some _ \<Rightarrow> (Inl dup, t)
           | None \<Rightarrow> (Inr 1, insert_row abv url t)))"

definition lite_Save :: "sqldb \<Rightarrow> string \<Rightarrow> string \<Rightarrow> err \<times> sqldb" where
  "lite_Save d abv url =
     (let (result, d1) = statement (lite_insert (dup_msg d) abv url) d
      in case result of
           Inl e \<Rightarrow>
             (if contains e ''UNIQUE constraint'' then (None, d1)
              else (Some (''couldn't store ('' @ abv @ '', '' @ url @ ''): '' @ e), d1))
         | Inr n \<Rightarrow>
             if n = 0 then
               (let (existing, d2) = statement (select_abv abv) d1
                in case existing of
                     Inl _ \<Rightarrow> (None, d2)
                   | Inr None \<Rightarrow> (None, d2)
                   | Inr (Some r) \<Rightarrow>
                       if r_url r \<noteq> url
                       then (Some (''abbreviation '' @ abv @ '' already exists with different URL''), d2)
                       else (None, d2))
             else (None, d1))"

definition lite_DeleteAbv :: "sqldb \<Rightarrow> string \<Rightarrow> err \<times> sqldb" where
  "lite_DeleteAbv d abv =
     (let (res, d1) = statement (delete_where (\<lambda>r. r_abv r = abv)) d
      in case res of
           Inl e \<Rightarrow> (Some (''couldn't delete abbreviation '' @ abv @ '': '' @ e), d1)
         | Inr _ \<Rightarrow> (None, d1))"

definition lite_DeleteUrl :: "sqldb \<Rightarrow> string \<Rightarrow> err \<times> sqldb" where
  "lite_DeleteUrl d url =
     (let (res, d1) = statement (delete_where (\<lambda>r. r_url r = url)) d
      in case res of
           Inl e \<Rightarrow> (Some (''couldn't delete URL '' @ url @ '': '' @ e), d1)
         | Inr _ \<Rightarrow> (None, d1))"

definition lite_GetUrl :: "sqldb \<Rightarrow> string \<Rightarrow> (string \<times> err) \<times> sqldb" where
  "lite_GetUrl d abv =
     (let (res, d1) = statement (select_abv abv) d
      in case res of
           Inl e \<Rightarrow> (('''', Some (''error getting URL for '' @ abv @ '': '' @ e)), d1)
         | Inr None \<Rightarrow> (('''', None), d1)
         | Inr (Some r) \<Rightarrow> ((r_url r, None), d1\<lparr>jobs := jobs d1 @ [J_row (r_id r)]\<rparr>))"

definition lite_GetAbv :: "sqldb \<Rightarrow> string \<Rightarrow> (string \<times> err) \<times> sqldb" where
  "lite_GetAbv d url =
     (let (res, d1) = statement (select_url url) d
      in case res of
           Inl e \<Rightarrow> (('''', Some (''error getting abbreviation for '' @ url @ '': '' @ e)), d1)
         | Inr None \<Rightarrow> (('''', None), d1)
         | Inr (Some r) \<Rightarrow> ((r_abv r, None), d1))"

definition lite_GetStats :: "sqldb \<Rightarrow> string \<Rightarrow> (days ShortUrl \<times> err) \<times> sqldb" where
  "lite_GetStats d abv =
     (let (res, d1) = statement (select_abv abv) d
      in case res of
           Inl e \<Rightarrow> ((zero_ShortUrl None, Some (''error getting stats for '' @ abv @ '': '' @ e)), d1)
         | Inr None \<Rightarrow> ((zero_ShortUrl None, None), d1)
         | Inr (Some r) \<Rightarrow>
             (case scan_int32 (r_hits r) of
                Inl e \<Rightarrow> ((zero_ShortUrl None, Some (''error getting stats for '' @ abv @ '': '' @ e)), d1)
              | Inr hits \<Rightarrow>
                  (let su = \<lparr>Abbreviation = r_abv r, Url = r_url r, Hits = hits,
                             LastAccess = (case r_last r of None \<Rightarrow> zero_time | Some t \<Rightarrow> t),
                             DailyHits = Some Map.empty\<rparr>;
                       (found, d2) = statement (select_days (r_id r)) d1
                   in case found of
                        Inl _ \<Rightarrow> ((su, None), d2)
                      | Inr ds \<Rightarrow> ((su\<lparr>DailyHits := Some (day_map ds)\<rparr>, None), d2))))"

text \<open>A goroutine that \<open>GetUrl\<close> has left behind: both its statements, under the mutex.\<close>

definition lite_job :: "nat \<Rightarrow> sqldb \<Rightarrow> sqldb" where
  "lite_job k d = run_job lite_maxint k (run_job lite_maxint k d)"

definition sqlite_dao :: "(sqldb, days) ShortUrlDao" where
  "sqlite_dao =
     \<lparr>IsLikelyOk = lite_IsLikelyOk, Save = lite_Save, DeleteAbv = lite_DeleteAbv, DeleteUrl = lite_DeleteUrl,
      GetUrl = lite_GetUrl, GetAbv = lite_GetAbv, GetStats = lite_GetStats, Cleanup = lite_Cleanup\<rparr>"

lemma sqlite_dao_simps [simp]:
  "IsLikelyOk sqlite_dao = lite_IsLikelyOk" "Save sqlite_dao = lite_Save"
  "DeleteAbv sqlite_dao = lite_DeleteAbv" "DeleteUrl sqlite_dao = lite_DeleteUrl"
  "GetUrl sqlite_dao = lite_GetUrl" "GetAbv sqlite_dao = lite_GetAbv"
  "GetStats sqlite_dao = lite_GetStats" "Cleanup sqlite_dao = lite_Cleanup"
  by (simp_all add: sqlite_dao_def)

section \<open>The contract\<close>

definition lite_dup :: "string \<Rightarrow> bool" where
  "lite_dup e \<longleftrightarrow> contains e ''UNIQUE constraint''"

lemma lite_std:
  "lite_IsLikelyOk d = std_IsLikelyOk d" "lite_Save d a u = std_Save lite_dup (lite_insert (dup_msg d) a u) d a u"
  "lite_DeleteAbv d a = std_DeleteAbv d a" "lite_DeleteUrl d u = std_DeleteUrl d u"
  "lite_GetUrl d a = std_GetUrl d a" "lite_GetAbv d u = std_GetAbv d u" "lite_GetStats d a = std_GetStats d a"
  by (simp_all only: lite_IsLikelyOk_def std_IsLikelyOk_def lite_Save_def std_Save_def lite_DeleteAbv_def std_DeleteAbv_def
      lite_DeleteUrl_def std_DeleteUrl_def lite_GetUrl_def std_GetUrl_def lite_GetAbv_def std_GetAbv_def
      lite_GetStats_def std_GetStats_def lite_dup_def)

interpretation lite: sql_dao sqlite_dao lite_maxint lite_job lite_dup lite_insert wf_tables "\<lambda>_ _. True" "\<lambda>_ _. True"
proof (unfold_locales, goal_cases)
  case (8 k d)
  show ?case by (rule exI [of _ "[k, k]"]) (simp add: lite_job_def)
qed (auto simp: lite_std wf_delete_where lite_insert_def burn_def split: option.split)

text \<open>Opened on a file, the store has the links that are in it.\<close>

lemma lite_opened:
  assumes "CreateSQLiteDB Open dbPath = Inr d"
  obtains disk where "Open dbPath = Inr disk"
    "kept (connect ''sql: database is closed'' (disk \<lparr>max_open = 1, max_idle = 1, lifetime = 0\<rparr>)) d"
proof -
  from assms obtain disk where opened: "Open dbPath = Inr disk" by (auto simp: CreateSQLiteDB_def split: sum.splits)
  let ?c = "connect ''sql: database is closed'' (disk \<lparr>max_open = 1, max_idle = 1, lifetime = 0\<rparr>)"
  have d: "d = lite_initSchema (snd (statement pragma (snd (statement pragma ?c))))"
    using assms opened by (simp add: CreateSQLiteDB_def split_beta Let_def)
  have "kept ?c d"
    unfolding d lite_initSchema_def split_beta Let_def by (intro kept_statement kept_refl) simp_all
  with opened show ?thesis by (rule that)
qed

lemma lite_closed_no_dup: "\<not> lite_dup ''sql: database is closed''"
  by (simp add: lite_dup_def)

end
