(* ===== verification/RedisDB.thy ===== *)
theory RedisDB
  imports Connection
begin

text \<open>
  The Redis store (src/dao/redisdb.go) over a key space of strings and hashes, with the commands its
  methods send. A transaction (\<open>TxPipeline\<close>) is one command of the connection. \<open>Save\<close> reads and
  then writes in two round trips (\<open>rd_Save_check\<close>, \<open>rd_Save_write\<close>), between which other clients
  may run. The goroutine of a look-up is one transaction, sent at any later time (\<open>rd_job\<close>). Log
  lines are left out, and so is the client's retrying of commands.
\<close>

section \<open>Keys\<close>

datatype rvalue = RString string | RHash "string \<rightharpoonup> string"

type_synonym keys = "string \<rightharpoonup> rvalue"

definition abvKeyPrefix :: string where
  "abvKeyPrefix = ''shorturl:abv:''"

definition urlKeyPrefix :: string where
  "urlKeyPrefix = ''shorturl:url:''"

definition dailyKeyPrefix :: string where
  "dailyKeyPrefix = ''shorturl:daily:''"

abbreviation abvKey :: "string \<Rightarrow> string" where
  "abvKey a \<equiv> abvKeyPrefix @ a"

abbreviation urlKey :: "string \<Rightarrow> string" where
  "urlKey u \<equiv> urlKeyPrefix @ u"

abbreviation dailyKey :: "string \<Rightarrow> string" where
  "dailyKey a \<equiv> dailyKeyPrefix @ a"

lemma keys_apart [simp]:
  "abvKey a \<noteq> urlKey u" "urlKey u \<noteq> abvKey a" "abvKey a \<noteq> dailyKey b" "dailyKey b \<noteq> abvKey a"
  "urlKey u \<noteq> dailyKey b" "dailyKey b \<noteq> urlKey u"
  by (simp_all add: abvKeyPrefix_def urlKeyPrefix_def dailyKeyPrefix_def)

section \<open>Commands\<close>

definition wrong_type :: string where
  "wrong_type = ''WRONGTYPE Operation against a key holding the wrong kind of value''"

text \<open>\<open>HGET\<close>, \<open>GET\<close>: no value is \<open>None\<close> (\<open>redis.Nil\<close>). \<open>HGETALL\<close> of no key is the empty map.\<close>

definition hget :: "string \<Rightarrow> string \<Rightarrow> (keys, string option) cmd" where
  "hget k f m =
     (case m k of
        None \<Rightarrow> (Inr None, m)
      | Some (RHash h) \<Rightarrow> (Inr (h f), m)
      | Some (RString _) \<Rightarrow> (Inl wrong_type, m))"

definition get :: "string \<Rightarrow> (keys, string option) cmd" where
  "get k m =
     (case m k of
        None \<Rightarrow> (Inr None, m)
      | Some (RString s) \<Rightarrow> (Inr (Some s), m)
      | Some (RHash _) \<Rightarrow> (Inl wrong_type, m))"

definition hgetall :: "string \<Rightarrow> (keys, string \<rightharpoonup> string) cmd" where
  "hgetall k m =
     (case m k of
        None \<Rightarrow> (Inr Map.empty, m)
      | Some (RHash h) \<Rightarrow> (Inr h, m)
      | Some (RString _) \<Rightarrow> (Inl wrong_type, m))"

definition rd_ping :: "(keys, unit) cmd" where
  "rd_ping m = (Inr (), m)"

text \<open>The commands of transactions: an error, if any, and the keys afterwards.\<close>

type_synonym update = "keys \<Rightarrow> err \<times> keys"

definition hset :: "string \<Rightarrow> (string \<times> string) list \<Rightarrow> update" where
  "hset k fs m =
     (case m k of
        None \<Rightarrow> (None, m(k \<mapsto> RHash (map_of fs)))
      | Some (RHash h) \<Rightarrow> (None, m(k \<mapsto> RHash (h ++ map_of fs)))
      | Some (RString _) \<Rightarrow> (Some wrong_type, m))"

definition set_key :: "string \<Rightarrow> string \<Rightarrow> update" where
  "set_key k s m = (None, m(k \<mapsto> RString s))"

definition del :: "string \<Rightarrow> update" where
  "del k m = (None, m(k := None))"

text \<open>\<open>HINCRBY k f 1\<close>: the field holds a 64-bit number in base 10, or nothing yet.\<close>

definition redis_int :: "string \<Rightarrow> int option" where
  "redis_int s = (case ParseInt 64 s of (i, None) \<Rightarrow> if show_int i = s then Some i else None | _ \<Rightarrow> None)"

definition hincr :: "string \<Rightarrow> string \<Rightarrow> update" where
  "hincr k f m =
     (let add = (\<lambda>h n. if n = 2 ^ 63 - 1 then (Some ''ERR increment or decrement would overflow'', m)
                       else (None, m(k \<mapsto> RHash (h(f \<mapsto> show_int (n + 1))))))
      in case m k of
           None \<Rightarrow> add Map.empty 0
         | Some (RHash h) \<Rightarrow>
             (case h f of
                None \<Rightarrow> add h 0
              | Some s \<Rightarrow>
                  (case redis_int s of
                     None \<Rightarrow> (Some ''ERR hash value is not an integer'', m)
                   | Some n \<Rightarrow> add h n))
         | Some (RString _) \<Rightarrow> (Some wrong_type, m))"

text \<open>\<open>MULTI\<close> ... \<open>EXEC\<close>: every command runs, also after one that fails; \<open>Exec\<close> returns the first error.\<close>

fun exec :: "update list \<Rightarrow> update" where
  "exec [] m = (None, m)"
| "exec (c # cs) m =
     (let (e1, m1) = c m; (e2, m2) = exec cs m1
      in (case e1 of None \<Rightarrow> e2 | Some _ \<Rightarrow> e1, m2))"

definition tx :: "update list \<Rightarrow> (keys, unit) cmd" where
  "tx cs m = (let (e, m1) = exec cs m in (case e of None \<Rightarrow> Inr () | Some x \<Rightarrow> Inl x, m1))"

section \<open>Methods\<close>

text \<open>A pending goroutine is the abbreviation it counts a hit of.\<close>

type_synonym redisdb = "(keys, string) conn"

record redis_server =
  held :: keys
  manner :: "nat \<Rightarrow> outcome"
  host_clock :: wall_clock

definition rd_connect :: "redis_server \<Rightarrow> redisdb" where
  "rd_connect s =
     \<lparr>tabs = held s, net = manner s, sent = 0, closed = False, closed_msg = ''redis: client is closed'',
      dup_msg = '''', sclock = host_clock s, jobs = []\<rparr>"

text \<open>
  \<open>ParseURL\<close> and \<open>NewClient\<close> are the driver's; a string that is not a URL is taken for an address.
  \<open>Inl\<close> is the end of the process.
\<close>

definition CreateRedisDB ::
  "getenv \<Rightarrow> (string \<Rightarrow> 'o option) \<Rightarrow> (string \<Rightarrow> 'o) \<Rightarrow> ('o \<Rightarrow> int \<Rightarrow> redis_server) \<Rightarrow> string \<Rightarrow> string + redisdb" where
  "CreateRedisDB env ParseURL Addr NewClient connString =
     (let opt = (case ParseURL connString of None \<Rightarrow> Addr connString | Some opt \<Rightarrow> opt);
          (res, d) = statement rd_ping (rd_connect (NewClient opt (IntOrDefault env ''redis_pool_size'' 10)))
      in case res of
           Inl e \<Rightarrow> Inl (''Unable to connect to Redis: '' @ e)
         | Inr _ \<Rightarrow> Inr d)"

definition rd_Cleanup :: "redisdb \<Rightarrow> redisdb" where
  "rd_Cleanup d = d\<lparr>closed := True\<rparr>"

definition rd_IsLikelyOk :: "redisdb \<Rightarrow> bool \<times> redisdb" where
  "rd_IsLikelyOk d =
     (let (res, d1) = statement rd_ping d
      in case res of Inl _ \<Rightarrow> (False, d1) | Inr _ \<Rightarrow> (True, d1))"

text \<open>\<open>Save\<close>, up to its first answer, and after it.\<close>

definition rd_Save_check :: "redisdb \<Rightarrow> string \<Rightarrow> string \<Rightarrow> err \<times> redisdb" where
  "rd_Save_check d abv url =
     (let (res, d1) = statement (hget (abvKey abv) ''url'') d
      in case res of
           Inr (Some existing) \<Rightarrow>
             (if existing \<noteq> '''' \<and> existing \<noteq> url
              then (Some (''abbreviation '' @ abv @ '' already exists with different URL''), d1)
              else (None, d1))
         | _ \<Rightarrow> (None, d1))"

definition rd_Save_write :: "redisdb \<Rightarrow> string \<Rightarrow> string \<Rightarrow> err \<times> redisdb" where
  "rd_Save_write d abv url =
     (let (res, d1) = statement (tx [hset (abvKey abv) [(''url'', url), (''hits'', ''0'')], set_key (urlKey url) abv]) d
      in case res of
           Inl e \<Rightarrow> (Some (''couldn't store ('' @ abv @ '', '' @ url @ ''): '' @ e), d1)
         | Inr _ \<Rightarrow> (None, d1))"

definition rd_Save :: "redisdb \<Rightarrow> string \<Rightarrow> string \<Rightarrow> err \<times> redisdb" where
  "rd_Save d abv url =
     (let (e, d1) = rd_Save_check d abv url
      in case e of Some _ \<Rightarrow> (e, d1) | None \<Rightarrow> rd_Save_write d1 abv url)"

definition rd_DeleteAbv :: "redisdb \<Rightarrow> string \<Rightarrow> err \<times> redisdb" where
  "rd_DeleteAbv d abv =
     (let (res, d1) = statement (hget (abvKey abv) ''url'') d
      in case res of
           Inr None \<Rightarrow> (None, d1)
         | Inl e \<Rightarrow> (Some (''couldn't get URL for abbreviation '' @ abv @ '': '' @ e), d1)
         | Inr (Some url) \<Rightarrow>
             (let (done, d2) = statement (tx [del (abvKey abv), del (urlKey url), del (dailyKey abv)]) d1
              in case done of
                   Inl e \<Rightarrow> (Some (''couldn't delete abbreviation '' @ abv @ '': '' @ e), d2)
                 | Inr _ \<Rightarrow> (None, d2)))"

definition rd_DeleteUrl :: "redisdb \<Rightarrow> string \<Rightarrow> err \<times> redisdb" where
  "rd_DeleteUrl d url =
     (let (res, d1) = statement (get (urlKey url)) d
      in case res of
           Inr None \<Rightarrow> (None, d1)
         | Inl e \<Rightarrow> (Some (''couldn't get abbreviation for URL '' @ url @ '': '' @ e), d1)
         | Inr (Some abv) \<Rightarrow>
             (let (done, d2) = statement (tx [del (abvKey abv), del (urlKey url), del (dailyKey abv)]) d1
              in case done of
                   Inl e \<Rightarrow> (Some (''couldn't delete URL '' @ url @ '': '' @ e), d2)
                 | Inr _ \<Rightarrow> (None, d2)))"

definition rd_GetUrl :: "redisdb \<Rightarrow> string \<Rightarrow> (string \<times> err) \<times> redisdb" where
  "rd_GetUrl d abv =
     (let (res, d1) = statement (hget (abvKey abv) ''url'') d
      in case res of
           Inr None \<Rightarrow> (('''', None), d1)
         | Inl e \<Rightarrow> (('''', Some (''error getting URL for '' @ abv @ '': '' @ e)), d1)
         | Inr (Some url) \<Rightarrow> ((url, None), d1\<lparr>jobs := jobs d1 @ [abv]\<rparr>))"

definition rd_GetAbv :: "redisdb \<Rightarrow> string \<Rightarrow> (string \<times> err) \<times> redisdb" where
  "rd_GetAbv d url =
     (let (res, d1) = statement (get (urlKey url)) d
      in case res of
           Inr None \<Rightarrow> (('''', None), d1)
         | Inl e \<Rightarrow> (('''', Some (''error getting abbreviation for '' @ url @ '': '' @ e)), d1)
         | Inr (Some abv) \<Rightarrow> ((abv, None), d1))"


text \<open>The two readers of numbers keep their value on an error: a hit count stops at the largest.\<close>

definition rd_GetStats :: "redisdb \<Rightarrow> string \<Rightarrow> (days ShortUrl \<times> err) \<times> redisdb" where
  "rd_GetStats d abv =
     (let (res, d1) = statement (hgetall (abvKey abv)) d
      in case res of
           Inl e \<Rightarrow> ((zero_ShortUrl None, Some (''error getting stats for '' @ abv @ '': '' @ e)), d1)
         | Inr h \<Rightarrow>
             if h = Map.empty then ((zero_ShortUrl None, None), d1)
             else
               (let su = \<lparr>Abbreviation = abv, Url = (case h ''url'' of None \<Rightarrow> '''' | Some u \<Rightarrow> u),
                          Hits = (case h ''hits'' of None \<Rightarrow> 0 | Some s \<Rightarrow> of_int (fst (ParseInt 32 s))),
                          LastAccess =
                            (case h ''last_access'' of
                               None \<Rightarrow> zero_time
                             | Some s \<Rightarrow> if s = '''' then zero_time
                                         else (case parse_RFC3339 s of None \<Rightarrow> zero_time | Some t \<Rightarrow> t)),
                          DailyHits = Some Map.empty\<rparr>;
                    (found, d2) = statement (hgetall (dailyKey abv)) d1
                in case found of
                     Inl _ \<Rightarrow> ((su, None), d2)
                   | Inr g \<Rightarrow> ((su\<lparr>DailyHits := Some (\<lambda>date. map_option (\<lambda>s. fst (Atoi s)) (g date))\<rparr>, None), d2)))"

text \<open>The \<open>k\<close>-th pending goroutine: the day, the time, one transaction.\<close>

definition rd_job :: "nat \<Rightarrow> redisdb \<Rightarrow> redisdb" where
  "rd_job k d =
     (if k < length (jobs d) then
        (let abv = jobs d ! k;
             (date, c1) = Date (sclock d);
             (now, c2) = time_Now c1;
             d1 = d\<lparr>sclock := c2, jobs := take k (jobs d) @ drop (Suc k) (jobs d)\<rparr>
         in snd (statement (tx [hincr (abvKey abv) ''hits'',
                                hset (abvKey abv) [(''last_access'', format_RFC3339 now)],
                                hincr (dailyKey abv) date]) d1))
      else d)"

definition redis_dao :: "(redisdb, days) ShortUrlDao" where
  "redis_dao =
     \<lparr>IsLikelyOk = rd_IsLikelyOk, Save = rd_Save, DeleteAbv = rd_DeleteAbv, DeleteUrl = rd_DeleteUrl,
      GetUrl = rd_GetUrl, GetAbv = rd_GetAbv, GetStats = rd_GetStats, Cleanup = rd_Cleanup\<rparr>"

lemma redis_dao_simps [simp]:
  "IsLikelyOk redis_dao = rd_IsLikelyOk" "Save redis_dao = rd_Save"
  "DeleteAbv redis_dao = rd_DeleteAbv" "DeleteUrl redis_dao = rd_DeleteUrl"
  "GetUrl redis_dao = rd_GetUrl" "GetAbv redis_dao = rd_GetAbv"
  "GetStats redis_dao = rd_GetStats" "Cleanup redis_dao = rd_Cleanup"
  by (simp_all add: redis_dao_def)

section \<open>The links in the key space\<close>

definition key_links :: "keys \<Rightarrow> string \<rightharpoonup> string" where
  "key_links m a = (case m (abvKey a) of Some (RHash h) \<Rightarrow> h ''url'' | _ \<Rightarrow> None)"

text \<open>
  Every hash of an abbreviation has its URL, every string of a URL is its abbreviation, and the two
  agree; no goroutine has left a hash without a URL.
\<close>

definition wf_keys :: "keys \<Rightarrow> bool" where
  "wf_keys m \<longleftrightarrow>
     (\<forall>a. m (abvKey a) = None \<or> (\<exists>h u. m (abvKey a) = Some (RHash h) \<and> h ''url'' = Some u \<and> a \<noteq> '''' \<and> u \<noteq> '''')) \<and>
     (\<forall>a u. key_links m a = Some u \<longleftrightarrow> m (urlKey u) = Some (RString a)) \<and>
     (\<forall>u v. m (urlKey u) = Some v \<longrightarrow> (\<exists>a. v = RString a))"

lemma wf_keys_hash:
  assumes "wf_keys m"
  shows "m (abvKey a) = None \<and> key_links m a = None \<or>
    (\<exists>h u. m (abvKey a) = Some (RHash h) \<and> h ''url'' = Some u \<and> key_links m a = Some u \<and> a \<noteq> '''' \<and> u \<noteq> '''')"
proof -
  have "m (abvKey a) = None \<or> (\<exists>h u. m (abvKey a) = Some (RHash h) \<and> h ''url'' = Some u \<and> a \<noteq> '''' \<and> u \<noteq> '''')"
    using assms by (simp add: wf_keys_def)
  then show ?thesis by (auto simp: key_links_def)
qed

lemma wf_keys_url: "wf_keys m \<Longrightarrow> key_links m a = Some u \<longleftrightarrow> m (urlKey u) = Some (RString a)"
  by (simp add: wf_keys_def)

lemma wf_keys_string: "wf_keys m \<Longrightarrow> m (urlKey u) = None \<or> (\<exists>a. m (urlKey u) = Some (RString a))"
  by (cases "m (urlKey u)") (auto simp: wf_keys_def)

lemma hget_abv:
  "wf_keys m \<Longrightarrow> hget (abvKey a) ''url'' m = (Inr (key_links m a), m)"
  using wf_keys_hash [of m a] by (auto simp: hget_def)

lemma get_url:
  assumes "wf_keys m"
  obtains (none) "get (urlKey u) m = (Inr None, m)" "u \<notin> ran (key_links m)"
  | (abv) a where "get (urlKey u) m = (Inr (Some a), m)" "key_links m a = Some u"
  using wf_keys_string [OF assms, of u]
proof
  assume "m (urlKey u) = None"
  then show ?thesis using wf_keys_url [OF assms, of _ u] by (intro none) (auto simp: get_def ran_def)
next
  assume "\<exists>a. m (urlKey u) = Some (RString a)"
  then obtain a where "m (urlKey u) = Some (RString a)" ..
  then show ?thesis using wf_keys_url [OF assms, of a u] by (intro abv [of a]) (simp_all add: get_def)
qed

lemma hgetall_abv:
  assumes "wf_keys m"
  shows "hgetall (abvKey a) m = (Inr (case m (abvKey a) of Some (RHash h) \<Rightarrow> h | _ \<Rightarrow> Map.empty), m)"
  using wf_keys_hash [OF assms, of a] by (auto simp: hgetall_def)

text \<open>What the transactions do.\<close>

definition saved :: "string \<Rightarrow> string \<Rightarrow> keys \<Rightarrow> keys" where
  "saved a u m = snd (tx [hset (abvKey a) [(''url'', u), (''hits'', ''0'')], set_key (urlKey u) a] m)"

definition removed :: "string \<Rightarrow> string \<Rightarrow> keys \<Rightarrow> keys" where
  "removed a u m = m(abvKey a := None, urlKey u := None, dailyKey a := None)"

lemma removed_simps:
  "removed a u m (urlKey v) = (if v = u then None else m (urlKey v))"
  "removed a u m (abvKey b) = (if b = a then None else m (abvKey b))"
  by (simp_all add: removed_def)

lemma tx_delete: "tx [del (abvKey a), del (urlKey u), del (dailyKey a)] m = (Inr (), removed a u m)"
  by (simp add: tx_def del_def removed_def)

lemma tx_save:
  assumes "wf_keys m"
  shows "tx [hset (abvKey a) [(''url'', u), (''hits'', ''0'')], set_key (urlKey u) a] m = (Inr (), saved a u m)"
  using wf_keys_hash [OF assms, of a] by (auto simp: saved_def tx_def hset_def set_key_def)

lemma key_links_removed: "key_links (removed a u m) = (key_links m)(a := None)"
  by (auto simp: fun_eq_iff key_links_def removed_simps)

lemma wf_removed:
  assumes "wf_keys m" "key_links m a = Some u" shows "wf_keys (removed a u m)"
proof -
  have inj: "b = a \<longleftrightarrow> v = u" if "key_links m b = Some v" for b v
  proof
    assume "b = a" with that assms(2) show "v = u" by simp
  next
    assume "v = u" with that assms(2) show "b = a" by (simp add: wf_keys_url [OF assms(1)])
  qed
  have "key_links (removed a u m) b = Some v \<longleftrightarrow> removed a u m (urlKey v) = Some (RString b)" for b v
    using wf_keys_url [OF assms(1), of b v] inj [of b v] assms(2)
    by (auto simp: key_links_removed removed_simps)
  moreover have "removed a u m (abvKey b) = None \<or> (\<exists>h v. removed a u m (abvKey b) = Some (RHash h) \<and> h ''url'' = Some v \<and> b \<noteq> '''' \<and> v \<noteq> '''')" for b
    using wf_keys_hash [OF assms(1), of b] by (auto simp: removed_simps)
  moreover have "removed a u m (urlKey v) = Some x \<Longrightarrow> \<exists>b. x = RString b" for v x
    using wf_keys_string [OF assms(1), of v] by (auto simp: removed_simps split: if_splits)
  ultimately show ?thesis unfolding wf_keys_def by blast
qed

lemma key_links_saved:
  assumes "wf_keys m" shows "key_links (saved a u m) = (key_links m)(a \<mapsto> u)"
proof
  fix b
  show "key_links (saved a u m) b = ((key_links m)(a \<mapsto> u)) b"
    using wf_keys_hash [OF assms, of a]
    by (auto simp: saved_def tx_def hset_def set_key_def key_links_def)
qed

lemma wf_saved:
  assumes "wf_keys m" "savable (key_links m) a u" shows "wf_keys (saved a u m)"
proof -
  have ne: "a \<noteq> ''''" "u \<noteq> ''''" and free: "key_links m a = Some u \<or> key_links m a = None \<and> u \<notin> ran (key_links m)"
    using assms(2) by (simp_all add: savable_def)
  have url: "saved a u m (urlKey v) = (if v = u then Some (RString a) else m (urlKey v))" for v
    using wf_keys_hash [OF assms(1), of a] by (auto simp: saved_def tx_def hset_def set_key_def)
  have abv: "saved a u m (abvKey b) = m (abvKey b)" if "b \<noteq> a" for b
    using that wf_keys_hash [OF assms(1), of a] by (auto simp: saved_def tx_def hset_def set_key_def)
  have "\<exists>h. saved a u m (abvKey a) = Some (RHash h) \<and> h ''url'' = Some u"
    using wf_keys_hash [OF assms(1), of a] by (auto simp: saved_def tx_def hset_def set_key_def)
  then have 1: "saved a u m (abvKey b) = None \<or> (\<exists>h v. saved a u m (abvKey b) = Some (RHash h) \<and> h ''url'' = Some v \<and> b \<noteq> '''' \<and> v \<noteq> '''')" for b
    using wf_keys_hash [OF assms(1), of b] ne abv [of b] by (cases "b = a") auto
  have 2: "key_links (saved a u m) b = Some v \<longleftrightarrow> saved a u m (urlKey v) = Some (RString b)" for b v
    using free wf_keys_url [OF assms(1), of b v] wf_keys_url [OF assms(1), of a v] wf_keys_url [OF assms(1), of b u]
    by (auto simp: key_links_saved [OF assms(1)] url ran_def)
  have 3: "saved a u m (urlKey v) = Some x \<Longrightarrow> \<exists>b. x = RString b" for v x
    using wf_keys_string [OF assms(1), of v] by (auto simp: url split: if_splits)
  show ?thesis unfolding wf_keys_def using 1 2 3 by blast
qed


section \<open>The contract\<close>

definition rd_ok :: "redisdb \<Rightarrow> bool" where
  "rd_ok d \<longleftrightarrow> wf_keys (tabs d)"

definition rd_links :: "redisdb \<Rightarrow> string \<rightharpoonup> string" where
  "rd_links d = key_links (tabs d)"

definition rd_works :: "redisdb \<Rightarrow> bool" where
  "rd_works d \<longleftrightarrow> rd_ok d \<and> quiet d"

lemma rd_reads [simp]: "snd (hget k f m) = m" "snd (get k m) = m" "snd (hgetall k m) = m" "snd (rd_ping m) = m"
  by (simp_all add: hget_def get_def hgetall_def rd_ping_def split: option.split rvalue.split)

lemma rd_read:
  assumes "statement f d = (res, d1)" "\<And>m. snd (f m) = m"
  shows "tabs d1 = tabs d" "same_conn d d1" and "res = fst (f (tabs d)) \<or> (\<exists>e. res = Inl e)"
    and "quiet d \<Longrightarrow> res = fst (f (tabs d))"
proof -
  show "tabs d1 = tabs d" using statement_frozen [of f d, OF assms(2)] assms(1) by simp
  show "same_conn d d1" using same_conn_snd [of d f] assms(1) by simp
  from assms(1) show "res = fst (f (tabs d)) \<or> (\<exists>e. res = Inl e)" by (cases rule: statement_cases) auto
  show "quiet d \<Longrightarrow> res = fst (f (tabs d))" using statement_quiet [of d f] assms(1) by simp
qed

lemma rd_GetUrl_law:
  assumes "rd_ok d" "rd_GetUrl d a = ((v, e), d')"
  shows "tabs d' = tabs d" "same_conn d d'" "v = (if e = None then url_or_empty (rd_links d) a else '''')"
    and "quiet d \<Longrightarrow> e = None"
proof -
  obtain res d1 where s: "statement (hget (abvKey a) ''url'') d = (res, d1)" by (metis prod.exhaust)
  note r = rd_read [OF s rd_reads(1)]
  have h: "fst (hget (abvKey a) ''url'' (tabs d)) = Inr (rd_links d a)"
    using assms(1) by (simp add: hget_abv rd_ok_def rd_links_def)
  show "tabs d' = tabs d" "same_conn d d'" using assms(2) s r(1,2)
    by (auto simp: rd_GetUrl_def same_conn_def split: sum.splits option.splits)
  show "v = (if e = None then url_or_empty (rd_links d) a else '''')"
    using assms(2) s r(3) h by (cases "rd_links d a") (auto simp: rd_GetUrl_def split: sum.splits option.splits)
  show "quiet d \<Longrightarrow> e = None"
    using assms(2) s r(4) h by (cases "rd_links d a") (auto simp: rd_GetUrl_def)
qed

lemma rd_GetAbv_law:
  assumes "rd_ok d" "rd_GetAbv d u = ((v, e), d')"
  shows "tabs d' = tabs d" "same_conn d d'"
    "if e = None then (if v = '''' then u \<notin> ran (rd_links d) else rd_links d v = Some u) else v = ''''"
    and "quiet d \<Longrightarrow> e = None"
proof -
  obtain res d1 where s: "statement (get (urlKey u)) d = (res, d1)" by (metis prod.exhaust)
  note r = rd_read [OF s rd_reads(2)]
  have wf: "wf_keys (tabs d)" using assms(1) by (simp add: rd_ok_def)
  show "tabs d' = tabs d" "same_conn d d'" using assms(2) s r(1,2)
    by (auto simp: rd_GetAbv_def split: sum.splits option.splits)
  have ne: "rd_links d a = Some u \<Longrightarrow> a \<noteq> ''''" for a using wf_keys_hash [OF wf, of a] by (auto simp: rd_links_def)
  have "(if e = None then (if v = '''' then u \<notin> ran (rd_links d) else rd_links d v = Some u) else v = '''') \<and> (quiet d \<longrightarrow> e = None)"
    using wf
  proof (cases rule: get_url [where u = u])
    case none
    with assms(2) s r(3,4) show ?thesis by (auto simp: rd_GetAbv_def rd_links_def split: sum.splits)
  next
    case (abv a)
    with assms(2) s r(3,4) ne [of a] show ?thesis by (auto simp: rd_GetAbv_def rd_links_def split: sum.splits)
  qed
  then show "if e = None then (if v = '''' then u \<notin> ran (rd_links d) else rd_links d v = Some u) else v = ''''"
    "quiet d \<Longrightarrow> e = None" by simp_all
qed

lemma rd_GetStats_law:
  assumes "rd_ok d" "rd_GetStats d a = ((st, e), d')"
  shows "tabs d' = tabs d" "same_conn d d'"
    and "e = None \<longrightarrow> (case rd_links d a of None \<Rightarrow> Abbreviation st = '''' | Some u \<Rightarrow> Abbreviation st = a \<and> Url st = u)"
    and "quiet d \<Longrightarrow> e = None"
proof -
  obtain res d1 where s: "statement (hgetall (abvKey a)) d = (res, d1)" by (metis prod.exhaust)
  obtain found d2 where s2: "statement (hgetall (dailyKey a)) d1 = (found, d2)" by (metis prod.exhaust)
  note r = rd_read [OF s rd_reads(3)] and r2 = rd_read [OF s2 rd_reads(3)]
  have wf: "wf_keys (tabs d)" using assms(1) by (simp add: rd_ok_def)
  show "tabs d' = tabs d" using assms(2) s s2 r(1) r2(1)
    by (auto simp: rd_GetStats_def Let_def split: sum.splits if_splits)
  show "same_conn d d'" using assms(2) s s2 r(2) r2(2) same_conn_trans [OF r(2) r2(2)]
    by (auto simp: rd_GetStats_def Let_def split: sum.splits if_splits)
  from wf_keys_hash [OF wf, of a]
  show "e = None \<longrightarrow> (case rd_links d a of None \<Rightarrow> Abbreviation st = '''' | Some u \<Rightarrow> Abbreviation st = a \<and> Url st = u)"
  proof (elim disjE exE conjE)
    assume "tabs d (abvKey a) = None" "key_links (tabs d) a = None"
    with assms(2) s r(3) show ?thesis
      by (auto simp: rd_GetStats_def hgetall_abv [OF wf] rd_links_def zero_ShortUrl_def)
  next
    fix h u assume h: "tabs d (abvKey a) = Some (RHash h)" "h ''url'' = Some u" "key_links (tabs d) a = Some u"
    then have "h \<noteq> Map.empty" by auto
    with assms(2) s s2 r(3) h show ?thesis
      by (auto simp: rd_GetStats_def hgetall_abv [OF wf] rd_links_def Let_def split: sum.splits)
  qed
  show "e = None" if "quiet d"
  proof -
    from r(4) [OF that] obtain h where "res = Inr h" by (simp add: hgetall_abv [OF wf])
    with assms(2) s s2 show ?thesis by (auto simp: rd_GetStats_def Let_def split: sum.splits if_splits)
  qed
qed

text \<open>A transaction runs, or an error is reported and it may have run all the same.\<close>

lemma rd_write:
  assumes "statement f d = (res, d1)" "f (tabs d) = (Inr (), m)"
  shows "tabs d1 = m \<and> res = Inr () \<or> (\<exists>e. res = Inl e) \<and> tabs d1 \<in> {tabs d, m}" "same_conn d d1"
    "quiet d \<Longrightarrow> res = Inr ()"
proof -
  from assms(1) show "tabs d1 = m \<and> res = Inr () \<or> (\<exists>e. res = Inl e) \<and> tabs d1 \<in> {tabs d, m}"
    using assms(2) by (cases rule: statement_cases) auto
  show "same_conn d d1" using same_conn_snd [of d f] assms(1) by simp
  show "quiet d \<Longrightarrow> res = Inr ()" using statement_quiet [of d f] assms by simp
qed

lemma rd_Save_law:
  assumes "rd_ok d" "savable (rd_links d) a u" "rd_Save d a u = (e, d')"
  shows "rd_ok d'" "rd_links d' = (rd_links d)(a \<mapsto> u) \<or> e \<noteq> None \<and> rd_links d' = rd_links d"
    and "same_conn d d'" "quiet d \<Longrightarrow> e = None"
proof -
  have wf: "wf_keys (tabs d)" and sv: "savable (key_links (tabs d)) a u"
    using assms(1,2) by (simp_all add: rd_ok_def rd_links_def)
  obtain res d1 where s: "statement (hget (abvKey a) ''url'') d = (res, d1)" by (metis prod.exhaust)
  note r = rd_read [OF s rd_reads(1)]
  have check: "rd_Save_check d a u = (None, d1)"
    using s r(3) sv by (auto simp: rd_Save_check_def hget_abv [OF wf] savable_def split: sum.splits option.splits)
  obtain w d2 where s2: "statement (tx [hset (abvKey a) [(''url'', u), (''hits'', ''0'')], set_key (urlKey u) a]) d1 = (w, d2)"
    by (metis prod.exhaust)
  note t = rd_write [OF s2, of "saved a u (tabs d)", unfolded r(1), OF tx_save [OF wf]]
  have d': "d' = d2" "e = (case w of Inl m \<Rightarrow> Some (''couldn't store ('' @ a @ '', '' @ u @ ''): '' @ m) | Inr _ \<Rightarrow> None)"
    using assms(3) check s2 by (auto simp: rd_Save_def rd_Save_write_def split: sum.splits)
  show "rd_ok d'" using t(1) wf wf_saved [OF wf sv] by (auto simp: rd_ok_def d')
  show "rd_links d' = (rd_links d)(a \<mapsto> u) \<or> e \<noteq> None \<and> rd_links d' = rd_links d"
    using t(1) key_links_saved [OF wf] by (auto simp: rd_links_def d')
  show "same_conn d d'" using same_conn_trans [OF r(2) t(2)] by (simp add: d')
  show "quiet d \<Longrightarrow> e = None" using t(3) quiet_conn [OF r(2)] by (simp add: d')
qed

text \<open>Deleting the pair of a link.\<close>

lemma rd_removed:
  assumes "rd_ok d" "tabs d1 = tabs d" "same_conn d d1" "rd_links d a = Some u"
    and "statement (tx [del (abvKey a), del (urlKey u), del (dailyKey a)]) d1 = (done, d2)"
  shows "rd_ok d2" "rd_links d2 = (rd_links d)(a := None) \<or> (\<exists>e. done = Inl e) \<and> rd_links d2 = rd_links d"
    and "same_conn d d2" "quiet d \<Longrightarrow> done = Inr ()"
proof -
  have wf: "wf_keys (tabs d)" and l: "key_links (tabs d) a = Some u" using assms(1,4) by (simp_all add: rd_ok_def rd_links_def)
  note t = rd_write [OF assms(5) tx_delete, unfolded assms(2)]
  show "rd_ok d2" using t(1) wf wf_removed [OF wf l] by (auto simp: rd_ok_def)
  show "rd_links d2 = (rd_links d)(a := None) \<or> (\<exists>e. done = Inl e) \<and> rd_links d2 = rd_links d"
    using t(1) by (auto simp: rd_links_def key_links_removed)
  show "same_conn d d2" using same_conn_trans [OF assms(3) t(2)] .
  show "quiet d \<Longrightarrow> done = Inr ()" using t(3) quiet_conn [OF assms(3)] by simp
qed

lemma rd_DeleteAbv_law:
  assumes "rd_ok d" "rd_DeleteAbv d a = (e, d')"
  shows "rd_ok d'" "rd_links d' = (rd_links d)(a := None) \<or> e \<noteq> None \<and> rd_links d' = rd_links d"
    and "same_conn d d'" "quiet d \<Longrightarrow> e = None"
proof -
  have wf: "wf_keys (tabs d)" using assms(1) by (simp add: rd_ok_def)
  obtain res d1 where s: "statement (hget (abvKey a) ''url'') d = (res, d1)" by (metis prod.exhaust)
  note r = rd_read [OF s rd_reads(1), unfolded hget_abv [OF wf] fst_conv rd_links_def [symmetric]]
  have ok1: "rd_ok d1" "rd_links d1 = rd_links d" using assms(1) r(1) by (simp_all add: rd_ok_def rd_links_def)
  have "rd_ok d' \<and> (rd_links d' = (rd_links d)(a := None) \<or> e \<noteq> None \<and> rd_links d' = rd_links d) \<and> same_conn d d' \<and>
    (quiet d \<longrightarrow> e = None)"
  proof (cases res)
    case (Inl m)
    with assms(2) s r(2,4) ok1 show ?thesis by (auto simp: rd_DeleteAbv_def)
  next
    case (Inr found)
    with r(3) have f: "found = rd_links d a" by simp
    show ?thesis
    proof (cases "rd_links d a")
      case None
      with assms(2) s r(2) ok1 Inr f show ?thesis by (auto simp: rd_DeleteAbv_def fun_eq_iff)
    next
      case (Some u)
      obtain w d2 where s2: "statement (tx [del (abvKey a), del (urlKey u), del (dailyKey a)]) d1 = (w, d2)" by (metis prod.exhaust)
      have "d' = d2" "e = (case w of Inl m \<Rightarrow> Some (''couldn't delete abbreviation '' @ a @ '': '' @ m) | Inr _ \<Rightarrow> None)"
        using assms(2) s s2 Inr f Some by (auto simp: rd_DeleteAbv_def split: sum.splits)
      with rd_removed [OF assms(1) r(1,2) Some s2] show ?thesis by auto
    qed
  qed
  then show "rd_ok d'" "rd_links d' = (rd_links d)(a := None) \<or> e \<noteq> None \<and> rd_links d' = rd_links d"
    "same_conn d d'" "quiet d \<Longrightarrow> e = None" by simp_all
qed


lemma rd_DeleteUrl_law:
  assumes "rd_ok d" "rd_DeleteUrl d u = (e, d')"
  shows "rd_ok d'" "rd_links d' = drop_url (rd_links d) u \<or> e \<noteq> None \<and> rd_links d' = rd_links d"
    and "same_conn d d'" "quiet d \<Longrightarrow> e = None"
proof -
  have wf: "wf_keys (tabs d)" using assms(1) by (simp add: rd_ok_def)
  obtain res d1 where s: "statement (get (urlKey u)) d = (res, d1)" by (metis prod.exhaust)
  note r = rd_read [OF s rd_reads(2)]
  have ok1: "rd_ok d1" "rd_links d1 = rd_links d" using assms(1) r(1) by (simp_all add: rd_ok_def rd_links_def)
  have "rd_ok d' \<and> (rd_links d' = drop_url (rd_links d) u \<or> e \<noteq> None \<and> rd_links d' = rd_links d) \<and> same_conn d d' \<and>
    (quiet d \<longrightarrow> e = None)"
  proof (cases res)
    case (Inl m)
    moreover have "\<not> quiet d"
      using r(4) Inl get_url [OF wf, of u] by (metis Inl_Inr_False fst_conv)
    ultimately show ?thesis using assms(2) s r(2) ok1 by (auto simp: rd_DeleteUrl_def)
  next
    case (Inr found)
    from wf show ?thesis
    proof (cases rule: get_url [where u = u])
      case none
      then have "drop_url (rd_links d) u = rd_links d" by (auto simp: drop_url_def rd_links_def ran_def fun_eq_iff)
      with none assms(2) s r(2,3) ok1 Inr show ?thesis by (auto simp: rd_DeleteUrl_def)
    next
      case (abv a)
      then have l: "rd_links d a = Some u" and f: "found = Some a" using r(3) Inr by (simp_all add: rd_links_def)
      have "rd_links d b = Some u \<longleftrightarrow> b = a" for b
        using l wf_keys_url [OF wf, of b u] wf_keys_url [OF wf, of a u] by (auto simp: rd_links_def)
      then have drop: "drop_url (rd_links d) u = (rd_links d)(a := None)" by (auto simp: drop_url_def fun_eq_iff)
      obtain w d2 where s2: "statement (tx [del (abvKey a), del (urlKey u), del (dailyKey a)]) d1 = (w, d2)" by (metis prod.exhaust)
      have "d' = d2" "e = (case w of Inl m \<Rightarrow> Some (''couldn't delete URL '' @ u @ '': '' @ m) | Inr _ \<Rightarrow> None)"
        using assms(2) s s2 Inr f by (auto simp: rd_DeleteUrl_def split: sum.splits)
      with rd_removed [OF assms(1) r(1,2) l s2] drop show ?thesis by auto
    qed
  qed
  then show "rd_ok d'" "rd_links d' = drop_url (rd_links d) u \<or> e \<noteq> None \<and> rd_links d' = rd_links d"
    "same_conn d d'" "quiet d \<Longrightarrow> e = None" by simp_all
qed

lemma rd_IsLikelyOk_law: "rd_IsLikelyOk d = (b, d') \<Longrightarrow> tabs d' = tabs d \<and> same_conn d d'"
  using rd_read(1,2) [of rd_ping d] by (auto simp: rd_IsLikelyOk_def split: prod.splits sum.splits)

lemma rd_kept: "rd_ok d \<Longrightarrow> tabs d' = tabs d \<Longrightarrow> rd_ok d' \<and> rd_links d' = rd_links d"
  by (simp add: rd_ok_def rd_links_def)

lemma rd_works_kept: "rd_works d \<Longrightarrow> same_conn d d' \<Longrightarrow> rd_ok d' \<Longrightarrow> rd_works d'"
  using quiet_conn [of d d'] by (simp add: rd_works_def)

lemma rd_worksD: "rd_works d \<Longrightarrow> rd_ok d" "rd_works d \<Longrightarrow> quiet d"
  by (simp_all add: rd_works_def)

lemma rd_nonempty: "rd_ok d \<Longrightarrow> rd_links d a = Some u \<Longrightarrow> a \<noteq> '''' \<and> u \<noteq> ''''"
  using wf_keys_hash [of "tabs d" a] by (auto simp: rd_ok_def rd_links_def)

lemma rd_inj: "rd_ok d \<Longrightarrow> rd_links d a = Some u \<Longrightarrow> rd_links d b = Some u \<Longrightarrow> a = b"
  using wf_keys_url [of "tabs d" a u] wf_keys_url [of "tabs d" b u] by (simp add: rd_ok_def rd_links_def)

text \<open>Under every pattern of failures, one call after the other.\<close>

interpretation rd: url_dao redis_dao rd_ok rd_links "\<lambda>_ _. True"
proof (unfold_locales, goal_cases)
  case (1 s a u)
  then show ?case by (rule rd_nonempty)
next
  case (2 s a u b)
  then show ?case by (rule rd_inj)
next
  case (3 s a v e s')
  then show ?case using rd_GetUrl_law [OF 3(1), of a v e s'] rd_kept [OF 3(1), of s'] by simp
next
  case (4 s u v e s')
  then show ?case using rd_GetAbv_law [OF 4(1), of u v e s'] rd_kept [OF 4(1), of s'] by simp
next
  case (5 s a u e s')
  then show ?case using rd_Save_law [OF 5(1,3), of e s'] by simp
next
  case (6 s a e s')
  then show ?case using rd_DeleteAbv_law [OF 6(1), of a e s'] by simp
next
  case (7 s u e s')
  then show ?case using rd_DeleteUrl_law [OF 7(1), of u e s'] by simp
next
  case (8 s a st e s')
  then show ?case using rd_GetStats_law [OF 8(1), of a st e s'] rd_kept [OF 8(1), of s'] by simp
next
  case (9 s ok s')
  then show ?case using rd_IsLikelyOk_law [of s ok s'] rd_kept [OF 9(1), of s'] by simp
qed

text \<open>On a connection that works no call fails.\<close>

interpretation rdq: reliable_dao redis_dao rd_works rd_links "\<lambda>_ _. True"
proof (unfold_locales, goal_cases)
  case (1 s a u)
  then show ?case using rd_nonempty rd_worksD(1) by blast
next
  case (2 s a u b)
  then show ?case using rd_inj rd_worksD(1) by blast
next
  case (3 s a v e s')
  then show ?case using rd.getUrl [OF rd_worksD(1), of s a v e s'] rd_works_kept rd_GetUrl_law(2) [OF rd_worksD(1), of s a v e s'] by simp
next
  case (4 s u v e s')
  then show ?case using rd.getAbv [OF rd_worksD(1), of s u v e s'] rd_works_kept rd_GetAbv_law(2) [OF rd_worksD(1), of s u v e s'] by simp
next
  case (5 s a u e s')
  then show ?case using rd_Save_law [OF rd_worksD(1), of s a u e s'] rd_works_kept [OF 5(1)] by simp
next
  case (6 s a e s')
  then show ?case using rd_DeleteAbv_law [OF rd_worksD(1), of s a e s'] rd_works_kept [OF 6(1)] by simp
next
  case (7 s u e s')
  then show ?case using rd_DeleteUrl_law [OF rd_worksD(1), of s u e s'] rd_works_kept [OF 7(1)] by simp
next
  case (8 s a st e s')
  then show ?case using rd.getStats [OF rd_worksD(1), of s a st e s'] rd_works_kept rd_GetStats_law(2) [OF rd_worksD(1), of s a st e s'] by simp
next
  case (9 s ok s')
  then show ?case using rd.isLikelyOk [OF rd_worksD(1), of s ok s'] rd_works_kept rd_IsLikelyOk_law [of s ok s'] by simp
next
  case (10 s a v e s')
  then show ?case using rd_GetUrl_law(4) [OF rd_worksD(1), of s a v e s'] rd_worksD(2) by simp
next
  case (11 s u v e s')
  then show ?case using rd_GetAbv_law(4) [OF rd_worksD(1), of s u v e s'] rd_worksD(2) by simp
next
  case (12 s a u e s')
  then show ?case using rd_Save_law(4) [OF rd_worksD(1), of s a u e s'] rd_worksD(2) by simp
next
  case (13 s a e s')
  then show ?case using rd_DeleteAbv_law(4) [OF rd_worksD(1), of s a e s'] rd_worksD(2) by simp
next
  case (14 s a st e s')
  then show ?case using rd_GetStats_law(4) [OF rd_worksD(1), of s a st e s'] rd_worksD(2) by simp
qed

end
