(* ===== verification/MongoDB.thy ===== *)
theory MongoDB
  imports Connection
begin

text \<open>
  The MongoDB store (src/dao/mongodao.go) over a collection of documents with its two unique indexes,
  with the operations its methods send. The goroutine of a look-up is one update, sent at any later
  time (\<open>mo_job\<close>). Its update document has the operator \<open>$inc\<close> twice, which the format of documents
  does not define: what a server makes of it is the parameter \<open>reading\<close>. A hit count that outgrows
  32 bits is a longer number in the document, which does not decode into the field \<open>Hits\<close>. Log
  lines are left out.
\<close>

section \<open>The collection\<close>

record doc =
  m_abv :: string
  m_url :: string
  m_hits :: int
  m_last :: "gotime option"
  m_daily :: days

record collection =
  docs :: "doc list"
  abv_ndx :: bool
  url_ndx :: bool

type_synonym 'r op = "(collection, 'r) cmd"

text \<open>An index is made unless two documents share a value; once it is there, making it is no error.\<close>

definition create_abv_ndx :: "unit op" where
  "create_abv_ndx c =
     (if distinct (map m_abv (docs c)) then (Inr (), c\<lparr>abv_ndx := True\<rparr>)
      else (Inl ''E11000 duplicate key error'', c))"

definition create_url_ndx :: "unit op" where
  "create_url_ndx c =
     (if distinct (map m_url (docs c)) then (Inr (), c\<lparr>url_ndx := True\<rparr>)
      else (Inl ''E11000 duplicate key error'', c))"

definition insert_one :: "string \<Rightarrow> string \<Rightarrow> unit op" where
  "insert_one abv url c =
     (if abv_ndx c \<and> abv \<in> m_abv ` set (docs c) \<or> url_ndx c \<and> url \<in> m_url ` set (docs c)
      then (Inl ''E11000 duplicate key error'', c)
      else (Inr (), c\<lparr>docs := docs c @ [\<lparr>m_abv = abv, m_url = url, m_hits = 0, m_last = None, m_daily = None\<rparr>]\<rparr>))"

text \<open>\<open>DeleteOne\<close> removes the first document that matches.\<close>

fun delete_first :: "(doc \<Rightarrow> bool) \<Rightarrow> doc list \<Rightarrow> doc list" where
  "delete_first P [] = []"
| "delete_first P (x # xs) = (if P x then xs else x # delete_first P xs)"

definition delete_one :: "(doc \<Rightarrow> bool) \<Rightarrow> unit op" where
  "delete_one P c = (Inr (), c\<lparr>docs := delete_first P (docs c)\<rparr>)"

definition find_one :: "(doc \<Rightarrow> bool) \<Rightarrow> doc option op" where
  "find_one P c = (Inr (find P (docs c)), c)"

definition mo_ping :: "unit op" where
  "mo_ping c = (Inr (), c)"

text \<open>
  \<open>UpdateOne\<close> with the hit, the time and the hit of the day. The server may refuse the document, or
  apply the first \<open>$inc\<close>, the second, or both.
\<close>

datatype inc_reading = Refused | Applied bool bool

fun hit_doc :: "inc_reading \<Rightarrow> gotime \<Rightarrow> string \<Rightarrow> doc \<Rightarrow> doc" where
  "hit_doc Refused now date x = x"
| "hit_doc (Applied hits days) now date x =
     x\<lparr>m_hits := (if hits then m_hits x + 1 else m_hits x), m_last := Some now,
       m_daily := (if days
                   then (let m = (case m_daily x of None \<Rightarrow> Map.empty | Some m \<Rightarrow> m)
                         in Some (m(date \<mapsto> (case m date of None \<Rightarrow> 0 | Some n \<Rightarrow> n) + 1)))
                   else m_daily x)\<rparr>"

fun update_first :: "(doc \<Rightarrow> bool) \<Rightarrow> (doc \<Rightarrow> doc) \<Rightarrow> doc list \<Rightarrow> doc list" where
  "update_first P f [] = []"
| "update_first P f (x # xs) = (if P x then f x # xs else x # update_first P f xs)"

definition update_one :: "(doc \<Rightarrow> bool) \<Rightarrow> (doc \<Rightarrow> doc) \<Rightarrow> unit op" where
  "update_one P f c = (Inr (), c\<lparr>docs := update_first P f (docs c)\<rparr>)"

text \<open>\<open>Decode\<close> into the struct.\<close>

definition decode :: "doc \<Rightarrow> days ShortUrl option" where
  "decode x =
     (if - (2 ^ 31) \<le> m_hits x \<and> m_hits x < 2 ^ 31
      then Some \<lparr>Abbreviation = m_abv x, Url = m_url x, Hits = of_int (m_hits x),
                 LastAccess = (case m_last x of None \<Rightarrow> zero_time | Some t \<Rightarrow> t), DailyHits = m_daily x\<rparr>
      else None)"

section \<open>Methods\<close>

text \<open>A pending goroutine is the abbreviation it counts a hit of.\<close>

type_synonym mongodb = "(collection, string) conn"

record mongo_server =
  stored :: collection
  mode :: "nat \<Rightarrow> outcome"
  mongo_time :: wall_clock

definition mo_connect :: "mongo_server \<Rightarrow> mongodb" where
  "mo_connect s =
     \<lparr>tabs = stored s, net = mode s, sent = 0, closed = False, closed_msg = ''client is disconnected'',
      dup_msg = '''', sclock = mongo_time s, jobs = []\<rparr>"

text \<open>
  \<open>Connect\<close> is the driver's; \<open>Inl\<close> is the end of the process. The indexes are made by the first call
  in the process only (\<open>once\<close>).
\<close>

definition CreateMongoDB :: "(string \<Rightarrow> string + mongo_server) \<Rightarrow> bool \<Rightarrow> string \<Rightarrow> (string + mongodb) \<times> bool" where
  "CreateMongoDB Connect once uri =
     (case Connect uri of
        Inl e \<Rightarrow> (Inl (''Couldn't create client: '' @ e), once)
      | Inr server \<Rightarrow>
          (let d = mo_connect server
           in if once then (Inr d, True)
              else (let (_, d1) = statement create_abv_ndx d;
                        (_, d2) = statement create_url_ndx d1
                    in (Inr d2, True))))"

definition mo_Cleanup :: "mongodb \<Rightarrow> mongodb" where
  "mo_Cleanup d = d\<lparr>closed := True\<rparr>"

definition mo_IsLikelyOk :: "mongodb \<Rightarrow> bool \<times> mongodb" where
  "mo_IsLikelyOk d =
     (let (res, d1) = statement mo_ping d
      in case res of Inl _ \<Rightarrow> (False, d1) | Inr _ \<Rightarrow> (True, d1))"

definition mo_Save :: "mongodb \<Rightarrow> string \<Rightarrow> string \<Rightarrow> err \<times> mongodb" where
  "mo_Save d abv url =
     (let (res, d1) = statement (insert_one abv url) d
      in case res of
           Inl e \<Rightarrow>
             (if \<not> contains e ''E11000 duplicate''
              then (Some (''couldn't store ('' @ abv @ '', '' @ url @ ''): '' @ e), d1)
              else (None, d1))
         | Inr _ \<Rightarrow> (None, d1))"

definition mo_DeleteAbv :: "mongodb \<Rightarrow> string \<Rightarrow> err \<times> mongodb" where
  "mo_DeleteAbv d abv =
     (let (res, d1) = statement (delete_one (\<lambda>x. m_abv x = abv)) d
      in case res of
           Inl e \<Rightarrow> (Some (''couldn't delete Abbreviation '' @ abv @ '': '' @ e), d1)
         | Inr _ \<Rightarrow> (None, d1))"

definition mo_DeleteUrl :: "mongodb \<Rightarrow> string \<Rightarrow> err \<times> mongodb" where
  "mo_DeleteUrl d url =
     (let (res, d1) = statement (delete_one (\<lambda>x. m_url x = url)) d
      in case res of
           Inl e \<Rightarrow> (Some (''couldn't delete Url '' @ url @ '': '' @ e), d1)
         | Inr _ \<Rightarrow> (None, d1))"

text \<open>Any error of \<open>FindOne\<close>, no document as well as no connection, is answered as no link.\<close>

definition mo_GetUrl :: "mongodb \<Rightarrow> string \<Rightarrow> (string \<times> err) \<times> mongodb" where
  "mo_GetUrl d abv =
     (let (res, d1) = statement (find_one (\<lambda>x. m_abv x = abv)) d
      in case res of
           Inr (Some x) \<Rightarrow>
             (case decode x of
                None \<Rightarrow> (('''', Some (''error decoding return '' @ abv @ '': <nil>'')), d1)
              | Some data \<Rightarrow> ((Url data, None), d1\<lparr>jobs := jobs d1 @ [abv]\<rparr>))
         | _ \<Rightarrow> (('''', None), d1))"

definition mo_GetStats :: "mongodb \<Rightarrow> string \<Rightarrow> (days ShortUrl \<times> err) \<times> mongodb" where
  "mo_GetStats d abv =
     (let (res, d1) = statement (find_one (\<lambda>x. m_abv x = abv)) d
      in case res of
           Inr (Some x) \<Rightarrow>
             (case decode x of
                None \<Rightarrow> ((zero_ShortUrl None, Some (''error decoding return '' @ abv @ '': <nil>'')), d1)
              | Some data \<Rightarrow> ((data, None), d1))
         | _ \<Rightarrow> ((zero_ShortUrl None, None), d1))"

definition mo_GetAbv :: "mongodb \<Rightarrow> string \<Rightarrow> (string \<times> err) \<times> mongodb" where
  "mo_GetAbv d url =
     (let (res, d1) = statement (find_one (\<lambda>x. m_url x = url)) d
      in case res of
           Inr (Some x) \<Rightarrow>
             (case decode x of
                None \<Rightarrow> (('''', Some (''error decoding return '' @ url @ '': <nil>'')), d1)
              | Some data \<Rightarrow> ((Abbreviation data, None), d1))
         | _ \<Rightarrow> (('''', None), d1))"

text \<open>The \<open>k\<close>-th pending goroutine; the day is the program's, the time the server's.\<close>

definition mo_job :: "inc_reading \<Rightarrow> nat \<Rightarrow> mongodb \<Rightarrow> mongodb" where
  "mo_job reading k d =
     (if k < length (jobs d) then
        (let abv = jobs d ! k;
             (date, c1) = Date (sclock d);
             (now, c2) = time_Now c1;
             d1 = d\<lparr>sclock := c2, jobs := take k (jobs d) @ drop (Suc k) (jobs d)\<rparr>
         in snd (statement (update_one (\<lambda>x. m_abv x = abv) (hit_doc reading now date)) d1))
      else d)"

definition mongo_dao :: "(mongodb, days) ShortUrlDao" where
  "mongo_dao =
     \<lparr>IsLikelyOk = mo_IsLikelyOk, Save = mo_Save, DeleteAbv = mo_DeleteAbv, DeleteUrl = mo_DeleteUrl,
      GetUrl = mo_GetUrl, GetAbv = mo_GetAbv, GetStats = mo_GetStats, Cleanup = mo_Cleanup\<rparr>"

lemma mongo_dao_simps [simp]:
  "IsLikelyOk mongo_dao = mo_IsLikelyOk" "Save mongo_dao = mo_Save"
  "DeleteAbv mongo_dao = mo_DeleteAbv" "DeleteUrl mongo_dao = mo_DeleteUrl"
  "GetUrl mongo_dao = mo_GetUrl" "GetAbv mongo_dao = mo_GetAbv"
  "GetStats mongo_dao = mo_GetStats" "Cleanup mongo_dao = mo_Cleanup"
  by (simp_all add: mongo_dao_def)


section \<open>The contract\<close>

text \<open>
  Both indexes are there and say what they promise, and no key is empty. The contract is kept on a
  connection that works; on another one a look-up that fails is answered as no link.
\<close>

definition coll_ok :: "collection \<Rightarrow> bool" where
  "coll_ok c \<longleftrightarrow> abv_ndx c \<and> url_ndx c \<and> distinct (map m_abv (docs c)) \<and> distinct (map m_url (docs c)) \<and>
     (\<forall>x \<in> set (docs c). m_abv x \<noteq> '''' \<and> m_url x \<noteq> '''')"

definition coll_links :: "collection \<Rightarrow> string \<rightharpoonup> string" where
  "coll_links c = map_of (map (\<lambda>x. (m_abv x, m_url x)) (docs c))"

definition hits_decode :: "collection \<Rightarrow> bool" where
  "hits_decode c \<longleftrightarrow> (\<forall>x \<in> set (docs c). - (2 ^ 31) \<le> m_hits x \<and> m_hits x < 2 ^ 31)"

definition mo_ok :: "mongodb \<Rightarrow> bool" where
  "mo_ok d \<longleftrightarrow> coll_ok (tabs d) \<and> quiet d"

definition mo_works :: "mongodb \<Rightarrow> bool" where
  "mo_works d \<longleftrightarrow> mo_ok d \<and> hits_decode (tabs d)"

definition mo_links :: "mongodb \<Rightarrow> string \<rightharpoonup> string" where
  "mo_links d = coll_links (tabs d)"

lemma coll_links_Some:
  assumes "coll_ok c" shows "coll_links c a = Some u \<longleftrightarrow> (\<exists>x \<in> set (docs c). m_abv x = a \<and> m_url x = u)"
proof -
  have "distinct (map fst (map (\<lambda>x. (m_abv x, m_url x)) (docs c)))" using assms by (simp add: coll_ok_def comp_def)
  from map_of_eq_Some_iff [OF this] show ?thesis by (auto simp: coll_links_def)
qed

lemma coll_links_None: "coll_links c a = None \<longleftrightarrow> a \<notin> m_abv ` set (docs c)"
  by (auto simp: coll_links_def map_of_eq_None_iff image_iff)

lemma coll_links_ran: "coll_ok c \<Longrightarrow> u \<in> ran (coll_links c) \<longleftrightarrow> u \<in> m_url ` set (docs c)"
  by (auto simp: ran_def coll_links_Some)

lemma distinct_map_unique: "distinct (map f xs) \<Longrightarrow> x \<in> set xs \<Longrightarrow> y \<in> set xs \<Longrightarrow> f x = f y \<Longrightarrow> x = y"
  by (auto simp: distinct_map dest: inj_onD)

lemma taken:
  "coll_ok c \<Longrightarrow> coll_links c a \<noteq> None \<or> u \<in> ran (coll_links c) \<longleftrightarrow>
     a \<in> m_abv ` set (docs c) \<or> u \<in> m_url ` set (docs c)"
  by (simp add: coll_links_None coll_links_ran del: not_None_eq)

text \<open>The document a look-up finds.\<close>

lemma find_abv_doc:
  assumes "coll_ok c"
  obtains (none) "find (\<lambda>x. m_abv x = a) (docs c) = None" "coll_links c a = None"
  | (one) x where "find (\<lambda>x. m_abv x = a) (docs c) = Some x" "x \<in> set (docs c)" "m_abv x = a" "coll_links c a = Some (m_url x)"
proof (cases "find (\<lambda>x. m_abv x = a) (docs c)")
  case None
  then show ?thesis by (intro none) (auto simp: find_None_iff coll_links_None)
next
  case (Some x)
  then have "x \<in> set (docs c)" "m_abv x = a" by (auto simp: find_Some_iff)
  then show ?thesis using Some by (intro one [of x]) (auto simp: coll_links_Some [OF assms])
qed

lemma find_url_doc:
  assumes "coll_ok c"
  obtains (none) "find (\<lambda>x. m_url x = u) (docs c) = None" "u \<notin> ran (coll_links c)"
  | (one) x where "find (\<lambda>x. m_url x = u) (docs c) = Some x" "x \<in> set (docs c)" "m_url x = u" "coll_links c (m_abv x) = Some u"
proof (cases "find (\<lambda>x. m_url x = u) (docs c)")
  case None
  then show ?thesis by (intro none) (auto simp: find_None_iff coll_links_ran [OF assms])
next
  case (Some x)
  then have "x \<in> set (docs c)" "m_url x = u" by (auto simp: find_Some_iff)
  then show ?thesis using Some by (intro one [of x]) (auto simp: coll_links_Some [OF assms])
qed

text \<open>Removing the one document of a key.\<close>

lemma delete_first_filter: "distinct (map f xs) \<Longrightarrow> delete_first (\<lambda>x. f x = k) xs = filter (\<lambda>x. f x \<noteq> k) xs"
proof (induction xs)
  case (Cons x xs)
  have "f x = k \<Longrightarrow> filter (\<lambda>x. f x \<noteq> k) xs = xs" using Cons.prems by (auto simp: filter_id_conv image_iff)
  with Cons show ?case by auto
qed simp

lemma coll_ok_filter: "coll_ok c \<Longrightarrow> coll_ok (c\<lparr>docs := filter P (docs c)\<rparr>)"
  by (simp add: coll_ok_def distinct_map_filter)

lemma coll_links_filter:
  assumes "coll_ok c"
  shows "coll_links (c\<lparr>docs := filter P (docs c)\<rparr>) a = Some u \<longleftrightarrow>
    (\<exists>x \<in> set (docs c). P x \<and> m_abv x = a \<and> m_url x = u)"
  using coll_links_Some [OF coll_ok_filter [OF assms, of P]] by auto

lemma delete_abv_links:
  assumes "coll_ok c"
  shows "snd (delete_one (\<lambda>x. m_abv x = a) c) = c\<lparr>docs := filter (\<lambda>x. m_abv x \<noteq> a) (docs c)\<rparr>"
    and "coll_links (c\<lparr>docs := filter (\<lambda>x. m_abv x \<noteq> a) (docs c)\<rparr>) = (coll_links c)(a := None)"
proof -
  show "snd (delete_one (\<lambda>x. m_abv x = a) c) = c\<lparr>docs := filter (\<lambda>x. m_abv x \<noteq> a) (docs c)\<rparr>"
    using assms by (simp add: delete_one_def coll_ok_def delete_first_filter)
  have "coll_links (c\<lparr>docs := filter (\<lambda>x. m_abv x \<noteq> a) (docs c)\<rparr>) b = Some u \<longleftrightarrow> ((coll_links c)(a := None)) b = Some u" for b u
    using coll_links_filter [OF assms, of "\<lambda>x. m_abv x \<noteq> a" b u] by (auto simp: coll_links_Some [OF assms])
  then show "coll_links (c\<lparr>docs := filter (\<lambda>x. m_abv x \<noteq> a) (docs c)\<rparr>) = (coll_links c)(a := None)"
    by (rule same_links)
qed

lemma delete_url_links:
  assumes "coll_ok c"
  shows "snd (delete_one (\<lambda>x. m_url x = u) c) = c\<lparr>docs := filter (\<lambda>x. m_url x \<noteq> u) (docs c)\<rparr>"
    and "coll_links (c\<lparr>docs := filter (\<lambda>x. m_url x \<noteq> u) (docs c)\<rparr>) = drop_url (coll_links c) u"
proof -
  show "snd (delete_one (\<lambda>x. m_url x = u) c) = c\<lparr>docs := filter (\<lambda>x. m_url x \<noteq> u) (docs c)\<rparr>"
    using assms by (simp add: delete_one_def coll_ok_def delete_first_filter)
  have "coll_links (c\<lparr>docs := filter (\<lambda>x. m_url x \<noteq> u) (docs c)\<rparr>) b = Some v \<longleftrightarrow> drop_url (coll_links c) u b = Some v" for b v
    unfolding coll_links_filter [OF assms] drop_url_Some coll_links_Some [OF assms] by auto
  then show "coll_links (c\<lparr>docs := filter (\<lambda>x. m_url x \<noteq> u) (docs c)\<rparr>) = drop_url (coll_links c) u"
    by (rule same_links)
qed


text \<open>A command on a connection that works.\<close>

lemma mo_sent:
  assumes "mo_ok d" "statement f d = (res, d1)"
  shows "res = fst (f (tabs d))" "tabs d1 = snd (f (tabs d))" "quiet d1" "jobs d1 = jobs d"
  using statement_quiet [of d f] assms by (auto simp: mo_ok_def quiet_def)

lemma decodes: "hits_decode c \<Longrightarrow> x \<in> set (docs c) \<Longrightarrow> decode x \<noteq> None"
  by (simp add: hits_decode_def decode_def)

lemma decode_Some: "decode x = Some y \<Longrightarrow> Abbreviation y = m_abv x \<and> Url y = m_url x"
  by (auto simp: decode_def split: if_splits)

lemma mo_nonempty: "mo_ok d \<Longrightarrow> mo_links d a = Some u \<Longrightarrow> a \<noteq> '''' \<and> u \<noteq> ''''"
  by (auto simp: mo_ok_def mo_links_def coll_links_Some) (auto simp: coll_ok_def)

lemma mo_inj: "mo_ok d \<Longrightarrow> mo_links d a = Some u \<Longrightarrow> mo_links d b = Some u \<Longrightarrow> a = b"
  by (auto simp: mo_ok_def mo_links_def coll_links_Some) (auto simp: coll_ok_def dest: distinct_map_unique [of m_url])

lemma mo_kept:
  "mo_ok d \<Longrightarrow> tabs d' = tabs d \<Longrightarrow> quiet d' \<Longrightarrow> mo_ok d' \<and> mo_links d' = mo_links d \<and> (mo_works d \<longrightarrow> mo_works d')"
  by (simp add: mo_ok_def mo_works_def mo_links_def)

lemma mo_GetUrl_law:
  assumes "mo_ok d" "mo_GetUrl d a = ((v, e), d')"
  shows "tabs d' = tabs d" "quiet d'" "v = (if e = None then url_or_empty (mo_links d) a else '''')"
    and "mo_works d \<Longrightarrow> e = None"
proof -
  obtain res d1 where s: "statement (find_one (\<lambda>x. m_abv x = a)) d = (res, d1)" by (metis prod.exhaust)
  note r = mo_sent [OF assms(1) s]
  have c: "coll_ok (tabs d)" using assms(1) by (simp add: mo_ok_def)
  have "tabs d' = tabs d \<and> quiet d' \<and> v = (if e = None then url_or_empty (mo_links d) a else '''') \<and> (mo_works d \<longrightarrow> e = None)"
    using c
  proof (cases rule: find_abv_doc [where a = a])
    case none
    with assms(2) s r show ?thesis by (auto simp: mo_GetUrl_def find_one_def mo_links_def)
  next
    case (one x)
    with assms(2) s r decodes [of "tabs d" x] decode_Some [of x] show ?thesis
      by (cases "decode x") (auto simp: mo_GetUrl_def find_one_def mo_links_def mo_works_def quiet_def)
  qed
  then show "tabs d' = tabs d" "quiet d'" "v = (if e = None then url_or_empty (mo_links d) a else '''')"
    "mo_works d \<Longrightarrow> e = None" by simp_all
qed

lemma mo_GetAbv_law:
  assumes "mo_ok d" "mo_GetAbv d u = ((v, e), d')"
  shows "tabs d' = tabs d" "quiet d'"
    "if e = None then (if v = '''' then u \<notin> ran (mo_links d) else mo_links d v = Some u) else v = ''''"
    and "mo_works d \<Longrightarrow> e = None"
proof -
  obtain res d1 where s: "statement (find_one (\<lambda>x. m_url x = u)) d = (res, d1)" by (metis prod.exhaust)
  note r = mo_sent [OF assms(1) s]
  have c: "coll_ok (tabs d)" using assms(1) by (simp add: mo_ok_def)
  have "tabs d' = tabs d \<and> quiet d' \<and>
    (if e = None then (if v = '''' then u \<notin> ran (mo_links d) else mo_links d v = Some u) else v = '''') \<and> (mo_works d \<longrightarrow> e = None)"
    using c
  proof (cases rule: find_url_doc [where u = u])
    case none
    with assms(2) s r show ?thesis by (auto simp: mo_GetAbv_def find_one_def mo_links_def)
  next
    case (one x)
    moreover have "m_abv x \<noteq> ''''" using mo_nonempty [OF assms(1), of "m_abv x" u] one by (simp add: mo_links_def)
    ultimately show ?thesis using assms(2) s r decodes [of "tabs d" x] decode_Some [of x]
      by (cases "decode x") (auto simp: mo_GetAbv_def find_one_def mo_links_def mo_works_def)
  qed
  then show "tabs d' = tabs d" "quiet d'"
    "if e = None then (if v = '''' then u \<notin> ran (mo_links d) else mo_links d v = Some u) else v = ''''"
    "mo_works d \<Longrightarrow> e = None" by simp_all
qed

lemma mo_GetStats_law:
  assumes "mo_ok d" "mo_GetStats d a = ((st, e), d')"
  shows "tabs d' = tabs d" "quiet d'"
    and "e = None \<longrightarrow> (case mo_links d a of None \<Rightarrow> Abbreviation st = '''' | Some u \<Rightarrow> Abbreviation st = a \<and> Url st = u)"
    and "mo_works d \<Longrightarrow> e = None"
proof -
  obtain res d1 where s: "statement (find_one (\<lambda>x. m_abv x = a)) d = (res, d1)" by (metis prod.exhaust)
  note r = mo_sent [OF assms(1) s]
  have c: "coll_ok (tabs d)" using assms(1) by (simp add: mo_ok_def)
  have "tabs d' = tabs d \<and> quiet d' \<and>
    (e = None \<longrightarrow> (case mo_links d a of None \<Rightarrow> Abbreviation st = '''' | Some u \<Rightarrow> Abbreviation st = a \<and> Url st = u)) \<and>
    (mo_works d \<longrightarrow> e = None)"
    using c
  proof (cases rule: find_abv_doc [where a = a])
    case none
    with assms(2) s r show ?thesis by (auto simp: mo_GetStats_def find_one_def mo_links_def zero_ShortUrl_def)
  next
    case (one x)
    with assms(2) s r decodes [of "tabs d" x] decode_Some [of x] show ?thesis
      by (cases "decode x") (auto simp: mo_GetStats_def find_one_def mo_links_def mo_works_def)
  qed
  then show "tabs d' = tabs d" "quiet d'"
    "e = None \<longrightarrow> (case mo_links d a of None \<Rightarrow> Abbreviation st = '''' | Some u \<Rightarrow> Abbreviation st = a \<and> Url st = u)"
    "mo_works d \<Longrightarrow> e = None" by simp_all
qed

lemma mo_IsLikelyOk_law: "mo_ok d \<Longrightarrow> mo_IsLikelyOk d = (b, d') \<Longrightarrow> tabs d' = tabs d \<and> quiet d'"
  using mo_sent(2,3) [OF _ prod.collapse [symmetric], of d mo_ping]
  by (auto simp: mo_IsLikelyOk_def mo_ping_def split_beta split: sum.splits)

text \<open>An insertion that is refused for a duplicate is taken for one that was made.\<close>

lemma mo_Save_cases:
  assumes "mo_ok d" "mo_Save d a u = (e, d')"
  obtains (refused) "e = None" "tabs d' = tabs d" "quiet d'" "mo_links d a \<noteq> None \<or> u \<in> ran (mo_links d)"
  | (stored) "e = None" "quiet d'" "mo_links d a = None" "u \<notin> ran (mo_links d)"
      "tabs d' = (tabs d)\<lparr>docs := docs (tabs d) @ [\<lparr>m_abv = a, m_url = u, m_hits = 0, m_last = None, m_daily = None\<rparr>]\<rparr>"
proof -
  obtain res d1 where s: "statement (insert_one a u) d = (res, d1)" by (metis prod.exhaust)
  note r = mo_sent [OF assms(1) s]
  have c: "coll_ok (tabs d)" "abv_ndx (tabs d)" "url_ndx (tabs d)" using assms(1) by (simp_all add: mo_ok_def coll_ok_def)
  have dup: "contains ''E11000 duplicate key error'' ''E11000 duplicate''" by code_simp
  show ?thesis
  proof (cases "mo_links d a \<noteq> None \<or> u \<in> ran (mo_links d)")
    case True
    then have "a \<in> m_abv ` set (docs (tabs d)) \<or> u \<in> m_url ` set (docs (tabs d))"
      unfolding mo_links_def taken [OF c(1)] .
    with c(2,3) have "insert_one a u (tabs d) = (Inl ''E11000 duplicate key error'', tabs d)"
      by (simp add: insert_one_def)
    with s r assms(2) dup True show ?thesis by (intro refused) (auto simp: mo_Save_def)
  next
    case False
    then have "\<not> (a \<in> m_abv ` set (docs (tabs d)) \<or> u \<in> m_url ` set (docs (tabs d)))"
      unfolding mo_links_def taken [OF c(1)] .
    with s r assms(2) False show ?thesis by (intro stored) (auto simp: mo_Save_def insert_one_def)
  qed
qed

lemma mo_stored:
  assumes "coll_ok c" "coll_links c a = None" "u \<notin> ran (coll_links c)" "a \<noteq> ''''" "u \<noteq> ''''" "m_abv x = a" "m_url x = u"
  shows "coll_ok (c\<lparr>docs := docs c @ [x]\<rparr>)" "coll_links (c\<lparr>docs := docs c @ [x]\<rparr>) = (coll_links c)(a \<mapsto> u)"
proof -
  have "\<not> (a \<in> m_abv ` set (docs c) \<or> u \<in> m_url ` set (docs c))"
    unfolding taken [OF assms(1), symmetric] using assms(2,3) by simp
  then have new: "\<forall>y \<in> set (docs c). m_abv y \<noteq> a \<and> m_url y \<noteq> u" by auto
  then show ok: "coll_ok (c\<lparr>docs := docs c @ [x]\<rparr>)" using assms by (auto simp: coll_ok_def)
  show "coll_links (c\<lparr>docs := docs c @ [x]\<rparr>) = (coll_links c)(a \<mapsto> u)"
    using new assms(6,7) by (intro same_links) (auto simp: coll_links_Some [OF ok] coll_links_Some [OF assms(1)])
qed

lemma mo_Save_law:
  assumes "mo_ok d" "savable (mo_links d) a u" "mo_Save d a u = (e, d')"
  shows "mo_ok d'" "mo_links d' = (mo_links d)(a \<mapsto> u)" "e = None" "mo_works d \<Longrightarrow> mo_works d'"
proof -
  have c: "coll_ok (tabs d)" using assms(1) by (simp add: mo_ok_def)
  have "mo_ok d' \<and> mo_links d' = (mo_links d)(a \<mapsto> u) \<and> e = None \<and> (mo_works d \<longrightarrow> mo_works d')"
    using assms(1,3)
  proof (cases rule: mo_Save_cases)
    case refused
    then have "mo_links d a = Some u" using assms(2) by (auto simp: savable_def)
    with refused mo_kept [OF assms(1), of d'] show ?thesis by auto
  next
    case stored
    with assms(2) have ne: "a \<noteq> ''''" "u \<noteq> ''''" by (simp_all add: savable_def)
    from stored(5) have "hits_decode (tabs d) \<Longrightarrow> hits_decode (tabs d')" by (auto simp: hits_decode_def)
    with stored mo_stored [OF c, of a u] ne show ?thesis by (simp add: mo_ok_def mo_links_def mo_works_def)
  qed
  then show "mo_ok d'" "mo_links d' = (mo_links d)(a \<mapsto> u)" "e = None" "mo_works d \<Longrightarrow> mo_works d'" by simp_all
qed

text \<open>A conflict is refused, in silence.\<close>

lemma mo_Save_conflict:
  assumes "mo_ok d" "mo_links d a \<noteq> None \<or> u \<in> ran (mo_links d)" "mo_Save d a u = (e, d')"
  shows "mo_ok d' \<and> mo_links d' = mo_links d \<and> e = None"
  using assms(1,3)
proof (cases rule: mo_Save_cases)
  case refused
  with mo_kept [OF assms(1), of d'] show ?thesis by simp
next
  case stored
  with assms(2) show ?thesis by simp
qed

lemma mo_Delete_law:
  shows "mo_ok d \<Longrightarrow> mo_DeleteAbv d a = (e, d') \<Longrightarrow>
      mo_ok d' \<and> mo_links d' = (mo_links d)(a := None) \<and> e = None \<and> (mo_works d \<longrightarrow> mo_works d')"
    and "mo_ok d \<Longrightarrow> mo_DeleteUrl d u = (e, d') \<Longrightarrow>
      mo_ok d' \<and> mo_links d' = drop_url (mo_links d) u \<and> e = None \<and> (mo_works d \<longrightarrow> mo_works d')"
proof -
  assume ok: "mo_ok d"
  then have c: "coll_ok (tabs d)" by (simp add: mo_ok_def)
  have h: "hits_decode t \<Longrightarrow> hits_decode (t\<lparr>docs := filter P (docs t)\<rparr>)" for t P by (simp add: hits_decode_def)
  have one: "fst (delete_one P t) = Inr ()" for P t by (simp add: delete_one_def)
  show "mo_ok d' \<and> mo_links d' = (mo_links d)(a := None) \<and> e = None \<and> (mo_works d \<longrightarrow> mo_works d')"
    if "mo_DeleteAbv d a = (e, d')"
  proof -
    obtain res d1 where s: "statement (delete_one (\<lambda>x. m_abv x = a)) d = (res, d1)" by (metis prod.exhaust)
    note r = mo_sent [OF ok s, unfolded one delete_abv_links(1) [OF c]]
    with s that have "d' = d1" "e = None" by (auto simp: mo_DeleteAbv_def)
    with r coll_ok_filter [OF c] delete_abv_links(2) [OF c] h [of "tabs d"] show ?thesis
      by (simp add: mo_ok_def mo_links_def mo_works_def)
  qed
  show "mo_ok d' \<and> mo_links d' = drop_url (mo_links d) u \<and> e = None \<and> (mo_works d \<longrightarrow> mo_works d')"
    if "mo_DeleteUrl d u = (e, d')"
  proof -
    obtain res d1 where s: "statement (delete_one (\<lambda>x. m_url x = u)) d = (res, d1)" by (metis prod.exhaust)
    note r = mo_sent [OF ok s, unfolded one delete_url_links(1) [OF c]]
    with s that have "d' = d1" "e = None" by (auto simp: mo_DeleteUrl_def)
    with r coll_ok_filter [OF c] delete_url_links(2) [OF c] h [of "tabs d"] show ?thesis
      by (simp add: mo_ok_def mo_links_def mo_works_def)
  qed
qed

text \<open>A late hit keeps the links, whatever the server makes of the update document.\<close>

lemma hit_doc_keys [simp]: "m_abv (hit_doc rd now date x) = m_abv x" "m_url (hit_doc rd now date x) = m_url x"
  by (cases rd, simp_all add: Let_def)+

lemma update_first_map: "(\<And>x. g (f x) = g x) \<Longrightarrow> map g (update_first P f xs) = map g xs"
  by (induction xs) auto

lemma mo_hit_keeps:
  assumes "coll_ok c" shows "coll_ok (snd (update_one P (hit_doc rd now date) c))"
    and "coll_links (snd (update_one P (hit_doc rd now date) c)) = coll_links c"
proof -
  let ?xs = "update_first P (hit_doc rd now date) (docs c)"
  have keys: "map m_abv ?xs = map m_abv (docs c)" "map m_url ?xs = map m_url (docs c)"
    "map (\<lambda>x. (m_abv x, m_url x)) ?xs = map (\<lambda>x. (m_abv x, m_url x)) (docs c)"
    by (simp_all add: update_first_map)
  have "m_abv ` set ?xs = m_abv ` set (docs c)" "m_url ` set ?xs = m_url ` set (docs c)"
    using keys(1,2) by (metis list.set_map)+
  then have "m_abv x \<in> m_abv ` set (docs c)" "m_url x \<in> m_url ` set (docs c)" if "x \<in> set ?xs" for x
    using that by (metis imageI)+
  with assms have "\<forall>x \<in> set ?xs. m_abv x \<noteq> '''' \<and> m_url x \<noteq> ''''" by (fastforce simp: coll_ok_def)
  with keys assms show "coll_ok (snd (update_one P (hit_doc rd now date) c))" by (simp add: update_one_def coll_ok_def)
  show "coll_links (snd (update_one P (hit_doc rd now date) c)) = coll_links c"
    by (simp add: update_one_def coll_links_def keys(3))
qed

lemma mo_job_keeps:
  assumes "mo_ok d" shows "mo_ok (mo_job rd k d)" "mo_links (mo_job rd k d) = mo_links d"
proof -
  have "mo_ok (mo_job rd k d) \<and> mo_links (mo_job rd k d) = mo_links d"
  proof (cases "k < length (jobs d)")
    case True
    obtain date c1 where D: "Date (sclock d) = (date, c1)" by (metis prod.exhaust)
    obtain now c2 where T: "time_Now c1 = (now, c2)" by (metis prod.exhaust)
    let ?d1 = "d\<lparr>sclock := c2, jobs := take k (jobs d) @ drop (Suc k) (jobs d)\<rparr>"
    let ?f = "update_one (\<lambda>x. m_abv x = jobs d ! k) (hit_doc rd now date)"
    have ok: "mo_ok ?d1" using assms by (simp add: mo_ok_def quiet_def)
    have "mo_job rd k d = snd (statement ?f ?d1)" using True D T by (simp add: mo_job_def)
    moreover have "tabs (snd (statement ?f ?d1)) = snd (?f (tabs d))" "quiet (snd (statement ?f ?d1))"
      using mo_sent(2,3) [OF ok prod.collapse [symmetric, of "statement ?f ?d1"]] by simp_all
    ultimately show ?thesis
      using mo_hit_keeps [of "tabs d"] assms by (simp add: mo_ok_def mo_links_def)
  next
    case False
    with assms show ?thesis by (simp add: mo_job_def)
  qed
  then show "mo_ok (mo_job rd k d)" "mo_links (mo_job rd k d) = mo_links d" by simp_all
qed


text \<open>An abbreviation in use is never taken over; a call may fail only on a count that does not decode.\<close>

interpretation mo: refusing_dao mongo_dao mo_ok mo_links "\<lambda>_ _. True"
proof (unfold_locales, goal_cases)
  case (1 s a u)
  then show ?case by (rule mo_nonempty)
next
  case (2 s a u b)
  then show ?case by (rule mo_inj)
next
  case (3 s a v e s')
  then show ?case using mo_GetUrl_law [OF 3(1), of a v e s'] mo_kept [OF 3(1), of s'] by simp
next
  case (4 s u v e s')
  then show ?case using mo_GetAbv_law [OF 4(1), of u v e s'] mo_kept [OF 4(1), of s'] by simp
next
  case (5 s a u e s')
  then show ?case using mo_Save_law [OF 5(1,3), of e s'] by simp
next
  case (6 s a e s')
  then show ?case using mo_Delete_law(1) [OF 6(1), of a e s'] by simp
next
  case (7 s u e s')
  then show ?case using mo_Delete_law(2) [OF 7(1), of u e s'] by simp
next
  case (8 s a st e s')
  then show ?case using mo_GetStats_law [OF 8(1), of a st e s'] mo_kept [OF 8(1), of s'] by simp
next
  case (9 s ok s')
  then show ?case using mo_IsLikelyOk_law [OF 9(1), of ok s'] mo_kept [OF 9(1), of s'] by simp
next
  case (10 s a w u e s')
  then show ?case using mo_Save_conflict [OF 10(1), of a u e s'] by simp
next
  case (11 s b u a e s')
  then show ?case using mo_Save_conflict [OF 11(1), of a u e s'] by (auto simp: ran_def)
qed

lemma mo_worksD: "mo_works d \<Longrightarrow> mo_ok d"
  by (simp add: mo_works_def)

interpretation moq: reliable_dao mongo_dao mo_works mo_links "\<lambda>_ _. True"
proof (unfold_locales, goal_cases)
  case (1 s a u)
  then show ?case using mo_nonempty mo_worksD by blast
next
  case (2 s a u b)
  then show ?case using mo_inj mo_worksD by blast
next
  case (3 s a v e s')
  note ok = mo_worksD [OF 3(1)]
  from 3 mo_GetUrl_law [OF ok, of a v e s'] mo_kept [OF ok, of s'] show ?case by simp
next
  case (4 s u v e s')
  note ok = mo_worksD [OF 4(1)]
  from 4 mo_GetAbv_law [OF ok, of u v e s'] mo_kept [OF ok, of s'] show ?case by simp
next
  case (5 s a u e s')
  from 5 mo_Save_law [OF mo_worksD [OF 5(1)] 5(3), of e s'] show ?case by simp
next
  case (6 s a e s')
  from 6 mo_Delete_law(1) [OF mo_worksD [OF 6(1)], of a e s'] show ?case by simp
next
  case (7 s u e s')
  from 7 mo_Delete_law(2) [OF mo_worksD [OF 7(1)], of u e s'] show ?case by simp
next
  case (8 s a st e s')
  note ok = mo_worksD [OF 8(1)]
  from 8 mo_GetStats_law [OF ok, of a st e s'] mo_kept [OF ok, of s'] show ?case by simp
next
  case (9 s b s')
  note ok = mo_worksD [OF 9(1)]
  from 9 mo_IsLikelyOk_law [OF ok, of b s'] mo_kept [OF ok, of s'] show ?case by simp
next
  case (10 s a v e s')
  then show ?case using mo_GetUrl_law(4) [OF mo_worksD [OF 10(1)], of a v e s'] by simp
next
  case (11 s u v e s')
  then show ?case using mo_GetAbv_law(4) [OF mo_worksD [OF 11(1)], of u v e s'] by simp
next
  case (12 s a u e s')
  then show ?case using mo_Save_law(3) [OF mo_worksD [OF 12(1)], of a u e s'] by simp
next
  case (13 s a e s')
  then show ?case using mo_Delete_law(1) [OF mo_worksD [OF 13(1)], of a e s'] by simp
next
  case (14 s a st e s')
  then show ?case using mo_GetStats_law(4) [OF mo_worksD [OF 14(1)], of a st e s'] by simp
qed

end
