(* ===== verification/Stores.thy ===== *)
theory Stores
  imports MemoryDB PostgresDB MySQLDB SQLiteDB RedisDB MongoDB
begin

text \<open>
  The stores of package \<open>dao\<close> together. Each is a model of its Go file with the contract it keeps,
  an interpretation of the strongest of the locales of \<open>Dao\<close> that its code meets. The clients of
  the interface are stated over the locales and loaded after this theory, so that each of their
  lemmas is at once a fact about every store that keeps the contract.
\<close>

end
