(* ===== verification/Rando.thy ===== *)
theory Rando
  imports GoPrelude
begin

text \<open>
  Package \<open>rando\<close> (src/rando/rando.go). The package variable \<open>r\<close>, a \<open>*rand.Rand\<close> seeded with the
  start time, is a sequence of raw draws and the position of the next one. The sequence is
  arbitrary: a fact proved for every \<open>rand_src\<close> holds whatever the seed. \<open>r.Intn(n)\<close> takes the
  next draw below \<open>n\<close>; every sequence of values below \<open>n\<close> is one of these.
\<close>

record rand_src =
  draws :: "nat \<Rightarrow> nat"
  pos :: nat

definition Intn :: "nat \<Rightarrow> rand_src \<Rightarrow> nat \<times> rand_src" where
  "Intn n r = (draws r (pos r) mod n, r\<lparr>pos := Suc (pos r)\<rparr>)"

definition chars :: string where
  "chars = ''abcdefghijklmnopqrstuvwxyz0123456789''"

lemma length_chars [simp]: "length chars = 36"
  by (simp add: chars_def)

text \<open>The loop \<open>for range length\<close> over the string builder.\<close>

fun RandStrn_loop :: "nat \<Rightarrow> string \<Rightarrow> rand_src \<Rightarrow> string \<times> rand_src" where
  "RandStrn_loop 0 b r = (b, r)"
| "RandStrn_loop (Suc k) b r =
     (let (i, r1) = Intn (length chars) r in RandStrn_loop k (b @ [chars ! i]) r1)"

text \<open>A negative length runs the loop no times, as \<open>for range\<close> over an \<open>int\<close> does.\<close>

definition RandStrn :: "int \<Rightarrow> rand_src \<Rightarrow> string \<times> rand_src" where
  "RandStrn n r = RandStrn_loop (nat n) [] r"

section \<open>What it draws\<close>

text \<open>The word read off the draws from a position on.\<close>

definition word_at :: "rand_src \<Rightarrow> nat \<Rightarrow> nat \<Rightarrow> string" where
  "word_at r p k = map (\<lambda>i. chars ! (draws r i mod 36)) [p..<p + k]"

lemma RandStrn_loop_eq:
  "RandStrn_loop k b r = (b @ word_at r (pos r) k, r\<lparr>pos := pos r + k\<rparr>)"
proof (induction k arbitrary: b r)
  case (Suc k)
  have "[pos r..<pos r + Suc k] = pos r # [Suc (pos r)..<Suc (pos r) + k]"
    by (simp add: upt_conv_Cons)
  with Suc show ?case by (simp add: Intn_def word_at_def)
qed (simp add: word_at_def)

lemma RandStrn_eq: "RandStrn n r = (word_at r (pos r) (nat n), r\<lparr>pos := pos r + nat n\<rparr>)"
  by (simp add: RandStrn_def RandStrn_loop_eq)

lemma word_at_length [simp]: "length (word_at r p k) = k"
  by (simp add: word_at_def)

lemma word_at_chars: "set (word_at r p k) \<subseteq> set chars"
  by (auto simp: word_at_def)

lemma word_at_pos [simp]: "word_at (r\<lparr>pos := q\<rparr>) p k = word_at r p k"
  by (simp add: word_at_def)

lemma RandStrn_length: "length (fst (RandStrn n r)) = nat n"
  by (simp add: RandStrn_eq)

lemma RandStrn_chars: "set (fst (RandStrn n r)) \<subseteq> set chars"
  by (simp add: RandStrn_eq word_at_chars)

lemma RandStrn_draws [simp]: "draws (snd (RandStrn n r)) = draws r"
  by (simp add: RandStrn_eq)

text \<open>Every word over the alphabet is drawn from some sequence: none is out of reach.\<close>

lemma RandStrn_surj:
  assumes "set w \<subseteq> set chars"
  shows "\<exists>d. fst (RandStrn (int (length w)) \<lparr>draws = d, pos = p\<rparr>) = w"
proof -
  define idx where "idx c = (SOME i. i < 36 \<and> chars ! i = c)" for c
  have idx: "idx c < 36 \<and> chars ! idx c = c" if "c \<in> set chars" for c
    unfolding idx_def using someI_ex [of "\<lambda>i. i < 36 \<and> chars ! i = c"] that
    by (metis in_set_conv_nth length_chars)
  let ?d = "\<lambda>i. idx (w ! (i - p))"
  have "word_at \<lparr>draws = ?d, pos = p\<rparr> p (length w) = w"
  proof (rule nth_equalityI)
    fix i assume "i < length (word_at \<lparr>draws = ?d, pos = p\<rparr> p (length w))"
    then have "i < length w" by simp
    with assms show "word_at \<lparr>draws = ?d, pos = p\<rparr> p (length w) ! i = w ! i"
      using idx [of "w ! i"] by (simp add: word_at_def subset_eq)
  qed simp
  then have "fst (RandStrn (int (length w)) \<lparr>draws = ?d, pos = p\<rparr>) = w"
    by (simp add: RandStrn_eq)
  then show ?thesis by blast
qed

text \<open>
  The words RandStrn can return at a length are exactly the words of that length over its
  alphabet, whatever the position of the generator: none is out of reach, and no other is drawn.
\<close>

lemma RandStrn_range:
  "(\<exists>d. fst (RandStrn n \<lparr>draws = d, pos = p\<rparr>) = w) \<longleftrightarrow> length w = nat n \<and> set w \<subseteq> set chars"
proof
  show "\<exists>d. fst (RandStrn n \<lparr>draws = d, pos = p\<rparr>) = w \<Longrightarrow> length w = nat n \<and> set w \<subseteq> set chars"
    using RandStrn_length RandStrn_chars by blast
  assume w: "length w = nat n \<and> set w \<subseteq> set chars"
  then have eq: "RandStrn n r = RandStrn (int (length w)) r" for r by (simp add: RandStrn_def)
  from w have "\<exists>d. fst (RandStrn (int (length w)) \<lparr>draws = d, pos = p\<rparr>) = w"
    by (intro RandStrn_surj) simp
  then show "\<exists>d. fst (RandStrn n \<lparr>draws = d, pos = p\<rparr>) = w" unfolding eq .
qed

end
