(* ===== verification/ReservedWords.thy ===== *)
theory ReservedWords
  imports GoPrelude
begin

text \<open>
  The word filter of package \<open>dao\<close> (src/dao/reservedwords.go). \<open>badWords\<close> is the source's map
  literal, key for key and in its order, cut into parts that each transcribe one range of its
  lines; every value of that map is \<open>true\<close>, so \<open>badWords[s]\<close> is membership. The Go map is
  ranged over in an unspecified order: \<open>AcceptableWord\<close> only asks whether some key occurs in
  the word, so the order does not show in its result. The filter's log line is not modelled.
\<close>

definition badWords1 :: "string list" where
  "badWords1 = [
    ''2g1c'', ''4r5e'', ''5h1t'', ''5hit'', ''Breeder'', ''Cocklump'', ''Doublelift'', ''God'',
    ''Poopuncher'', ''Sandler'', ''a2m'', ''a54'', ''a55'', ''acrotomophilia'', ''aeolus'',
    ''anal'', ''anilingus'', ''anus'', ''ar5e'', ''areola'', ''areole'', ''arian'', ''arrse'',
    ''arse'', ''aryan'', ''ass'', ''axwound'', ''azazel'', ''azz'', ''b00bs'', ''b17ch'',
    ''b1tch'', ''babeland'', ''ball'', ''bangbros'', ''bareback'', ''barf'', ''bastinado'',
    ''bawdy'', ''bbw'', ''bdsm'', ''beaner'', ''beardedclam'', ''beastial'', ''beatch'',
    ''beaver'', ''beeyotch'', ''bellend'', ''bender'', ''beotch'', ''bestial'', ''biatch'',
    ''bimbo'', ''bint'', ''birdlock'', ''bitch'', ''bloodclaat'', ''blowjob'', ''blumpkin'',
    ''bod'', ''boink'', ''boiolas'', ''bollock'', ''bollok'', ''bollox'', ''bondage'', ''boned'',
    ''boner'', ''bong'', ''boob'', ''booger'', ''bookie'', ''boong'', ''booobs'', ''boooobs'',
    ''booooobs'', ''booooooobs'', ''bootee'', ''bootie'', ''booty'', ''booze'', ''boozy'',
    ''bosom'', ''breasts'', ''buceta'', ''bugger'', ''bukkake'', ''bum'', ''buncombe'', ''bung'',
    ''busty'', ''butt'', ''c0ck'', ''caca'', ''cameltoe'', ''camgirl'', ''carpetmuncher'',
    ''cawk'', ''cervix'', ''chesticle'', ''chinc'', ''chink'', ''cipa'', ''cl1t'', ''climax'',
    ''clit'', ''clunge'', ''cnut'', ''cocain'', ''coccydynia'', ''cock'', ''coital'', ''cok'',
    ''commie'', ''condom'', ''coochie'', ''coochy'', ''coon'', ''cooter'', ''coprolagnia'',
    ''coprophilia'', ''corpulent'', ''cox'', ''crabs'', ''crack'', ''crap'', ''creampie'',
    ''cretin'', ''crikey'', ''cripple'', ''crotte'', ''cum'', ''cunilingus'', ''cunillingus'',
    ''cunnie'', ''cunnilingus'', ''cunny'', ''cunt'', ''cus'', ''cyalis'']"

definition badWords2 :: "string list" where
  "badWords2 = [
    ''d0ng'', ''d0uch3'', ''d0uche'', ''d1ck'', ''d1ld0'', ''d1ldo'', ''dago'', ''dammit'',
    ''damn'', ''darkie'', ''darn'', ''deepthroat'', ''deggo'', ''dendrophilia'', ''dick'',
    ''diddle'', ''dike'', ''dildo'', ''diligaf'', ''dimwit'', ''dingle'', ''dink'', ''dipship'',
    ''dirsa'', ''dirty'', ''dlck'', ''doggiestyle'', ''doggin'', ''doggystyle'', ''dolcett'',
    ''domination'', ''dominatrix'', ''dommes'', ''dong'', ''donkeypunch'', ''donkeyribber'',
    ''doochbag'', ''doofus'', ''dookie'', ''doosh'', ''dopey'', ''douch3'', ''douche'',
    ''drunk'', ''duche'', ''dummy'', ''dvda'', ''dyke'', ''ecchi'', ''ejaculate'',
    ''ejaculating'', ''ejaculation'', ''ejakulate'', ''erect'', ''erotic'', ''erotism'',
    ''escort'', ''essohbee'', ''eunuch'', ''extacy'', ''extasy'', ''f4nny'', ''facial'',
    ''fack'', ''fag'', ''faig'', ''fanny'', ''fanyy'', ''fart'', ''fcuk'', ''fecal'', ''feck'',
    ''feist'', ''felch'', ''fellate'', ''fellatio'', ''feltch'', ''femdom'', ''fenian'',
    ''fice'', ''figging'', ''fingerbang'', ''fingering'', ''fisted'', ''fisting'', ''fisty'',
    ''flamer'', ''flange'', ''flaps'', ''fleshflute'', ''floozy'', ''foad'', ''foah'',
    ''fondle'', ''foobar'', ''fook'', ''footjob'', ''foreskin'', ''freex'', ''frenchify'',
    ''frigg'', ''frotting'', ''fubar'', ''fuc'', ''fudgepacker'', ''fuk'', ''fuq'', ''futanari'',
    ''fux'', ''fvck'', ''fxck'', ''gae'', ''gai'', ''gangbang'', ''ganja'', ''gash'', ''gay'',
    ''genitals'', ''gey'', ''gfy'', ''ghay'', ''ghey'', ''gigolo'', ''ginger'', ''gippo'',
    ''git'', ''glans'', ''goatcx'', ''goatse'', ''god'', ''gokkun'', ''gonad'', ''gooch'',
    ''gook'', ''goregasm'', ''gringo'', ''grope'', ''gtfo'', ''guido'', ''guro'']"

definition badWords3 :: "string list" where
  "badWords3 = [
    ''h0m0'', ''h0mo'', ''handjob'', ''hardcore'', ''he11'', ''hebe'', ''heeb'', ''hell'',
    ''hemp'', ''hentai'', ''heroin'', ''herp'', ''heshe'', ''hircismus'', ''hitler'', ''hiv'',
    ''ho'', ''hump'', ''hun'', ''hussy'', ''hymen'', ''iap'', ''inbred'', ''incest'', ''injun'',
    ''intercourse'', ''jackoff'', ''jaggi'', ''jagoff'', ''jailbait'', ''jap'', ''jerk'',
    ''jigaboo'', ''jiggaboo'', ''jiggerboo'', ''jism'', ''jiz'', ''jock'', ''juggs'',
    ''junglebunny'', ''junkie'', ''junky'', ''kafir'', ''kawk'', ''kike'', ''kill'', ''kinbaku'',
    ''kinkster'', ''kinky'', ''klan'', ''kock'', ''kondum'', ''kooch'', ''kootch'', ''kraut'',
    ''kum'', ''kunilingus'', ''kunja'', ''kunt'', ''kwif'', ''kyke'', ''l3itch'', ''labia'',
    ''lech'', ''leper'', ''lesbian'', ''lesbo'', ''lez'', ''lmao'', ''lmfao'', ''loin'',
    ''lolita'', ''looney'', ''lovemaking'', ''lube'', ''lust'', ''m0f0'', ''m0fo'',
    ''m45terbate'', ''ma5terb8'', ''ma5terbate'', ''mams'', ''masochist'', ''masterb8'',
    ''masterbat3'', ''masterbate'', ''masterbating'', ''masterbation'', ''masturbate'',
    ''masturbating'', ''masturbation'', ''maxi'', ''menses'', ''menstruate'', ''menstruation'',
    ''meth'', ''mick'', ''microphallus'', ''midget'', ''milf'', ''minge'', ''mof0'', ''mofo'',
    ''molest'', ''mong'', ''moolie'', ''moron'', ''muff'', ''munging'', ''munter'', ''murder'',
    ''mutha'', ''muther'', ''n1gga'', ''n1gger'', ''naked'', ''nambla'', ''napalm'', ''nappy'',
    ''nawashi'', ''nazi'', ''negro'', ''nigaboo'', ''nigg3r'', ''nigg4h'', ''nigga'', ''nigger'',
    ''niggle'', ''niglet'', ''nimrod'', ''ninny'', ''nipple'', ''nob'', ''nonce'', ''nude'',
    ''nudity'', ''numbnuts'', ''nutsack'', ''nutter'', ''omg'']"

definition badWords4 :: "string list" where
  "badWords4 = [
    ''omorashi'', ''opiate'', ''opium'', ''orally'', ''organ'', ''orgasim'', ''orgasm'',
    ''orgies'', ''orgy'', ''ovary'', ''ovum'', ''p0rn'', ''paedophile'', ''paki'', ''panooch'',
    ''pansy'', ''pantie'', ''panty'', ''pawn'', ''pcp'', ''pecker'', ''pedo'', ''pee'',
    ''pegging'', ''penetrate'', ''penetration'', ''penial'', ''penile'', ''penis'',
    ''perversion'', ''phallic'', ''phuck'', ''phuk'', ''phuq'', ''pikey'', ''pillowbiter'',
    ''pimp'', ''pinko'', ''piss'', ''playboy'', ''pms'', ''polack'', ''polesmoker'', ''pollock'',
    ''ponyplay'', ''poof'', ''poon'', ''poop'', ''porchmonkey'', ''porn'', ''pot'', ''prick'',
    ''prig'', ''prod'', ''pron'', ''prude'', ''pthc'', ''pube'', ''pubic'', ''pubis'',
    ''punani'', ''punanny'', ''punany'', ''punky'', ''punta'', ''puss'', ''pust'', ''puto'',
    ''queaf'', ''queef'', ''queer'', ''quicky'', ''quim'', ''racy'', ''raghead'', ''rape'',
    ''raping'', ''rapist'', ''raunch'', ''rectal'', ''rectum'', ''rectus'', ''reefer'',
    ''reich'', ''revue'', ''rimjaw'', ''rimjob'', ''rimming'', ''rubbish'', ''rum'', ''ruski'',
    ''s0b'', ''sadism'', ''sadist'', ''sambo'', ''sandbar'', ''sanger'', ''scag'', ''scantily'',
    ''scat'', ''schizo'', ''schlong'', ''scissoring'', ''screw'', ''scroat'', ''scrog'',
    ''scrot'', ''scrud'', ''seaman'', ''seamen'', ''seduce'', ''seks'', ''semen'', ''sex'',
    ''sh1t'', ''shag'', ''shamedame'', ''shemale'', ''shibari'', ''shit'', ''shiz'',
    ''shrimping'', ''sissy'', ''skag'', ''skank'', ''skeet'', ''slag'', ''slanteye'', ''slave'',
    ''sleaze'', ''sleazy'', ''slope'', ''slut'', ''smeg'', ''smut'', ''snatch'', ''sniper'',
    ''snowballing'', ''snuff'', ''sodom'']"

definition badWords5 :: "string list" where
  "badWords5 = [
    ''souse'', ''spac'', ''spade'', ''sperm'', ''spic'', ''spik'', ''splooge'', ''spooge'',
    ''spook'', ''spunk'', ''stfu'', ''stiffy'', ''stoned'', ''strapon'', ''strappado'',
    ''strip'', ''stroke'', ''stupid'', ''suck'', ''swastika'', ''swinger'', ''t1t'', ''taff'',
    ''taig'', ''tampon'', ''tard'', ''tart'', ''tawdry'', ''teabagging'', ''teat'', ''teets'',
    ''teez'', ''teste'', ''testical'', ''testicle'', ''testis'', ''threesome'', ''throating'',
    ''thrust'', ''thug'', ''tinkle'', ''tit'', ''toke'', ''toots'', ''topless'', ''tosser'',
    ''towelhead'', ''tramp'', ''tranny'', ''trashy'', ''tribadism'', ''tubgirl'', ''turd'',
    ''tush'', ''tw4t'', ''twat'', ''twink'', ''twunt'', ''ugly'', ''undies'', ''undressing'',
    ''unwed'', ''upskirt'', ''urinal'', ''urine'', ''urophilia'', ''uterus'', ''uzi'',
    ''v14gra'', ''v1gra'', ''vag'', ''vajayjay'', ''valium'', ''veqtable'', ''viagra'',
    ''vibrator'', ''virgin'', ''vixen'', ''vjayjay'', ''vodka'', ''vomit'', ''vorarephilia'',
    ''voyeur'', ''vulgar'', ''vulva'', ''w00se'', ''wad'', ''wang'', ''wank'', ''wazoo'',
    ''wedgie'', ''weed'', ''weenie'', ''weewee'', ''weiner'', ''weirdo'', ''wench'', ''wetback'',
    ''wh0re'', ''whiz'', ''wigger'', ''willies'', ''willy'', ''wog'', ''womb'', ''wop'', ''wtf'',
    ''xrated'', ''xx'', ''yaoi'', ''yeasty'', ''yid'', ''yiffy'', ''yobbo'', ''zibbi'',
    ''zoophilia'', ''zubb'']"

definition badWords :: "string list" where
  "badWords = badWords1 @ badWords2 @ badWords3 @ badWords4 @ badWords5"

lemmas badWords_defs = badWords_def badWords1_def badWords2_def badWords3_def badWords4_def badWords5_def

definition AcceptableWord :: "string \<Rightarrow> bool" where
  "AcceptableWord s =
     (if List.member badWords s then False
      else \<not> list_ex (\<lambda>key. contains s key) badWords)"

section \<open>What the filter rejects\<close>

lemma AcceptableWord_iff: "AcceptableWord s \<longleftrightarrow> (\<forall>w \<in> set badWords. \<not> sublist w s)"
  by (auto simp: AcceptableWord_def list_ex_iff contains_sublist)

text \<open>Embedding a rejected word in a longer one does not get it past the filter.\<close>

lemma AcceptableWord_mono: "AcceptableWord (p @ s @ q) \<Longrightarrow> AcceptableWord s"
  unfolding AcceptableWord_iff
  by (meson sublist_append_leftI sublist_append_rightI sublist_order.order.trans)

lemma badWords_length: "list_all (\<lambda>w. 2 \<le> length w) badWords"
  by (simp add: badWords_defs)

lemma badWords_nonzero: "list_all (\<lambda>w. hd w \<noteq> CHR ''0'') badWords"
  by (simp add: badWords_defs)

lemma AcceptableWord_short: "length s \<le> 1 \<Longrightarrow> AcceptableWord s"
  unfolding AcceptableWord_iff
proof (intro ballI notI)
  fix w assume "w \<in> set badWords" "sublist w s" "length s \<le> 1"
  moreover from this have "2 \<le> length w" using badWords_length by (simp add: list_all_iff)
  ultimately show False using sublist_length_le [of w s] by simp
qed

text \<open>At every length the alphabet of the generator has a word the filter accepts.\<close>

lemma AcceptableWord_zeros: "AcceptableWord (replicate n CHR ''0'')"
  unfolding AcceptableWord_iff
proof (intro ballI notI)
  fix w assume "w \<in> set badWords" "sublist w (replicate n CHR ''0'')"
  then have "set w \<subseteq> {CHR ''0''}" and "hd w \<noteq> CHR ''0''" and "w \<noteq> []"
    using badWords_nonzero badWords_length set_mono_sublist by (fastforce simp: list_all_iff)+
  then show False using hd_in_set by blast
qed

text \<open>
  C32. A word is acceptable exactly when none of the 677 reserved words occurs in it; so every part
  of an acceptable word is acceptable, and padding a reserved word does not get it past the filter.
\<close>

lemma AcceptableWord_spec:
  "(AcceptableWord s \<longleftrightarrow> (\<forall>w \<in> set badWords. \<not> sublist w s)) \<and>
   (\<forall>p q. AcceptableWord (p @ s @ q) \<longrightarrow> AcceptableWord s) \<and>
   (\<forall>w \<in> set badWords. \<forall>p q. \<not> AcceptableWord (p @ w @ q)) \<and> length badWords = 677"
proof -
  have "length badWords = 677" by (simp add: badWords_defs)
  then show ?thesis using AcceptableWord_mono by (auto simp: AcceptableWord_iff)
qed

lemma AcceptableWord_spec_witness: "\<not> AcceptableWord (''x'' @ ''foad'' @ ''y'')"
proof -
  have "''foad'' \<in> set badWords" by (simp add: badWords_defs)
  with AcceptableWord_spec [of "''x''"] show ?thesis by blast
qed

end
