(* ===== verification/Abbreviator.thy ===== *)
theory Abbreviator
  imports Stores Env Rando ReservedWords
begin

text \<open>
  Choosing an abbreviation (src/dao/abbreviator.go). The package variable \<open>keySize\<close> and the
  generator of package \<open>rando\<close> are the state \<open>gen\<close>. \<open>keySize\<close> is an \<open>int\<close> of the model: it counts
  the characters of a string that fits in memory, so the 64 bits of the source do not show.
  Both loops may run forever (a generator may only ever draw rejected words), so they are
  \<open>partial_function\<close>s and \<open>None\<close> is "does not return"; the lemmas say exactly when
  \<open>randString\<close> returns, and that \<open>CreateAbbreviation\<close> does when \<open>randString\<close> does.
\<close>

section \<open>The generator\<close>

record gen =
  keySize :: int
  src :: rand_src

definition init_gen :: "getenv \<Rightarrow> rand_src \<Rightarrow> gen" where
  "init_gen env r = \<lparr>keySize = IntOrDefault env ''startingkeysize'' 1, src = r\<rparr>"

text \<open>
  The statement both loops share: \<open>if tries = tries + 1; tries > env.IntOrDefault(...)\<close>, then
  start over with a longer key.
\<close>

definition keygrowretries :: "getenv \<Rightarrow> int" where
  "keygrowretries env = IntOrDefault env ''keygrowretries'' 10"

definition count_try :: "getenv \<Rightarrow> int \<Rightarrow> gen \<Rightarrow> int \<times> gen" where
  "count_try env tries g =
     (if tries + 1 > keygrowretries env then (0, g\<lparr>keySize := keySize g + 1\<rparr>) else (tries + 1, g))"

definition draw :: "gen \<Rightarrow> string \<times> gen" where
  "draw g = (let (s, r) = RandStrn (keySize g) (src g) in (s, g\<lparr>src := r\<rparr>))"

partial_function (option) randString_loop :: "getenv \<Rightarrow> int \<Rightarrow> gen \<Rightarrow> (string \<times> gen) option" where
  "randString_loop env tries g =
     (let s = fst (draw g); g1 = snd (draw g)
      in if AcceptableWord s then Some (s, g1)
         else let tg = count_try env tries g1 in randString_loop env (fst tg) (snd tg))"

definition randString :: "getenv \<Rightarrow> gen \<Rightarrow> (string \<times> gen) option" where
  "randString env g = randString_loop env 0 g"

section \<open>The abbreviation\<close>

partial_function (option) create_loop ::
  "getenv \<Rightarrow> ('s, 'd) ShortUrlDao \<Rightarrow> string \<Rightarrow> int \<Rightarrow> string \<Rightarrow> string \<Rightarrow> gen \<Rightarrow> 's
     \<Rightarrow> ((string \<times> err) \<times> gen \<times> 's) option" where
  "create_loop env D url tries abv u g s =
     (if u \<noteq> '''' \<and> url \<noteq> u then
        (let tg = count_try env tries g; ge = GetUrl D s abv
         in case snd (fst ge) of
              Some e \<Rightarrow> Some (('''', Some (''error checking abbreviation '' @ e)), snd tg, snd ge)
            | None \<Rightarrow>
                Option.bind (randString env (snd tg)) (\<lambda>ag.
                  let gu = GetUrl D (snd ge) (fst ag)
                  in create_loop env D url (fst tg) (fst ag) (fst (fst gu)) (snd ag) (snd gu)))
      else Some ((abv, None), g, s))"

definition CreateAbbreviation ::
  "getenv \<Rightarrow> ('s, 'd) ShortUrlDao \<Rightarrow> string \<Rightarrow> gen \<Rightarrow> 's \<Rightarrow> ((string \<times> err) \<times> gen \<times> 's) option" where
  "CreateAbbreviation env D url g s =
     Option.bind (randString env g) (\<lambda>ag.
       let gu = GetUrl D s (fst ag)
       in create_loop env D url 0 (fst ag) (fst (fst gu)) (snd ag) (snd gu))"

section \<open>When \<open>randString\<close> returns\<close>

definition retry :: "getenv \<Rightarrow> int \<times> gen \<Rightarrow> int \<times> gen" where
  "retry env = (\<lambda>(tries, g). count_try env tries (snd (draw g)))"

text \<open>The word of the \<open>n\<close>-th round, if the rounds before it were rejected.\<close>

definition attempt :: "getenv \<Rightarrow> int \<Rightarrow> gen \<Rightarrow> nat \<Rightarrow> string" where
  "attempt env tries g n = fst (draw (snd ((retry env ^^ n) (tries, g))))"

lemma draw_eq:
  "draw g = (word_at (src g) (pos (src g)) (nat (keySize g)),
             g\<lparr>src := (src g)\<lparr>pos := pos (src g) + nat (keySize g)\<rparr>\<rparr>)"
  by (simp add: draw_def RandStrn_eq)

lemma draw_keySize [simp]: "keySize (snd (draw g)) = keySize g"
  by (simp add: draw_eq)

lemma draw_draws [simp]: "draws (src (snd (draw g))) = draws (src g)"
  by (simp add: draw_eq)

lemma draw_length: "length (fst (draw g)) = nat (keySize g)"
  by (simp add: draw_eq)

lemma draw_chars: "set (fst (draw g)) \<subseteq> set chars"
  by (simp add: draw_eq word_at_chars)

lemma count_try_draws [simp]: "src (snd (count_try env tries g)) = src g"
  by (simp add: count_try_def)

lemma count_try_keySize: "keySize g \<le> keySize (snd (count_try env tries g))"
  by (simp add: count_try_def)

lemma attempt_0 [simp]: "attempt env tries g 0 = fst (draw g)"
  by (simp add: attempt_def)

lemma attempt_Suc:
  "attempt env tries g (Suc n) =
     (let tg = count_try env tries (snd (draw g)) in attempt env (fst tg) (snd tg) n)"
  by (simp add: attempt_def funpow_Suc_right retry_def Let_def del: funpow.simps)

lemma randString_loop_run:
  assumes "\<forall>m < n. \<not> AcceptableWord (attempt env tries g m)" "AcceptableWord (attempt env tries g n)"
  shows "\<exists>g'. randString_loop env tries g = Some (attempt env tries g n, g')"
  using assms
proof (induction n arbitrary: tries g)
  case 0
  then show ?case by (simp add: randString_loop.simps [of env tries g] prod_eq_iff)
next
  case (Suc n)
  let ?tg = "count_try env tries (snd (draw g))"
  have "\<not> AcceptableWord (fst (draw g))" using Suc.prems(1) by force
  moreover have "\<exists>g'. randString_loop env (fst ?tg) (snd ?tg) = Some (attempt env (fst ?tg) (snd ?tg) n, g')"
    using Suc.prems by (intro Suc.IH) (auto simp: attempt_Suc [of env tries g] Let_def)
  ultimately show ?case
    by (simp add: randString_loop.simps [of env tries g] attempt_Suc [of env tries g] Let_def)
qed

text \<open>What is known of a word that is returned, and of the generator after it.\<close>

definition drawn :: "gen \<Rightarrow> string \<Rightarrow> gen \<Rightarrow> bool" where
  "drawn g s g' \<longleftrightarrow> AcceptableWord s \<and> set s \<subseteq> set chars \<and> length s = nat (keySize g') \<and>
     keySize g \<le> keySize g' \<and> draws (src g') = draws (src g)"

lemma randString_loop_returned:
  assumes "randString_loop env tries g = Some r"
  shows "drawn g (fst r) (snd r) \<and> (\<exists>n. fst r = attempt env tries g n)"
proof (rule randString_loop.raw_induct
    [where P = "\<lambda>env tries g r. drawn g (fst r) (snd r) \<and> (\<exists>n. fst r = attempt env tries g n)",
      OF _ assms])
  fix f :: "getenv \<Rightarrow> int \<Rightarrow> gen \<Rightarrow> (string \<times> gen) option" and env tries g r
  let ?tg = "count_try env tries (snd (draw g))"
  assume IH: "\<And>env tries g r. f env tries g = Some r \<Longrightarrow>
      drawn g (fst r) (snd r) \<and> (\<exists>n. fst r = attempt env tries g n)"
    and eq: "(let s = fst (draw g); g1 = snd (draw g)
      in if AcceptableWord s then Some (s, g1)
         else let tg = count_try env tries g1 in f env (fst tg) (snd tg)) = Some r"
  show "drawn g (fst r) (snd r) \<and> (\<exists>n. fst r = attempt env tries g n)"
  proof (cases "AcceptableWord (fst (draw g))")
    case True
    with eq have "r = draw g" by simp
    with True have "drawn g (fst r) (snd r)" "fst r = attempt env tries g 0"
      using draw_length [of g] draw_chars [of g] by (simp_all add: drawn_def)
    then show ?thesis by blast
  next
    case False
    with eq have "f env (fst ?tg) (snd ?tg) = Some r" by (simp add: Let_def)
    from IH [OF this] obtain n where "drawn (snd ?tg) (fst r) (snd r)" "fst r = attempt env tries g (Suc n)"
      by (auto simp: attempt_Suc Let_def)
    then show ?thesis
      using count_try_keySize [of "snd (draw g)" env tries] by (auto simp: drawn_def)
  qed
qed

lemma randString_returned: "randString env g = Some (s, g') \<Longrightarrow> drawn g s g'"
  using randString_loop_returned [of env 0 g "(s, g')"] by (simp add: randString_def)


lemma randString_short: "keySize g \<le> 1 \<Longrightarrow> randString env g = Some (draw g)"
  using AcceptableWord_short [of "fst (draw g)"] draw_length [of g]
  by (simp add: randString_def randString_loop.simps [of env 0 g])

text \<open>A generator that returns from whatever position and key size it has reached.\<close>

definition generator_live :: "getenv \<Rightarrow> (nat \<Rightarrow> nat) \<Rightarrow> bool" where
  "generator_live env d \<longleftrightarrow> (\<forall>g. draws (src g) = d \<longrightarrow> (\<exists>r. randString env g = Some r))"

lemma generator_liveD:
  "generator_live env d \<Longrightarrow> draws (src g) = d \<Longrightarrow> \<exists>a g'. randString env g = Some (a, g')"
  by (auto simp: generator_live_def)

lemma generator_live_zeros: "generator_live env (\<lambda>_. 26)"
proof -
  have "chars ! 26 = CHR ''0''" by (simp add: chars_def)
  then have "word_at r p k = replicate k CHR ''0''" if "draws r = (\<lambda>_. 26)" for r p k
    using that by (simp add: word_at_def map_replicate_const)
  then show ?thesis
    by (auto simp: generator_live_def randString_def randString_loop.simps [of env 0] draw_eq
        AcceptableWord_zeros)
qed

section \<open>What \<open>CreateAbbreviation\<close> returns, for any store\<close>

text \<open>The word comes from the generator; \<open>g\<close> is the state at the call, \<open>g'\<close> at the return.\<close>

definition chosen :: "gen \<Rightarrow> string \<Rightarrow> gen \<Rightarrow> bool" where
  "chosen g a g' \<longleftrightarrow> AcceptableWord a \<and> set a \<subseteq> set chars \<and>
     nat (keySize g) \<le> length a \<and> length a \<le> nat (keySize g') \<and>
     keySize g \<le> keySize g' \<and> draws (src g') = draws (src g)"

lemma drawn_chosen: "drawn g1 a g' \<Longrightarrow> keySize g \<le> keySize g1 \<Longrightarrow> draws (src g1) = draws (src g)
    \<Longrightarrow> chosen g a g'"
  by (auto simp: drawn_def chosen_def)

text \<open>
  One unfolding of the loop, as an elimination rule: either it stops with the current word, or
  the second look at the word fails, or it goes round with a new word.
\<close>

lemma create_loop_cases:
  assumes "create_loop env D url tries abv u g s = Some r"
  obtains (stop) "u = '''' \<or> url = u" "r = ((abv, None), g, s)"
  | (fail) e where "u \<noteq> ''''" "url \<noteq> u" "snd (fst (GetUrl D s abv)) = Some e"
      "r = (('''', Some (''error checking abbreviation '' @ e)), snd (count_try env tries g),
            snd (GetUrl D s abv))"
  | (round) a1 g1 where "u \<noteq> ''''" "url \<noteq> u" "snd (fst (GetUrl D s abv)) = None"
      "randString env (snd (count_try env tries g)) = Some (a1, g1)"
      "create_loop env D url (fst (count_try env tries g)) a1
         (fst (fst (GetUrl D (snd (GetUrl D s abv)) a1))) g1
         (snd (GetUrl D (snd (GetUrl D s abv)) a1)) = Some r"
  using assms
  by (subst (asm) create_loop.simps)
    (auto simp: Let_def bind_eq_Some_conv split: if_splits option.splits)

lemma create_loop_shape:
  assumes "create_loop env D url tries abv u g s = Some r" "chosen g0 abv g"
  shows "snd (fst r) = None \<longrightarrow> chosen g0 (fst (fst r)) (fst (snd r))"
    and "keySize g0 \<le> keySize (fst (snd r)) \<and> draws (src (fst (snd r))) = draws (src g0)"
    and "snd (fst r) \<noteq> None \<longrightarrow> fst (fst r) = ''''"
    and "\<exists>as. snd (snd r) = dao_run D s (map CGetUrl as) \<and>
      (u \<noteq> '''' \<and> url \<noteq> u \<longrightarrow> as \<noteq> [] \<and> hd as = abv)"
proof -
  let ?P = "\<lambda>env D url tries abv u g s r. (chosen g0 abv g \<longrightarrow>
      (snd (fst r) = None \<longrightarrow> chosen g0 (fst (fst r)) (fst (snd r))) \<and>
      keySize g0 \<le> keySize (fst (snd r)) \<and> draws (src (fst (snd r))) = draws (src g0)) \<and>
      (snd (fst r) \<noteq> None \<longrightarrow> fst (fst r) = '''') \<and>
      (\<exists>as. snd (snd r) = dao_run D s (map CGetUrl as) \<and>
        (u \<noteq> '''' \<and> url \<noteq> u \<longrightarrow> as \<noteq> [] \<and> hd as = abv))"
  have "?P env D url tries abv u g s r"
  proof (rule create_loop.raw_induct [where P = ?P, OF _ assms(1)], goal_cases)
    case (1 f env D url tries abv u g s r)
    note IH = "1"(1) and eq = "1"(2)
    show ?case
    proof (cases "u \<noteq> '''' \<and> url \<noteq> u")
      case False
      with eq have "r = ((abv, None), g, s)" by auto
      with False show ?thesis by (auto simp: chosen_def intro: exI [of _ "[]"])
    next
      case go: True
      let ?tg = "count_try env tries g" and ?s1 = "snd (GetUrl D s abv)"
      have tg: "keySize g \<le> keySize (snd ?tg)" "src (snd ?tg) = src g"
        using count_try_keySize by simp_all
      show ?thesis
      proof (cases "snd (fst (GetUrl D s abv))")
        case (Some e)
        with go eq have "r = (('''', Some (''error checking abbreviation '' @ e)), snd ?tg, ?s1)"
          by (simp add: Let_def)
        with go tg show ?thesis
          by (auto simp: chosen_def intro!: exI [of _ "[abv]"])
      next
        case None
        with go eq obtain a1 g1 where a1: "randString env (snd ?tg) = Some (a1, g1)"
          and rest: "f env D url (fst ?tg) a1 (fst (fst (GetUrl D ?s1 a1))) g1 (snd (GetUrl D ?s1 a1)) = Some r"
          by (auto simp: Let_def bind_eq_Some_conv)
        from IH [OF rest] obtain as where
          "snd (snd r) = dao_run D (snd (GetUrl D ?s1 a1)) (map CGetUrl as)" by blast
        then have "snd (snd r) = dao_run D s (map CGetUrl (abv # a1 # as))" by simp
        moreover have "chosen g0 a1 g1" if "chosen g0 abv g"
          using that randString_returned [OF a1] tg by (auto simp: chosen_def drawn_def)
        ultimately show ?thesis using IH [OF rest] go
          by (blast intro: exI [of _ "abv # a1 # as"] list.sel(1))
      qed
    qed
  qed
  with assms(2) show "snd (fst r) = None \<longrightarrow> chosen g0 (fst (fst r)) (fst (snd r))"
    "keySize g0 \<le> keySize (fst (snd r)) \<and> draws (src (fst (snd r))) = draws (src g0)"
    "snd (fst r) \<noteq> None \<longrightarrow> fst (fst r) = ''''"
    "\<exists>as. snd (snd r) = dao_run D s (map CGetUrl as) \<and>
      (u \<noteq> '''' \<and> url \<noteq> u \<longrightarrow> as \<noteq> [] \<and> hd as = abv)"
    by auto
qed

lemma CreateAbbreviation_cases:
  assumes "CreateAbbreviation env D url g s = Some r"
  obtains b g1 where "randString env g = Some (b, g1)" "chosen g b g1"
    "create_loop env D url 0 b (fst (fst (GetUrl D s b))) g1 (snd (GetUrl D s b)) = Some r"
proof -
  from assms obtain b g1 where 1: "randString env g = Some (b, g1)"
    and 2: "create_loop env D url 0 b (fst (fst (GetUrl D s b))) g1 (snd (GetUrl D s b)) = Some r"
    by (auto simp: CreateAbbreviation_def Let_def bind_eq_Some_conv)
  from drawn_chosen [OF randString_returned [OF 1] order_refl refl] have "chosen g b g1" .
  then show ?thesis by (rule that [OF 1 _ 2])
qed

lemma CreateAbbreviation_chosen:
  assumes "CreateAbbreviation env D url g s = Some ((a, e), g', s')"
  shows "e = None \<Longrightarrow> chosen g a g'" and "e \<noteq> None \<Longrightarrow> a = ''''"
    and "keySize g \<le> keySize g' \<and> draws (src g') = draws (src g)"
  using assms by (auto elim!: CreateAbbreviation_cases dest: create_loop_shape)

text \<open>The only calls it makes are look-ups, and a word in use is looked up twice.\<close>

lemma CreateAbbreviation_gets:
  assumes "CreateAbbreviation env D url g s = Some ((a, e), g', s')"
  shows "\<exists>as. s' = dao_run D s (map CGetUrl as)"
proof -
  obtain b g1 where "chosen g b g1"
    and r: "create_loop env D url 0 b (fst (fst (GetUrl D s b))) g1 (snd (GetUrl D s b)) = Some ((a, e), g', s')"
    using CreateAbbreviation_cases [OF assms] .
  then obtain as where "s' = dao_run D (snd (GetUrl D s b)) (map CGetUrl as)"
    using create_loop_shape(4) by fastforce
  then have "s' = dao_run D s (map CGetUrl (b # as))" by simp
  then show ?thesis ..
qed

lemma CreateAbbreviation_probes_twice:
  assumes "CreateAbbreviation env D url g s = Some ((a, e), g', s')"
    and "randString env g = Some (b, g1)" "fst (fst (GetUrl D s b)) \<notin> {'''', url}"
  shows "\<exists>as. s' = dao_run D s (map CGetUrl (b # b # as))"
proof -
  have "chosen g b g1" by (rule drawn_chosen [OF randString_returned [OF assms(2)] order_refl refl])
  moreover have "create_loop env D url 0 b (fst (fst (GetUrl D s b))) g1 (snd (GetUrl D s b))
      = Some ((a, e), g', s')"
    using assms(1,2) by (simp add: CreateAbbreviation_def Let_def)
  ultimately obtain as where as: "s' = dao_run D (snd (GetUrl D s b)) (map CGetUrl as)"
    "as \<noteq> []" "hd as = b"
    using create_loop_shape(4) assms(3) by fastforce
  then have "s' = dao_run D s (map CGetUrl (b # b # tl as))" by (cases as) simp_all
  then show ?thesis ..
qed

section \<open>What it returns, for a store that keeps its contract\<close>

context url_dao
begin

lemma gets_frame:
  "inv s \<Longrightarrow> inv (dao_run D s (map CGetUrl as)) \<and> links (dao_run D s (map CGetUrl as)) = links s"
  by (induction as arbitrary: s) (auto simp: getUrl_frame)

lemma create_frame:
  assumes "inv s" "CreateAbbreviation env D url g s = Some ((a, e), g', s')"
  shows "inv s' \<and> links s' = links s"
  using CreateAbbreviation_gets [OF assms(2)] gets_frame [OF assms(1)] by auto

end

context reading_dao
begin

lemma getUrl_answer:
  "inv s \<Longrightarrow> fst (GetUrl D s a) = (url_or_empty (links s) a, None)"
  using getUrl [of s a "fst (fst (GetUrl D s a))" "snd (fst (GetUrl D s a))" "snd (GetUrl D s a)"]
    getUrl_nil [of s a "fst (fst (GetUrl D s a))" "snd (fst (GetUrl D s a))" "snd (GetUrl D s a)"]
  by (simp add: prod_eq_iff)

lemma create_loop_free:
  assumes "create_loop env D url tries abv u g s = Some r"
    "inv s" "u = url_or_empty (links s) abv"
  shows "snd (fst r) = None \<and> url_or_empty (links s) (fst (fst r)) \<in> {'''', url}"
proof -
  let ?P = "\<lambda>env E url tries abv u g s r. E = D \<longrightarrow> inv s \<longrightarrow> u = url_or_empty (links s) abv \<longrightarrow>
      snd (fst r) = None \<and> url_or_empty (links s) (fst (fst r)) \<in> {'''', url}"
  have "?P env D url tries abv u g s r"
  proof (rule create_loop.raw_induct [where P = ?P, OF _ assms(1)], intro impI, goal_cases)
    case (1 f env E url tries abv u g s r)
    note IH = "1"(1) and eq = "1"(2) and inv = "1"(4)
    have E: "E = D" "u = url_or_empty (links s) abv" using "1" by simp_all
    show ?case
    proof (cases "u \<noteq> '''' \<and> url \<noteq> u")
      case False
      with eq E show ?thesis by auto
    next
      case True
      let ?s1 = "snd (GetUrl D s abv)"
      have s1: "inv ?s1" "links ?s1 = links s" using getUrl_frame [OF inv] by auto
      from True eq E getUrl_answer [OF inv, of abv] obtain a1 g1 where
        "f env D url (fst (count_try env tries g)) a1 (fst (fst (GetUrl D ?s1 a1))) g1
           (snd (GetUrl D ?s1 a1)) = Some r"
        by (auto simp: Let_def bind_eq_Some_conv)
      from IH [OF this] getUrl_frame [OF s1(1)] getUrl_answer [OF s1(1), of a1] s1(2)
      show ?thesis by simp
    qed
  qed
  with assms(2,3) show ?thesis by blast
qed

text \<open>No error, and the word is free or already names this very URL.\<close>

lemma create_free:
  assumes "inv s" "CreateAbbreviation env D url g s = Some ((a, e), g', s')"
  shows "e = None \<and> (links s a = None \<or> links s a = Some url)"
proof -
  obtain b g1 where
    "create_loop env D url 0 b (fst (fst (GetUrl D s b))) g1 (snd (GetUrl D s b)) = Some ((a, e), g', s')"
    using CreateAbbreviation_cases [OF assms(2)] .
  from create_loop_free [OF this] getUrl_frame [OF assms(1), of b] getUrl_answer [OF assms(1), of b]
  have "e = None \<and> url_or_empty (links s) a \<in> {'''', url}" by simp
  then show ?thesis using links_nonempty [OF assms(1), of a]
    by (cases "links s a") auto
qed

text \<open>
  It returns as soon as the generator does: every word is at least as long as \<open>keySize\<close>, each
  run of collisions lengthens it, and no word longer than every stored abbreviation collides.
\<close>

lemma create_loop_returns:
  assumes live: "generator_live env d" and bound: "\<And>a. a \<in> dom L \<Longrightarrow> length a \<le> B"
  shows "inv s \<Longrightarrow> links s = L \<Longrightarrow> u = url_or_empty L abv \<Longrightarrow> draws (src g) = d
    \<Longrightarrow> length abv = nat (keySize g)
    \<Longrightarrow> \<exists>r. create_loop env D url tries abv u g s = Some r"
proof (induction "(nat (int B + 1 - keySize g), nat (keygrowretries env - tries))"
    arbitrary: tries abv u g s rule: wf_induct_rule [OF wf_lex_prod [OF wf_less_than wf_less_than]])
  case (1 tries g abv u s)
  note hyp = "1.hyps" and inv = "1.prems"(1) and L = "1.prems"(2) and len = "1.prems"(5)
  show ?case
  proof (cases "u \<noteq> '''' \<and> url \<noteq> u")
    case False
    then show ?thesis by (subst create_loop.simps) auto
  next
    case True
    let ?tg = "count_try env tries g" and ?s1 = "snd (GetUrl D s abv)"
    have "abv \<in> dom L" using True "1.prems"(3) by (cases "L abv") auto
    then have small: "keySize g \<le> int B" using bound len by fastforce
    obtain a1 g1 where r: "randString env (snd ?tg) = Some (a1, g1)"
      using generator_liveD [OF live, of "snd ?tg"] "1.prems"(4) by auto
    from randString_returned [OF r] have g1: "keySize (snd ?tg) \<le> keySize g1" "draws (src g1) = d"
      "length a1 = nat (keySize g1)"
      using "1.prems"(4) by (simp_all add: drawn_def)
    have s1: "inv ?s1" "links ?s1 = L" using getUrl_frame [OF inv] L by auto
    have less: "((nat (int B + 1 - keySize g1), nat (keygrowretries env - fst ?tg)),
        (nat (int B + 1 - keySize g), nat (keygrowretries env - tries))) \<in> less_than <*lex*> less_than"
      using g1(1) small by (auto simp: count_try_def split: if_splits)
    have "\<exists>r. create_loop env D url (fst ?tg) a1 (fst (fst (GetUrl D ?s1 a1))) g1
        (snd (GetUrl D ?s1 a1)) = Some r"
      using hyp [OF less] getUrl_frame [OF s1(1)] getUrl_answer [OF s1(1), of a1] s1(2) g1 by simp
    with True r getUrl_answer [OF inv, of abv] show ?thesis
      by (subst create_loop.simps) (simp add: Let_def)
  qed
qed

lemma create_returns:
  assumes "generator_live env (draws (src g))" "inv s" "finite (dom (links s))"
  shows "\<exists>r. CreateAbbreviation env D url g s = Some r"
proof -
  obtain b g1 where b: "randString env g = Some (b, g1)"
    using generator_liveD [OF assms(1) refl] by blast
  let ?B = "Max (insert 0 (length ` dom (links s)))"
  have B: "length a \<le> ?B" if "a \<in> dom (links s)" for a using assms(3) that by simp
  have "\<exists>r. create_loop env D url 0 b (fst (fst (GetUrl D s b))) g1 (snd (GetUrl D s b)) = Some r"
    using create_loop_returns [OF assms(1) B] randString_returned [OF b]
      getUrl_frame [OF assms(2)] getUrl_answer [OF assms(2), of b]
    by (simp add: drawn_def)
  with b show ?thesis by (simp add: CreateAbbreviation_def Let_def)
qed

end

end
