(* ===== verification/Status.thy ===== *)
theory Status
  imports Dao
begin

text \<open>
  Package \<open>status\<close> (src/status/status.go) and the health loop of \<open>main\<close> that drives it
  (src/server.go). \<open>Code\<close> is the iota enumeration, ordered by its values; a status is a record,
  each setter stamps it with the next reading of the clock. The two handlers differ in which
  timestamp a client sees: \<open>Handler\<close> stamps at the request, \<open>BackgroundHandler\<close> leaves the stamp
  of the last update.
\<close>

datatype Code = OK | Warning | Critical | Unknown

fun code_value :: "Code \<Rightarrow> int" where
  "code_value OK = 0"
| "code_value Warning = 1"
| "code_value Critical = 2"
| "code_value Unknown = 3"

lemma code_value_inj: "code_value c = code_value c' \<longleftrightarrow> c = c'"
  by (cases c; cases c') simp_all

text \<open>The order of the enumeration's values, for the library's order lemmas.\<close>

instantiation Code :: linorder
begin

definition less_eq_Code :: "Code \<Rightarrow> Code \<Rightarrow> bool" where
  "c \<le> c' \<longleftrightarrow> code_value c \<le> code_value c'"

definition less_Code :: "Code \<Rightarrow> Code \<Rightarrow> bool" where
  "c < c' \<longleftrightarrow> code_value c < code_value c'"

instance
  by standard (auto simp: less_eq_Code_def less_Code_def code_value_inj)

end

record SimpleStatus =
  StatusCode :: Code
  Message :: string
  Timestamp :: string

definition currentTimestamp :: "wall_clock \<Rightarrow> string \<times> wall_clock" where
  "currentTimestamp c = (let (t, c1) = time_Now c in (format_datetime t, c1))"

definition NewStatus :: "wall_clock \<Rightarrow> SimpleStatus \<times> wall_clock" where
  "NewStatus c =
     (let (ts, c1) = currentTimestamp c
      in (\<lparr>StatusCode = Unknown, Message = ''initializing'', Timestamp = ts\<rparr>, c1))"

definition newStatus ::
  "SimpleStatus \<Rightarrow> Code \<Rightarrow> string \<Rightarrow> wall_clock \<Rightarrow> SimpleStatus \<times> wall_clock" where
  "newStatus s code message c =
     (let s1 = s\<lparr>StatusCode := code\<rparr>;
          s2 = s1\<lparr>Message := message\<rparr>;
          (ts, c1) = currentTimestamp c
      in (s2\<lparr>Timestamp := ts\<rparr>, c1))"

definition Current :: "SimpleStatus \<Rightarrow> wall_clock \<Rightarrow> SimpleStatus \<times> wall_clock" where
  "Current s c = (let (ts, c1) = currentTimestamp c in (s\<lparr>Timestamp := ts\<rparr>, c1))"

definition status_Ok where
  "status_Ok s message = newStatus s OK message"

definition status_Warn where
  "status_Warn s message = newStatus s Warning message"

definition status_Critical where
  "status_Critical s message = newStatus s Critical message"

definition status_Unknown where
  "status_Unknown s message = newStatus s Unknown message"

text \<open>The status each handler encodes as its JSON answer, and the status it leaves behind.\<close>

definition status_Handler :: "SimpleStatus \<Rightarrow> wall_clock \<Rightarrow> SimpleStatus \<times> SimpleStatus \<times> wall_clock" where
  "status_Handler s c = (let (s1, c1) = Current s c in (s1, s1, c1))"

definition status_BackgroundHandler :: "SimpleStatus \<Rightarrow> SimpleStatus" where
  "status_BackgroundHandler s = s"

lemma newStatus_fields [simp]:
  "StatusCode (fst (newStatus s c m k)) = c"
  "Message (fst (newStatus s c m k)) = m"
  "Timestamp (fst (newStatus s c m k)) = format_datetime (readings k (ticks k))"
  "readings (snd (newStatus s c m k)) = readings k"
  by (simp_all add: newStatus_def currentTimestamp_def time_Now_def)

section \<open>The health loop\<close>

text \<open>
  One tick of \<open>main\<close>'s ticker: probe the store and record the answer. \<open>health_tick\<close> is the body
  of the loop, \<open>health_loop\<close> its run over a number of ticks.
\<close>

definition health_tick ::
  "('s, 'd) ShortUrlDao \<Rightarrow> SimpleStatus \<times> 's \<times> wall_clock \<Rightarrow> SimpleStatus \<times> 's \<times> wall_clock" where
  "health_tick D = (\<lambda>(s, db, c).
     (let (ok, db1) = IsLikelyOk D db;
          (s1, c1) = (if \<not> ok then status_Warn s ''Database is down'' c else status_Ok s ''All good'' c)
      in (s1, db1, c1)))"

fun health_loop ::
  "nat \<Rightarrow> ('s, 'd) ShortUrlDao \<Rightarrow> SimpleStatus \<times> 's \<times> wall_clock \<Rightarrow> SimpleStatus \<times> 's \<times> wall_clock" where
  "health_loop 0 D st = st"
| "health_loop (Suc n) D st = health_loop n D (health_tick D st)"

text \<open>The store after the probes alone.\<close>

definition probe :: "('s, 'd) ShortUrlDao \<Rightarrow> 's \<Rightarrow> 's" where
  "probe D db = snd (IsLikelyOk D db)"

lemma health_tick_eq:
  "health_tick D (s, db, c) =
     (fst (if fst (IsLikelyOk D db) then newStatus s OK ''All good'' c
           else newStatus s Warning ''Database is down'' c),
      probe D db, c\<lparr>ticks := Suc (ticks c)\<rparr>)"
  by (simp add: health_tick_def probe_def status_Ok_def status_Warn_def newStatus_def
      currentTimestamp_def time_Now_def split: prod.splits)

lemma health_loop_Suc_right: "health_loop (Suc n) D st = health_tick D (health_loop n D st)"
  by (induction n arbitrary: st) simp_all

lemma health_loop_store: "fst (snd (health_loop n D (s, db, c))) = (probe D ^^ n) db"
proof (induction n)
  case (Suc n)
  then show ?case
    by (cases "health_loop n D (s, db, c)") (simp add: health_loop_Suc_right health_tick_eq del: health_loop.simps(2))
qed simp

end
