(* ===== verification/Telemetry.thy ===== *)
theory Telemetry
  imports Env
begin

text \<open>
  Package \<open>telemetry\<close> (src/telemetry/metrics.go). The OpenTelemetry SDK is not modelled: whether it
  makes an exporter, a counter or a histogram is the parameter \<open>otel_sdk\<close>, an error or \<open>nil\<close> for
  each name. A counter of the model is the sum of what was added to it, the histogram the list
  of its samples, newest first.
\<close>

record otel_sdk =
  new_exporter :: "string \<Rightarrow> err"
  new_counter :: "string \<Rightarrow> err"
  new_histogram :: "string \<Rightarrow> err"
  shutdown_provider :: err

record sample =
  s_method :: string
  s_path :: string
  s_status :: int
  s_duration :: int

record otel_metrics =
  ot_Redirects :: "64 word"
  ot_UrlsCreated :: "64 word"
  ot_UrlsDeleted :: "64 word"
  ot_StatsRequests :: "64 word"
  ot_RequestDuration :: "sample list"
  ot_provider :: bool  \<comment> \<open>whether the provider is set\<close>

definition trimScheme :: "string \<Rightarrow> string" where
  "trimScheme endpoint =
     (if length endpoint > 8 \<and> take 8 endpoint = ''https://'' then drop 8 endpoint
      else if length endpoint > 7 \<and> take 7 endpoint = ''http://'' then drop 7 endpoint
      else endpoint)"

definition otlpEndpoint :: "getenv \<Rightarrow> string" where
  "otlpEndpoint env = StringOrDefault env ''OTEL_EXPORTER_OTLP_ENDPOINT'' ''http://localhost:4318''"

definition telemetry_enabled :: "getenv \<Rightarrow> bool" where
  "telemetry_enabled env = BoolOrDefault env ''OTEL_METRICS_ENABLED'' True"

text \<open>The first instrument that cannot be made ends the function with its error.\<close>

definition NewMetrics :: "otel_sdk \<Rightarrow> getenv \<Rightarrow> otel_metrics option \<times> err" where
  "NewMetrics sdk env =
     (if \<not> telemetry_enabled env then (None, None)
      else case new_exporter sdk (trimScheme (otlpEndpoint env)) of Some e \<Rightarrow> (None, Some e) | None \<Rightarrow>
      (case new_counter sdk ''shorturl.redirects'' of Some e \<Rightarrow> (None, Some e) | None \<Rightarrow>
      (case new_counter sdk ''shorturl.urls.created'' of Some e \<Rightarrow> (None, Some e) | None \<Rightarrow>
      (case new_counter sdk ''shorturl.urls.deleted'' of Some e \<Rightarrow> (None, Some e) | None \<Rightarrow>
      (case new_counter sdk ''shorturl.stats.requests'' of Some e \<Rightarrow> (None, Some e) | None \<Rightarrow>
      (case new_histogram sdk ''shorturl.request.duration'' of Some e \<Rightarrow> (None, Some e) | None \<Rightarrow>
        (Some \<lparr>ot_Redirects = 0, ot_UrlsCreated = 0, ot_UrlsDeleted = 0, ot_StatsRequests = 0,
               ot_RequestDuration = [], ot_provider = True\<rparr>, None)))))))"

text \<open>\<open>Shutdown\<close> on a nil receiver or without a provider does nothing.\<close>

definition otel_Shutdown :: "otel_sdk \<Rightarrow> otel_metrics option \<Rightarrow> err" where
  "otel_Shutdown sdk m =
     (case m of None \<Rightarrow> None | Some mm \<Rightarrow> if \<not> ot_provider mm then None else shutdown_provider sdk)"

lemma take_prefix: "take (length p) (p @ s) = p" "drop (length p) (p @ s) = s"
  by simp_all

lemma trimScheme_https: "h \<noteq> '''' \<Longrightarrow> trimScheme (''https://'' @ h) = h"
  by (cases h) (simp_all add: trimScheme_def)

lemma trimScheme_http: "h \<noteq> '''' \<Longrightarrow> trimScheme (''http://'' @ h) = h"
  by (cases h) (simp_all add: trimScheme_def)

text \<open>
  NewMetrics returns a metrics object exactly when telemetry is enabled and the exporter, the four
  counters and the histogram are all made.
\<close>

lemma NewMetrics_cases:
  "fst (NewMetrics sdk env) \<noteq> None \<longleftrightarrow> telemetry_enabled env \<and>
     new_exporter sdk (trimScheme (otlpEndpoint env)) = None \<and>
     (\<forall>n \<in> {''shorturl.redirects'', ''shorturl.urls.created'', ''shorturl.urls.deleted'',
            ''shorturl.stats.requests''}. new_counter sdk n = None) \<and>
     new_histogram sdk ''shorturl.request.duration'' = None"
  by (simp add: NewMetrics_def split: option.splits)

lemma NewMetrics_error: "snd (NewMetrics sdk env) \<noteq> None \<Longrightarrow> fst (NewMetrics sdk env) = None"
  by (auto simp: NewMetrics_def split: option.splits if_splits)

lemma NewMetrics_cases_witness:
  "fst (NewMetrics \<lparr>new_exporter = (\<lambda>_. None), new_counter = (\<lambda>_. None), new_histogram = (\<lambda>_. None),
     shutdown_provider = None\<rparr> (\<lambda>_. '''')) \<noteq> None"
  unfolding NewMetrics_cases by (simp add: telemetry_enabled_def BoolOrDefault_def)

text \<open>
  The endpoint handed to the exporter has lost its scheme: trimScheme takes https:// and http://
  off the front, leaves a name without either alone, and never yields the empty endpoint.
\<close>

lemma trimScheme_spec:
  "(h \<noteq> '''' \<longrightarrow> trimScheme (''https://'' @ h) = h \<and> trimScheme (''http://'' @ h) = h) \<and>
   (take 7 e \<noteq> ''http://'' \<and> take 8 e \<noteq> ''https://'' \<longrightarrow> trimScheme e = e) \<and>
   (e \<noteq> '''' \<longrightarrow> trimScheme e \<noteq> '''')"
  using trimScheme_https trimScheme_http by (auto simp: trimScheme_def)

lemma trimScheme_spec_witness:
  "trimScheme (''https://'' @ ''otel:4318'') = ''otel:4318'' \<and> trimScheme ''otel:4318'' = ''otel:4318''"
  using trimScheme_spec [of "''otel:4318''" "''otel:4318''"] by simp

end
