(* ===== verification/Handlers.thy ===== *)
theory Handlers
  imports Abbreviator Status Telemetry
begin

text \<open>
  The HTTP handlers (src/handlers/handlers.go), over any store. \<open>Handlers\<close> is the Go struct with
  the store's state in place of the interface value and with the generator of package \<open>dao\<close>,
  which \<open>addHandler\<close> advances. The counters of \<open>metrics\<close> are \<open>uint64\<close>. A handler takes the parts
  of the request it reads and returns the response with the state after it; \<open>addHandler\<close> is an
  option because the search for an abbreviation may not return.

  What the handlers ask of libraries outside the repository is a parameter, \<open>web_lib\<close>: decoding a
  JSON string, \<open>url.ParseRequestURI\<close> (scheme and host of a URL that parses), the parsing and
  execution of the statistics template, and the status a file is served with. Responses are kept symbolic: the status with the value
  encoded, before JSON, HTML or the socket.
\<close>

section \<open>State\<close>

record metrics =
  Redirects :: "64 word"
  UrlStats :: "64 word"
  NewUrls :: "64 word"
  Deletes :: "64 word"
  MetricsReqs :: "64 word"
  StatusReqs :: "64 word"
  Uptime :: string

definition zero_metrics :: metrics where
  "zero_metrics = \<lparr>Redirects = 0, UrlStats = 0, NewUrls = 0, Deletes = 0, MetricsReqs = 0,
     StatusReqs = 0, Uptime = ''''\<rparr>"

record urlReturn =
  Abv :: string
  UrlLink :: string
  StatsLink :: string
  StatsUiLink :: string

record 's Handlers =
  db :: 's
  gener :: gen
  hmetrics :: metrics
  otelMetrics :: "otel_metrics option"
  hstatus :: SimpleStatus
  hid :: string

record 'd web_lib =
  decode_string :: "string \<Rightarrow> string \<times> err"
  ParseRequestURI :: "string \<Rightarrow> (string \<times> string) option"
  stats_template :: "('d ShortUrl \<Rightarrow> err) option"
  serve_file :: "string \<Rightarrow> int"

datatype 'd body =
    JText string
  | JUrl urlReturn
  | JStats "'d ShortUrl"
  | JMetrics metrics
  | JStatus SimpleStatus

text \<open>\<open>Failed\<close> is a handler that returns an error, \<open>Panicked\<close> one that panics.\<close>

datatype 'd response =
    StringResp int string
  | JSONResp int "'d body"
  | RedirectResp int string
  | PageResp "'d ShortUrl"
  | FileResp int string
  | Failed int string
  | Panicked string

definition createReturn :: "string \<Rightarrow> urlReturn" where
  "createReturn abv =
     \<lparr>Abv = abv, UrlLink = ''/'' @ abv, StatsLink = ''/'' @ abv @ ''/stats'',
      StatsUiLink = ''/'' @ abv @ ''/stats/ui''\<rparr>"

definition CreateHandlers ::
  "'s \<Rightarrow> gen \<Rightarrow> SimpleStatus \<Rightarrow> string \<Rightarrow> otel_metrics option \<Rightarrow> 's Handlers" where
  "CreateHandlers d g s i otel =
     \<lparr>db = d, gener = g, hmetrics = zero_metrics, otelMetrics = otel, hstatus = s, hid = i\<rparr>"

section \<open>Counters\<close>

definition recordOtelCounter :: "string \<Rightarrow> 's Handlers \<Rightarrow> 's Handlers" where
  "recordOtelCounter operation h =
     (case otelMetrics h of
        None \<Rightarrow> h
      | Some m \<Rightarrow>
          h\<lparr>otelMetrics := Some
              (if operation = ''redirect'' then m\<lparr>ot_Redirects := ot_Redirects m + 1\<rparr>
               else if operation = ''stats'' then m\<lparr>ot_StatsRequests := ot_StatsRequests m + 1\<rparr>
               else if operation = ''create'' then m\<lparr>ot_UrlsCreated := ot_UrlsCreated m + 1\<rparr>
               else if operation = ''delete'' then m\<lparr>ot_UrlsDeleted := ot_UrlsDeleted m + 1\<rparr>
               else m)\<rparr>)"

definition count_redirect :: "'s Handlers \<Rightarrow> 's Handlers" where
  "count_redirect h = recordOtelCounter ''redirect''
     (h\<lparr>hmetrics := (hmetrics h)\<lparr>Redirects := Redirects (hmetrics h) + 1\<rparr>\<rparr>)"

definition count_stats :: "'s Handlers \<Rightarrow> 's Handlers" where
  "count_stats h = recordOtelCounter ''stats''
     (h\<lparr>hmetrics := (hmetrics h)\<lparr>UrlStats := UrlStats (hmetrics h) + 1\<rparr>\<rparr>)"

definition count_new :: "'s Handlers \<Rightarrow> 's Handlers" where
  "count_new h = recordOtelCounter ''create''
     (h\<lparr>hmetrics := (hmetrics h)\<lparr>NewUrls := NewUrls (hmetrics h) + 1\<rparr>\<rparr>)"

definition count_delete :: "'s Handlers \<Rightarrow> 's Handlers" where
  "count_delete h = recordOtelCounter ''delete''
     (h\<lparr>hmetrics := (hmetrics h)\<lparr>Deletes := Deletes (hmetrics h) + 1\<rparr>\<rparr>)"

section \<open>Handlers\<close>

definition getHandler ::
  "('s, 'd) ShortUrlDao \<Rightarrow> string \<Rightarrow> 's Handlers \<Rightarrow> 'd response \<times> 's Handlers" where
  "getHandler D abv h0 =
     (let h = count_redirect h0;
          ((u, e), db1) = GetUrl D (db h) abv;
          h1 = h\<lparr>db := db1\<rparr>
      in case e of
           Some m \<Rightarrow> (StringResp 500 (''Error getting redirect: '' @ m), h1)
         | None \<Rightarrow> if u = '''' then (StringResp 404 ''No link found'', h1)
                   else (RedirectResp 302 u, h1))"

definition statsHandler ::
  "('s, 'd) ShortUrlDao \<Rightarrow> string \<Rightarrow> 's Handlers \<Rightarrow> 'd response \<times> 's Handlers" where
  "statsHandler D abv h0 =
     (let h = count_stats h0;
          ((st, e), db1) = GetStats D (db h) abv;
          h1 = h\<lparr>db := db1\<rparr>
      in case e of
           Some m \<Rightarrow> (StringResp 500 (''Error getting stats: '' @ m), h1)
         | None \<Rightarrow> if Abbreviation st = '''' then (StringResp 404 ''No link found'', h1)
                   else (JSONResp 200 (JStats st), h1))"

text \<open>The checks of the request body: the URL to shorten, or the answer that refuses it.\<close>

definition read_url :: "'d web_lib \<Rightarrow> string \<Rightarrow> 'd response + string" where
  "read_url W body =
     (case decode_string W body of
        (u, Some m) \<Rightarrow> Inl (StringResp 500 (''Error parsing url: '' @ m))
      | (u, None) \<Rightarrow>
          if u = '''' then Inl (StringResp 400 ''Empty url passed in'')
          else case ParseRequestURI W u of
                 None \<Rightarrow> Inl (StringResp 400 ''Invalid url passed in'')
               | Some (scheme, host) \<Rightarrow>
                   if scheme = '''' \<or> host = '''' then Inl (StringResp 400 ''Invalid url passed in'')
                   else Inr u)"

definition addHandler ::
  "getenv \<Rightarrow> 'd web_lib \<Rightarrow> ('s, 'd) ShortUrlDao \<Rightarrow> string \<Rightarrow> 's Handlers
     \<Rightarrow> ('d response \<times> 's Handlers) option" where
  "addHandler env W D body h0 =
     (let h = count_new h0
      in case read_url W body of
           Inl r \<Rightarrow> Some (r, h)
         | Inr u \<Rightarrow>
             (let ((abv, _), db1) = GetAbv D (db h) u
              in if abv \<noteq> '''' then Some (JSONResp 200 (JUrl (createReturn abv)), h\<lparr>db := db1\<rparr>)
                 else Option.bind (CreateAbbreviation env D u (gener h) db1) (\<lambda>((abv1, e), g2, db2).
                   (case e of
                      Some m \<Rightarrow> Some (StringResp 500 (''Error creating abbreviation: '' @ m),
                                      h\<lparr>gener := g2, db := db2\<rparr>)
                    | None \<Rightarrow>
                        (let (e3, db3) = Save D db2 abv1 u; h3 = h\<lparr>gener := g2, db := db3\<rparr>
                         in case e3 of
                              Some m \<Rightarrow> Some (StringResp 500 (''Error saving url: '' @ m), h3)
                            | None \<Rightarrow> Some (JSONResp 200 (JUrl (createReturn abv1)), h3))))))"

definition deleteHandler ::
  "('s, 'd) ShortUrlDao \<Rightarrow> string \<Rightarrow> 's Handlers \<Rightarrow> 'd response \<times> 's Handlers" where
  "deleteHandler D abv h0 =
     (let h = count_delete h0;
          (e, db1) = DeleteAbv D (db h) abv;
          h1 = h\<lparr>db := db1\<rparr>
      in case e of
           Some m \<Rightarrow> (StringResp 500 (''Error deleting: '' @ m), h1)
         | None \<Rightarrow> (JSONResp 200 (JText ''deleted''), h1))"

definition statsUiHandler ::
  "'d web_lib \<Rightarrow> ('s, 'd) ShortUrlDao \<Rightarrow> string \<Rightarrow> 's Handlers \<Rightarrow> 'd response \<times> 's Handlers" where
  "statsUiHandler W D abv h =
     (let ((st, e), db1) = GetStats D (db h) abv;
          h1 = h\<lparr>db := db1\<rparr>
      in case e of
           Some m \<Rightarrow> (StringResp 500 (''Error getting stats: '' @ m), h1)
         | None \<Rightarrow>
             if Abbreviation st = '''' then (StringResp 404 ''No link found'', h1)
             else case stats_template W of
                    None \<Rightarrow> (Panicked ''template: stats.html'', h1)
                  | Some execute \<Rightarrow>
                      (case execute st of Some m \<Rightarrow> (Failed 500 m, h1) | None \<Rightarrow> (PageResp st, h1)))"

text \<open>\<open>m := h.metrics\<close> copies the struct; only the copy gets its \<open>Uptime\<close>.\<close>

definition metricsHandler :: "string \<Rightarrow> 's Handlers \<Rightarrow> 'd response \<times> 's Handlers" where
  "metricsHandler uptime h0 =
     (let h = h0\<lparr>hmetrics := (hmetrics h0)\<lparr>MetricsReqs := MetricsReqs (hmetrics h0) + 1\<rparr>\<rparr>
      in (JSONResp 200 (JMetrics ((hmetrics h)\<lparr>Uptime := uptime\<rparr>)), h))"

section \<open>Routes and middleware\<close>

text \<open>
  A request as the handlers see it: its method, the registered path the router matched
  (\<open>c.Path()\<close>, empty when none matched) with the value of its parameter \<open>abv\<close>, the body, what
  the clock says of the request and of the uptime, and the status the router answers with when
  no route has the method and path.
\<close>

record request =
  Method :: string
  Path :: string
  Param :: string
  Body :: string
  Elapsed :: int
  UptimeNow :: string
  Unrouted :: int

definition appPath :: string where "appPath = ''/:abv''"
definition statsPath :: string where "statsPath = ''/:abv/stats''"
definition statsUiPath :: string where "statsUiPath = ''/:abv/stats/ui''"
definition metricsPath :: string where "metricsPath = ''/diag/metrics''"
definition statusPath :: string where "statusPath = ''/diag/status''"

lemmas path_defs = appPath_def statsPath_def statsUiPath_def metricsPath_def statusPath_def

datatype route =
    R_index | R_favicon | R_status | R_metrics | R_stats | R_statsUi | R_delete | R_get | R_add

definition routes :: "((string \<times> string) \<times> route) list" where
  "routes =
     [((''GET'', ''/''), R_index),
      ((''GET'', ''/favicon.ico''), R_favicon),
      ((''GET'', statusPath), R_status),
      ((''GET'', metricsPath), R_metrics),
      ((''GET'', statsPath), R_stats),
      ((''GET'', statsUiPath), R_statsUi),
      ((''DELETE'', appPath), R_delete),
      ((''GET'', appPath), R_get),
      ((''POST'', ''/''), R_add)]"

definition route_of :: "request \<Rightarrow> route option" where
  "route_of c = map_of routes (Method c, Path c)"

type_synonym ('s, 'd) handler_fun =
  "request \<Rightarrow> 's Handlers \<Rightarrow> (('d response \<times> (string \<times> string) list) \<times> 's Handlers) option"

definition reply :: "'d response \<times> 's Handlers \<Rightarrow> ('d response \<times> (string \<times> string) list) \<times> 's Handlers" where
  "reply = (\<lambda>(r, h). ((r, []), h))"

definition dispatch ::
  "getenv \<Rightarrow> 'd web_lib \<Rightarrow> ('s, 'd) ShortUrlDao \<Rightarrow> ('s, 'd) handler_fun" where
  "dispatch env W D c h =
     (case route_of c of
        None \<Rightarrow> Some (reply (Failed (Unrouted c) '''', h))
      | Some R_index \<Rightarrow> Some (reply (FileResp (serve_file W ''index.html'') ''index.html'', h))
      | Some R_favicon \<Rightarrow> Some (reply (FileResp (serve_file W ''favicon.ico'') ''favicon.ico'', h))
      | Some R_status \<Rightarrow> Some (reply (JSONResp 200 (JStatus (status_BackgroundHandler (hstatus h))), h))
      | Some R_metrics \<Rightarrow> Some (reply (metricsHandler (UptimeNow c) h))
      | Some R_stats \<Rightarrow> Some (reply (statsHandler D (Param c) h))
      | Some R_statsUi \<Rightarrow> Some (reply (statsUiHandler W D (Param c) h))
      | Some R_delete \<Rightarrow> Some (reply (deleteHandler D (Param c) h))
      | Some R_get \<Rightarrow> Some (reply (getHandler D (Param c) h))
      | Some R_add \<Rightarrow> map_option reply (addHandler env W D (Body c) h))"

definition statusHitsCounter :: "('s, 'd) handler_fun \<Rightarrow> ('s, 'd) handler_fun" where
  "statusHitsCounter nxt = (\<lambda>c h.
     nxt c (if Path c = statusPath
            then h\<lparr>hmetrics := (hmetrics h)\<lparr>StatusReqs := StatusReqs (hmetrics h) + 1\<rparr>\<rparr> else h))"

definition idHeader :: "('s, 'd) handler_fun \<Rightarrow> ('s, 'd) handler_fun" where
  "idHeader nxt = (\<lambda>c h.
     map_option (\<lambda>((r, hs), h1). ((r, (''x-instance-uuid'', hid h) # hs), h1)) (nxt c h))"

text \<open>
  The status in echo's response object when the middleware reads it: set by the handler when it
  answered, still 200 when it returned an error, for echo turns the error into an answer only
  after the middleware chain has returned. \<open>client_status\<close> is what the client gets.
\<close>

fun response_status :: "'d response \<Rightarrow> int" where
  "response_status (StringResp n _) = n"
| "response_status (JSONResp n _) = n"
| "response_status (RedirectResp n _) = n"
| "response_status (PageResp _) = 200"
| "response_status (FileResp n _) = n"
| "response_status (Failed _ _) = 200"
| "response_status (Panicked _) = 200"

fun client_status :: "'d response \<Rightarrow> int option" where
  "client_status (Failed n _) = Some n"
| "client_status (Panicked _) = None"
| "client_status r = Some (response_status r)"

definition record_duration :: "request \<Rightarrow> int \<Rightarrow> 's Handlers \<Rightarrow> 's Handlers" where
  "record_duration c st h =
     (case otelMetrics h of
        None \<Rightarrow> h
      | Some m \<Rightarrow> h\<lparr>otelMetrics := Some (m\<lparr>ot_RequestDuration :=
          \<lparr>s_method = Method c, s_path = Path c, s_status = st, s_duration = Elapsed c\<rparr>
            # ot_RequestDuration m\<rparr>)\<rparr>)"

fun is_panic :: "'d response \<Rightarrow> bool" where
  "is_panic (Panicked _) = True"
| "is_panic _ = False"

text \<open>A panic unwinds the middleware: nothing after \<open>next(c)\<close> runs.\<close>

definition otelRequestDuration :: "('s, 'd) handler_fun \<Rightarrow> ('s, 'd) handler_fun" where
  "otelRequestDuration nxt = (\<lambda>c h.
     (case otelMetrics h of
        None \<Rightarrow> nxt c h
      | Some _ \<Rightarrow> map_option (\<lambda>((r, hs), h1).
          ((r, hs), if is_panic r then h1 else record_duration c (response_status r) h1)) (nxt c h)))"

text \<open>The chain \<open>SetUp\<close> installs, outermost first; the request logger only prints.\<close>

definition serve ::
  "getenv \<Rightarrow> 'd web_lib \<Rightarrow> ('s, 'd) ShortUrlDao \<Rightarrow> ('s, 'd) handler_fun" where
  "serve env W D = statusHitsCounter (otelRequestDuration (idHeader (dispatch env W D)))"

fun serve_all ::
  "getenv \<Rightarrow> 'd web_lib \<Rightarrow> ('s, 'd) ShortUrlDao \<Rightarrow> request list \<Rightarrow> 's Handlers
     \<Rightarrow> (('d response \<times> (string \<times> string) list) list \<times> 's Handlers) option" where
  "serve_all env W D [] h = Some ([], h)"
| "serve_all env W D (c # cs) h =
     Option.bind (serve env W D c h) (\<lambda>(r, h1).
       map_option (\<lambda>(rs, h2). (r # rs, h2)) (serve_all env W D cs h1))"

section \<open>What the counters and the middleware leave alone\<close>

lemma count_frame [simp]:
  "db (count_redirect h) = db h" "gener (count_redirect h) = gener h" "hid (count_redirect h) = hid h"
  "db (count_stats h) = db h" "gener (count_stats h) = gener h" "hid (count_stats h) = hid h"
  "db (count_new h) = db h" "gener (count_new h) = gener h" "hid (count_new h) = hid h"
  "db (count_delete h) = db h" "gener (count_delete h) = gener h" "hid (count_delete h) = hid h"
  by (simp_all add: count_redirect_def count_stats_def count_new_def count_delete_def
      recordOtelCounter_def split: option.splits)

lemma record_duration_frame [simp]:
  "db (record_duration c n h) = db h" "gener (record_duration c n h) = gener h"
  "hmetrics (record_duration c n h) = hmetrics h" "hid (record_duration c n h) = hid h"
  by (simp_all add: record_duration_def split: option.splits)

text \<open>Whatever the middleware does, the store and the generator see the routed handler only.\<close>

lemma serve_dispatch:
  assumes "serve env W D c h = Some ((r, hs), h')"
  obtains h0 h1 hs1 where "db h0 = db h" "gener h0 = gener h" "hid h0 = hid h"
    "dispatch env W D c h0 = Some ((r, hs1), h1)" "db h' = db h1" "gener h' = gener h1"
    "hs = (''x-instance-uuid'', hid h) # hs1"
proof -
  define h0 where "h0 = (if Path c = statusPath
    then h\<lparr>hmetrics := (hmetrics h)\<lparr>StatusReqs := StatusReqs (hmetrics h) + 1\<rparr>\<rparr> else h)"
  have h0: "db h0 = db h" "gener h0 = gener h" "hid h0 = hid h" by (simp_all add: h0_def)
  from assms obtain hs1 h1 where "dispatch env W D c h0 = Some ((r, hs1), h1)"
    "db h' = db h1" "gener h' = gener h1" "hs = (''x-instance-uuid'', hid h) # hs1"
    using h0(3) unfolding serve_def statusHitsCounter_def otelRequestDuration_def idHeader_def h0_def [symmetric]
    by (auto split: option.splits if_splits)
  with h0 show ?thesis by (rule that)
qed

end
