(* ===== verification/Service.thy ===== *)
theory Service
  imports Handlers
begin

text \<open>
  The service over a store that keeps its contract: what a client of the HTTP interface can rely
  on when requests are handled one after the other. Everything is proved inside the contract
  locales, once for all stores. The condition \<open>1 \<le> keySize\<close> is what a sensible
  \<open>startingkeysize\<close> gives; without it the empty string may be handed out as an abbreviation.
\<close>

section \<open>Reading the request\<close>

lemma read_url_nonempty: "read_url W body = Inr u \<Longrightarrow> u \<noteq> ''''"
  by (auto simp: read_url_def split: prod.splits option.splits if_splits)

lemma read_url_refused:
  "read_url W body = Inl r \<Longrightarrow> \<exists>n m. r = StringResp n m \<and> n \<in> {400, 500}"
  by (auto simp: read_url_def split: prod.splits option.splits if_splits)

lemma addHandler_refused:
  "read_url W body = Inl r \<Longrightarrow> addHandler env W D body h = Some (r, count_new h)"
  by (simp add: addHandler_def)

lemma addHandler_url:
  assumes "addHandler env W D body h = Some (JSONResp n (JUrl ret), h')"
  obtains u where "read_url W body = Inr u"
proof (cases "read_url W body")
  case (Inl r)
  then obtain k m where "r = StringResp k m" using read_url_refused by blast
  with addHandler_refused [OF Inl, of env D h] assms show ?thesis by simp
qed (rule that)

lemma addHandler_returns:
  assumes "read_url W body = Inr u" "GetAbv D (db h) u = ((a, e), db1)"
    and "CreateAbbreviation env D u (gener h) db1 = Some ((a1, e1), g2, db2)"
  shows "\<exists>r h'. addHandler env W D body h = Some (r, h')"
proof -
  obtain e3 db3 where "Save D db2 a1 u = (e3, db3)" by (metis prod.exhaust)
  with assms show ?thesis by (cases "a = []"; cases e1; cases e3) (auto simp: addHandler_def Let_def)
qed

text \<open>The accepted request, taken apart into its look-up, its search and its save.\<close>

lemma addHandler_accepted:
  assumes "addHandler env W D body h = Some (r, h')" "read_url W body = Inr u"
  obtains (known) a e db1 where "GetAbv D (db h) u = ((a, e), db1)" "a \<noteq> ''''"
      "r = JSONResp 200 (JUrl (createReturn a))" "db h' = db1" "gener h' = gener h"
  | (failed) e db1 a m g2 db2 where "GetAbv D (db h) u = (('''', e), db1)"
      "CreateAbbreviation env D u (gener h) db1 = Some ((a, Some m), g2, db2)"
      "r = StringResp 500 (''Error creating abbreviation: '' @ m)" "db h' = db2" "gener h' = g2"
  | (saved) e db1 a g2 db2 e3 where "GetAbv D (db h) u = (('''', e), db1)"
      "CreateAbbreviation env D u (gener h) db1 = Some ((a, None), g2, db2)"
      "Save D db2 a u = (e3, db h')" "gener h' = g2"
      "r = (case e3 of Some m \<Rightarrow> StringResp 500 (''Error saving url: '' @ m)
            | None \<Rightarrow> JSONResp 200 (JUrl (createReturn a)))"
proof -
  obtain a e db1 where ga: "GetAbv D (db h) u = ((a, e), db1)" by (metis prod.exhaust)
  show ?thesis
  proof (cases "a = ''''")
    case False
    with assms ga show ?thesis by (intro known) (auto simp: addHandler_def Let_def)
  next
    case True
    with assms ga obtain a1 e1 g2 db2 where
      c: "CreateAbbreviation env D u (gener h) db1 = Some ((a1, e1), g2, db2)"
      by (auto simp: addHandler_def Let_def bind_eq_Some_conv)
    obtain e3 db3 where sv: "Save D db2 a1 u = (e3, db3)" by (metis prod.exhaust)
    show ?thesis
    proof (cases e1)
      case (Some m)
      with assms ga True c show ?thesis by (intro failed) (auto simp: addHandler_def Let_def)
    next
      case None
      have "r = (case e3 of Some m \<Rightarrow> StringResp 500 (''Error saving url: '' @ m)
            | None \<Rightarrow> JSONResp 200 (JUrl (createReturn a1))) \<and> h' = (count_new h)\<lparr>gener := g2, db := db3\<rparr>"
        using assms ga True c sv None by (cases e3) (auto simp: addHandler_def Let_def)
      with ga True c sv None show ?thesis by (intro saved [of e db1 a1 g2 db2 e3]) simp_all
    qed
  qed
qed

section \<open>Handlers over a store that keeps its contract\<close>

text \<open>An abbreviation drawn with a positive \<open>keySize\<close> is not empty.\<close>

lemma chosen_nonempty: "chosen g a g' \<Longrightarrow> 1 \<le> keySize g \<Longrightarrow> a \<noteq> ''''"
  by (auto simp: chosen_def)

text \<open>
  The store has room for the request: for its URL under every abbreviation of at most \<open>k\<close>
  characters, \<open>k\<close> being the \<open>keySize\<close> reached in the end.
\<close>

definition has_room :: "(string \<Rightarrow> string \<Rightarrow> bool) \<Rightarrow> 'd web_lib \<Rightarrow> int \<Rightarrow> request \<Rightarrow> bool" where
  "has_room fits W k c \<longleftrightarrow> (\<forall>a u. length a \<le> nat k \<longrightarrow> read_url W (Body c) = Inr u \<longrightarrow> fits a u)"

lemma has_room_True [simp]: "has_room (\<lambda>_ _. True) W k c"
  by (simp add: has_room_def)

lemma has_room_mono: "has_room fits W k c \<Longrightarrow> j \<le> k \<Longrightarrow> has_room fits W j c"
  unfolding has_room_def using nat_mono le_trans by blast

context url_dao
begin

lemma getHandler_db:
  "inv (db h) \<Longrightarrow> getHandler D a h = (r, h') \<Longrightarrow>
     inv (db h') \<and> links (db h') = links (db h) \<and> gener h' = gener h"
  using getUrl_frame [of "db h" a]
  by (auto simp: getHandler_def Let_def split: prod.splits option.splits if_splits)

lemma statsHandler_db:
  "inv (db h) \<Longrightarrow> statsHandler D a h = (r, h') \<Longrightarrow>
     inv (db h') \<and> links (db h') = links (db h) \<and> gener h' = gener h"
  using getStats_frame [of "db h" a]
  by (auto simp: statsHandler_def Let_def split: prod.splits option.splits if_splits)

lemma statsUiHandler_db:
  "inv (db h) \<Longrightarrow> statsUiHandler W D a h = (r, h') \<Longrightarrow>
     inv (db h') \<and> links (db h') = links (db h) \<and> gener h' = gener h"
  using getStats_frame [of "db h" a]
  by (auto simp: statsUiHandler_def Let_def split: prod.splits option.splits if_splits)

lemma deleteHandler_db:
  "inv (db h) \<Longrightarrow> deleteHandler D a h = (r, h') \<Longrightarrow>
     inv (db h') \<and> gener h' = gener h \<and>
     (links (db h') = (links (db h))(a := None) \<or>
      r \<noteq> JSONResp 200 (JText ''deleted'') \<and> links (db h') = links (db h))"
  using deleteAbv [of "db h" a]
  by (auto simp: deleteHandler_def Let_def split: prod.splits option.splits if_splits)

end

context reading_dao
begin

lemma getHandler_response:
  assumes "inv (db h)"
  shows "fst (getHandler D a h) =
    (case links (db h) a of None \<Rightarrow> StringResp 404 ''No link found'' | Some u \<Rightarrow> RedirectResp 302 u)"
  using getUrl_answer [OF assms, of a] links_nonempty [OF assms, of a]
  by (auto simp: getHandler_def Let_def split: prod.splits option.splits)

text \<open>
  A URL that is known keeps its abbreviation; one that is not gets an abbreviation that was
  free. In both cases the answer names a link that is stored, unless the store refused the save.
\<close>

lemma addHandler_db:
  assumes "inv (db h)" "1 \<le> keySize (gener h)" "read_url W body = Inr u"
    and "\<And>a. length a \<le> nat (keySize (gener h')) \<Longrightarrow> fits a u"
    and "addHandler env W D body h = Some (r, h')"
  shows "inv (db h') \<and> keySize (gener h) \<le> keySize (gener h') \<and>
    (\<exists>a. r = JSONResp 200 (JUrl (createReturn a)) \<and>
       (links (db h) a = Some u \<and> links (db h') = links (db h) \<or>
        links (db h) a = None \<and> u \<notin> ran (links (db h)) \<and> links (db h') = (links (db h))(a \<mapsto> u)) \<or>
     (\<exists>m. r = StringResp 500 m) \<and>
       (links (db h') = links (db h) \<or>
        links (db h) a = None \<and> u \<notin> ran (links (db h)) \<and> links (db h') = (links (db h))(a \<mapsto> u)))"
  using assms(5,3)
proof (cases rule: addHandler_accepted)
  case (known a e db1)
  have "e = None" using getAbv_nil [OF assms(1) known(1)] .
  with getAbv [OF assms(1) known(1)] known assms(2) show ?thesis by auto
next
  case (failed e db1 a m g2 db2)
  have db1: "inv db1" using getAbv [OF assms(1) failed(1)] by simp
  show ?thesis using create_free [OF db1 failed(2)] by simp
next
  case (saved e db1 a g2 db2 e3)
  have "e = None" using getAbv_nil [OF assms(1) saved(1)] .
  with getAbv [OF assms(1) saved(1)]
  have db1: "inv db1" "links db1 = links (db h)" "u \<notin> ran (links (db h))" by simp_all
  have db2: "inv db2" "links db2 = links (db h)"
    using create_frame [OF db1(1) saved(2)] db1(2) by simp_all
  have fit: "fits a u"
    using assms(4) CreateAbbreviation_chosen(1) [OF saved(2)] saved(4) by (simp add: chosen_def)
  have free: "links (db h) a = None"
    using create_free [OF db1(1) saved(2)] db1 by (auto simp: ran_def)
  have g2: "chosen (gener h) a g2" using CreateAbbreviation_chosen(1) [OF saved(2)] by simp
  then have "savable (links db2) a u"
    using free db1(3) db2(2) chosen_nonempty [OF g2 assms(2)] read_url_nonempty [OF assms(3)]
    by (simp add: savable_def)
  from save [OF db2(1) fit this saved(3)] saved(4,5) free db1(3) db2(2) g2
  show ?thesis by (cases e3) (auto simp: chosen_def)
qed

end

section \<open>Requests\<close>

text \<open>Whatever the store, \<open>keySize\<close> only grows.\<close>

lemma addHandler_keySize:
  assumes "addHandler env W D body h = Some (r, h')" shows "keySize (gener h) \<le> keySize (gener h')"
proof (cases "read_url W body")
  case (Inl x)
  with assms addHandler_refused [OF Inl, of env D h] show ?thesis by auto
next
  case (Inr u)
  from assms Inr show ?thesis
  proof (cases rule: addHandler_accepted)
    case (failed e db1 a m g2 db2)
    with CreateAbbreviation_chosen(3) [OF failed(2)] show ?thesis by simp
  next
    case (saved e db1 a g2 db2 e3)
    with CreateAbbreviation_chosen(3) [OF saved(2)] show ?thesis by simp
  qed simp
qed

lemma dispatch_keySize:
  assumes "dispatch env W D c h = Some ((r, hs), h')" shows "keySize (gener h) \<le> keySize (gener h')"
proof (cases "route_of c = Some R_add")
  case True
  with assms have "addHandler env W D (Body c) h = Some (r, h')" by (auto simp: dispatch_def reply_def)
  then show ?thesis by (rule addHandler_keySize)
next
  case False
  with assms have "gener h' = gener h"
    by (auto simp: dispatch_def reply_def getHandler_def statsHandler_def statsUiHandler_def deleteHandler_def
        metricsHandler_def Let_def split: option.splits route.splits prod.splits if_splits)
  then show ?thesis by simp
qed

lemma serve_keySize:
  assumes "serve env W D c h = Some ((r, hs), h')" shows "keySize (gener h) \<le> keySize (gener h')"
proof -
  obtain h0 h1 hs1 where "gener h0 = gener h" "dispatch env W D c h0 = Some ((r, hs1), h1)" "gener h' = gener h1"
    using serve_dispatch [OF assms] .
  with dispatch_keySize [OF this(2)] show ?thesis by simp
qed

lemma serve_all_keySize:
  "serve_all env W D cs h = Some (rs, h') \<Longrightarrow> keySize (gener h) \<le> keySize (gener h')"
proof (induction cs arbitrary: h rs)
  case (Cons c cs)
  then obtain r hs h1 rs1 where "serve env W D c h = Some ((r, hs), h1)" "serve_all env W D cs h1 = Some (rs1, h')"
    by (auto simp: bind_eq_Some_conv)
  with serve_keySize [of env W D c h r hs h1] Cons.IH [of h1 rs1] show ?case by simp
qed simp

lemma route_of_delete:
  "route_of c = Some R_delete \<longleftrightarrow> Method c = ''DELETE'' \<and> Path c = appPath"
  by (auto simp: route_of_def routes_def path_defs)

lemma route_of_add: "route_of c = Some R_add \<longleftrightarrow> Method c = ''POST'' \<and> Path c = ''/''"
  by (auto simp: route_of_def routes_def path_defs)

lemma route_of_get: "route_of c = Some R_get \<longleftrightarrow> Method c = ''GET'' \<and> Path c = appPath"
  by (auto simp: route_of_def routes_def path_defs)

text \<open>Only the creation of a link answers with the addresses of one.\<close>

lemma not_url [simp]:
  "getHandler D a h \<noteq> (JSONResp n (JUrl ret), h')"
  "statsHandler D a h \<noteq> (JSONResp n (JUrl ret), h')"
  "statsUiHandler W D a h \<noteq> (JSONResp n (JUrl ret), h')"
  "deleteHandler D a h \<noteq> (JSONResp n (JUrl ret), h')"
  "metricsHandler s h \<noteq> (JSONResp n (JUrl ret), h')"
  by (auto simp: getHandler_def statsHandler_def statsUiHandler_def deleteHandler_def
      metricsHandler_def Let_def split: prod.splits option.splits if_splits)

lemma dispatch_url_is_add:
  assumes "dispatch env W D c h = Some ((JSONResp n (JUrl ret), hs), h')"
  shows "route_of c = Some R_add"
proof (cases "route_of c")
  case (Some ro)
  with assms show ?thesis by (cases ro) (simp_all add: dispatch_def reply_def split: prod.splits)
qed (use assms in \<open>simp add: dispatch_def reply_def\<close>)

text \<open>The requests that ask for an abbreviation's deletion.\<close>

definition deletes :: "string \<Rightarrow> request \<Rightarrow> bool" where
  "deletes a c \<longleftrightarrow> route_of c = Some R_delete \<and> Param c = a"

context reading_dao
begin

lemma dispatch_db:
  assumes "inv (db h)" "1 \<le> keySize (gener h)" "has_room fits W (keySize (gener h')) c"
    and "dispatch env W D c h = Some ((r, hs), h')"
  shows "inv (db h') \<and> keySize (gener h) \<le> keySize (gener h') \<and>
    (\<forall>a u. links (db h) a = Some u \<longrightarrow> \<not> deletes a c \<longrightarrow> links (db h') a = Some u)"
proof (cases "route_of c")
  case None
  with assms show ?thesis by (simp add: dispatch_def reply_def)
next
  case (Some ro)
  show ?thesis
  proof (cases ro)
    case R_add
    show ?thesis
    proof (cases "read_url W (Body c)")
      case (Inl x)
      with assms Some R_add show ?thesis by (auto simp: dispatch_def reply_def addHandler_refused)
    next
      case (Inr u)
      from assms(4) Some R_add have "addHandler env W D (Body c) h = Some (r, h')"
        by (auto simp: dispatch_def reply_def)
      from addHandler_db [OF assms(1,2) Inr _ this] assms(3) Inr show ?thesis by (auto simp: has_room_def)
    qed
  next
    case R_delete
    with assms(4) Some have "deleteHandler D (Param c) h = (r, h')"
      by (auto simp: dispatch_def reply_def split: prod.splits)
    from deleteHandler_db [OF assms(1) this] Some R_delete show ?thesis
      by (auto simp: deletes_def)
  next
    case R_get
    with assms(4) Some have "getHandler D (Param c) h = (r, h')"
      by (auto simp: dispatch_def reply_def split: prod.splits)
    from getHandler_db [OF assms(1) this] show ?thesis by simp
  next
    case R_stats
    with assms(4) Some have "statsHandler D (Param c) h = (r, h')"
      by (auto simp: dispatch_def reply_def split: prod.splits)
    from statsHandler_db [OF assms(1) this] show ?thesis by simp
  next
    case R_statsUi
    with assms(4) Some have "statsUiHandler W D (Param c) h = (r, h')"
      by (auto simp: dispatch_def reply_def split: prod.splits)
    from statsUiHandler_db [OF assms(1) this] show ?thesis by simp
  qed (use assms Some in \<open>auto simp: dispatch_def reply_def metricsHandler_def\<close>)
qed

lemma serve_db:
  assumes "inv (db h)" "1 \<le> keySize (gener h)" "has_room fits W (keySize (gener h')) c"
    and "serve env W D c h = Some ((r, hs), h')"
  shows "inv (db h') \<and> keySize (gener h) \<le> keySize (gener h') \<and>
    (\<forall>a u. links (db h) a = Some u \<longrightarrow> \<not> deletes a c \<longrightarrow> links (db h') a = Some u)"
proof -
  obtain h0 h1 hs1 where h0: "db h0 = db h" "gener h0 = gener h"
    and d: "dispatch env W D c h0 = Some ((r, hs1), h1)" and h1: "db h' = db h1" "gener h' = gener h1"
    using serve_dispatch [OF assms(4)] .
  have "inv (db h0)" "1 \<le> keySize (gener h0)" using assms(1,2) h0 by simp_all
  from dispatch_db [OF this _ d] assms(3) show ?thesis using h0 h1 by simp
qed

text \<open>\<open>keySize\<close> only grows, whatever the store.\<close>

lemma serve_all_db:
  assumes "inv (db h)" "1 \<le> keySize (gener h)" "serve_all env W D cs h = Some (rs, h')"
    and "\<And>c. c \<in> set cs \<Longrightarrow> has_room fits W (keySize (gener h')) c"
  shows "inv (db h') \<and> keySize (gener h) \<le> keySize (gener h') \<and>
    (\<forall>a u. links (db h) a = Some u \<longrightarrow> (\<forall>c \<in> set cs. \<not> deletes a c) \<longrightarrow> links (db h') a = Some u)"
  using assms
proof (induction cs arbitrary: h rs)
  case (Cons c cs)
  from Cons.prems(3) obtain r hs h1 rs1 where
    1: "serve env W D c h = Some ((r, hs), h1)" and 2: "serve_all env W D cs h1 = Some (rs1, h')"
    by (auto simp: bind_eq_Some_conv)
  have "keySize (gener h1) \<le> keySize (gener h')" using serve_all_keySize [OF 2] .
  then have "has_room fits W (keySize (gener h1)) c" using Cons.prems(4) [of c] by (auto intro: has_room_mono)
  from serve_db [OF Cons.prems(1,2) this 1] Cons.prems(2,4) Cons.IH [OF _ _ 2] show ?case by auto
qed simp

lemma serve_confirms:
  assumes "inv (db h)" "1 \<le> keySize (gener h)" "has_room fits W (keySize (gener h')) c"
    and "serve env W D c h = Some ((JSONResp 200 (JUrl ret), hs), h')"
  obtains u where "read_url W (Body c) = Inr u" "links (db h') (Abv ret) = Some u"
    "ret = createReturn (Abv ret)"
proof -
  obtain h0 h1 hs1 where h0: "db h0 = db h" "gener h0 = gener h"
    and d: "dispatch env W D c h0 = Some ((JSONResp 200 (JUrl ret), hs1), h1)" and h1: "db h' = db h1" "gener h' = gener h1"
    using serve_dispatch [OF assms(4)] .
  from d have "route_of c = Some R_add" by (rule dispatch_url_is_add)
  with d have a: "addHandler env W D (Body c) h0 = Some (JSONResp 200 (JUrl ret), h1)"
    by (auto simp: dispatch_def reply_def)
  then obtain u where u: "read_url W (Body c) = Inr u" by (rule addHandler_url)
  have "inv (db h0)" "1 \<le> keySize (gener h0)" using assms(1,2) h0 by simp_all
  moreover have "length b \<le> nat (keySize (gener h1)) \<Longrightarrow> fits b u" for b
    using assms(3) h1 u by (simp add: has_room_def)
  ultimately obtain b where "ret = createReturn b" "links (db h1) b = Some u"
    using addHandler_db [OF _ _ u _ a] by auto
  then show ?thesis using h1 by (intro that [OF u]) (simp_all add: createReturn_def)
qed

text \<open>A confirmed link keeps redirecting until somebody deletes it.\<close>

lemma confirmed_resolves:
  assumes "inv (db h)" "1 \<le> keySize (gener h)"
    and "\<And>c'. c' \<in> insert c (set cs) \<Longrightarrow> has_room fits W (keySize (gener h2)) c'"
    and "serve env W D c h = Some ((JSONResp 200 (JUrl ret), hs), h1)"
    and "serve_all env W D cs h1 = Some (rs, h2)" "\<forall>c' \<in> set cs. \<not> deletes (Abv ret) c'"
  shows "\<exists>u. read_url W (Body c) = Inr u \<and> fst (getHandler D (Abv ret) h2) = RedirectResp 302 u"
proof -
  have room: "has_room fits W (keySize (gener h1)) c"
    using assms(3) [of c] serve_all_keySize [OF assms(5)] by (auto intro: has_room_mono)
  obtain u where u: "read_url W (Body c) = Inr u" "links (db h1) (Abv ret) = Some u"
    using serve_confirms [OF assms(1,2) room assms(4)] .
  have h1: "inv (db h1)" "1 \<le> keySize (gener h1)" using serve_db [OF assms(1,2) room assms(4)] assms(2) by simp_all
  from serve_all_db [OF h1 assms(5)] assms(3) u(2) assms(6)
  have "inv (db h2)" "links (db h2) (Abv ret) = Some u" by simp_all
  with u(1) show ?thesis by (simp add: getHandler_response)
qed

end

context reliable_dao
begin

lemma deleteHandler_response:
  "inv (db h) \<Longrightarrow> fst (deleteHandler D a h) = JSONResp 200 (JText ''deleted'')"
  using deleteAbv_nil [of "db h" a]
  by (auto simp: deleteHandler_def Let_def split: prod.splits option.splits)

lemma delete_then_get:
  assumes "inv (db h)"
  shows "fst (getHandler D b (snd (deleteHandler D a h))) =
    (if b = a then StringResp 404 ''No link found'' else fst (getHandler D b h))"
proof -
  obtain r h1 where d: "deleteHandler D a h = (r, h1)" by (metis prod.exhaust)
  with deleteHandler_response [OF assms, of a] have "r = JSONResp 200 (JText ''deleted'')" by simp
  with deleteHandler_db [OF assms d]
  have "inv (db h1)" "links (db h1) = (links (db h))(a := None)" by simp_all
  with d assms show ?thesis by (simp add: getHandler_response)
qed

lemma statsHandler_response:
  assumes "inv (db h)"
  shows "(case links (db h) a of
      None \<Rightarrow> fst (statsHandler D a h) = StringResp 404 ''No link found''
    | Some u \<Rightarrow> \<exists>st. fst (statsHandler D a h) = JSONResp 200 (JStats st) \<and> Abbreviation st = a \<and> Url st = u)"
proof -
  obtain st e db1 where g: "GetStats D (db h) a = ((st, e), db1)" by (metis prod.exhaust)
  with getStats_nil [OF assms g] getStats [OF assms g] links_nonempty [OF assms, of a] show ?thesis
    by (cases "links (db h) a") (auto simp: statsHandler_def)
qed

lemma addHandler_always:
  assumes "inv (db h)" "1 \<le> keySize (gener h)" "read_url W body = Inr u"
    and "\<And>a. length a \<le> nat (keySize (gener h')) \<Longrightarrow> fits a u"
    and "addHandler env W D body h = Some (r, h')"
  obtains a where "r = JSONResp 200 (JUrl (createReturn a))" "links (db h') a = Some u"
    "inv (db h')" "1 \<le> keySize (gener h')"
    "\<And>b. b \<noteq> a \<Longrightarrow> links (db h') b = links (db h) b"
    "links (db h) a = None \<or> links (db h') = links (db h)"
  using assms(5,3)
proof (cases rule: addHandler_accepted)
  case (failed e db1 a m g2 db2)
  have "inv db1" using getAbv [OF assms(1) failed(1)] by simp
  from create_free [OF this failed(2)] have False by simp
  then show ?thesis ..
next
  case (known a e db1)
  with addHandler_db [OF assms(1-3) _ assms(5)] assms(2,4) that show ?thesis by (fastforce simp: createReturn_def)
next
  case (saved e db1 a g2 db2 e3)
  have "e = None" using getAbv_nil [OF assms(1) saved(1)] .
  with getAbv [OF assms(1) saved(1)]
  have db1: "inv db1" "links db1 = links (db h)" "u \<notin> ran (links (db h))" by simp_all
  have db2: "inv db2" "links db2 = links (db h)"
    using create_frame [OF db1(1) saved(2)] db1(2) by simp_all
  have "savable (links db2) a u"
    using create_free [OF db1(1) saved(2)] db1 db2(2) read_url_nonempty [OF assms(3)]
      chosen_nonempty [OF CreateAbbreviation_chosen(1) [OF saved(2)] assms(2)]
    by (auto simp: savable_def ran_def)
  moreover have "fits a u"
    using assms(4) CreateAbbreviation_chosen(1) [OF saved(2)] saved(4) by (simp add: chosen_def)
  ultimately have "r = JSONResp 200 (JUrl (createReturn a))"
    using save_nil [OF db2(1) _ _ saved(3)] saved(5) by simp
  with addHandler_db [OF assms(1-3) _ assms(5)] assms(2,4) that show ?thesis by (fastforce simp: createReturn_def)
qed

text \<open>
  A valid request is answered, when the word generator is live and finitely many links are stored;
  and asking again gives the same abbreviation.
\<close>

lemma add_total:
  assumes "inv (db h)" "1 \<le> keySize (gener h)" "generator_live env (draws (src (gener h)))"
    and "read_url W body = Inr u" "finite (dom (links (db h)))"
  obtains r h' where "addHandler env W D body h = Some (r, h')"
proof -
  obtain a0 e db1 where ga: "GetAbv D (db h) u = ((a0, e), db1)" by (metis prod.exhaust)
  from getAbv [OF assms(1) ga] assms(5) have db1: "inv db1" "finite (dom (links db1))" by simp_all
  obtain a1 e1 g' d' where "CreateAbbreviation env D u (gener h) db1 = Some ((a1, e1), g', d')"
    using create_returns [OF assms(3) db1, of u] by auto
  from addHandler_returns [OF assms(4) ga this] that show ?thesis by blast
qed

lemma add_answered:
  assumes "inv (db h)" "1 \<le> keySize (gener h)" "read_url W body = Inr u"
    and "addHandler env W D body h = Some (r, h')"
    and "\<And>a. length a \<le> nat (keySize (gener h')) \<Longrightarrow> fits a u"
  shows "\<exists>a. r = JSONResp 200 (JUrl (createReturn a)) \<and>
    links (db h') = (links (db h))(a \<mapsto> u) \<and> (links (db h) a = None \<or> links (db h) a = Some u) \<and>
    (\<exists>h''. addHandler env W D body h' = Some (JSONResp 200 (JUrl (createReturn a)), h''))"
proof -
  obtain a where a: "r = JSONResp 200 (JUrl (createReturn a))" "links (db h') a = Some u" "inv (db h')"
    "\<And>b. b \<noteq> a \<Longrightarrow> links (db h') b = links (db h) b"
    "links (db h) a = None \<or> links (db h') = links (db h)"
    using addHandler_always [OF assms(1-3,5,4)] by metis
  have "links (db h') = (links (db h))(a \<mapsto> u)" using a(2,4) by (auto simp: fun_eq_iff)
  moreover have "links (db h) a = None \<or> links (db h) a = Some u" using a(2,5) by auto
  moreover obtain v e2 db2 where ga2: "GetAbv D (db h') u = ((v, e2), db2)" by (metis prod.exhaust)
  moreover have "e2 = None" using getAbv_nil [OF a(3) ga2] .
  with getAbv_inverse [OF a(3,2)] ga2 links_nonempty [OF a(3,2)] have "v = a" "a \<noteq> ''''" by auto
  ultimately show ?thesis using a(1) assms(3) by (auto simp: addHandler_def Let_def)
qed

end

end
