(* ===== verification/MemoryRefine.thy ===== *)
theory MemoryRefine
  imports MemoryDB
begin

text \<open>
  \<open>MemoryDB\<close> against the specification of \<open>LinkSpec\<close>: \<open>mem_view\<close> reads the links with their
  statistics out of the heaps, and each method refines the operation of the specification. Every
  sequence of method calls, however calls of several requests interleave, keeps the heaps
  well-formed and the two records of a link's hits in balance. The last section states what the
  representation does let go wrong: a \<open>Save\<close> over an abbreviation in use, and the map that
  \<open>GetStats\<close> shares with the store.
\<close>

section \<open>Abstraction\<close>

definition obj_link :: "MemoryDB \<Rightarrow> nat \<Rightarrow> link" where
  "obj_link d p =
     \<lparr>target = Url (objs d p), hit_count = Hits (objs d p), last_access = LastAccess (objs d p),
      daily = (case DailyHits (objs d p) of None \<Rightarrow> Map.empty | Some m \<Rightarrow> hmaps d m)\<rparr>"

definition mem_view :: "MemoryDB \<Rightarrow> string \<rightharpoonup> link" where
  "mem_view d a = map_option (obj_link d) (abvNdxMap d a)"

lemma mem_links_view: "mem_links d a = map_option target (mem_view d a)"
  by (simp add: mem_links_def mem_view_def obj_link_def option.map_comp comp_def)

lemma obj_link_cong:
  assumes "objs d' p = objs d p" "\<And>m. DailyHits (objs d p) = Some m \<Longrightarrow> hmaps d' m = hmaps d m"
  shows "obj_link d' p = obj_link d p"
  using assms by (auto simp: obj_link_def split: option.splits)

lemma obj_link_indexes [simp]:
  "obj_link (d\<lparr>urlNdxMap := x\<rparr>) = obj_link d"
  "obj_link (d\<lparr>abvNdxMap := y\<rparr>) = obj_link d"
  by (rule ext, rule obj_link_cong, simp_all)+

lemma mem_view_CreateMemoryDB [simp]: "mem_view (CreateMemoryDB c) = Map.empty"
  by (simp add: mem_view_def CreateMemoryDB_def fun_eq_iff)

section \<open>Every method refines its specification\<close>

lemma mem_view_Save:
  assumes "wf_mem d"
  shows "mem_view (snd (mem_Save d a u)) = spec_save (mem_view d) a u"
proof
  fix b
  let ?d = "snd (mem_Save d a u)"
  have old: "obj_link ?d p = obj_link d p" if "abvNdxMap d b = Some p" for p
  proof (rule obj_link_cong)
    have "p < nobj d" using wf_abv [OF assms that] by simp
    then show "objs ?d p = objs d p"
      by (simp add: mem_Save_def make_map_def new_ShortUrl_def)
    fix m assume "DailyHits (objs d p) = Some m"
    then have "m \<noteq> nmap d" using wf_map [OF assms \<open>p < nobj d\<close>] by auto
    then show "hmaps ?d m = hmaps d m"
      by (simp add: mem_Save_def make_map_def new_ShortUrl_def)
  qed
  show "mem_view ?d b = spec_save (mem_view d) a u b"
  proof (cases "b = a")
    case True
    then show ?thesis
      by (simp add: mem_view_def spec_save_def new_link_def obj_link_def mem_Save_def make_map_def
          new_ShortUrl_def)
  next
    case False
    then have "abvNdxMap ?d b = abvNdxMap d b"
      by (simp add: mem_Save_def make_map_def new_ShortUrl_def)
    with False old show ?thesis by (cases "abvNdxMap d b") (simp_all add: mem_view_def spec_save_def)
  qed
qed

lemma mem_view_DeleteAbv: "mem_view (snd (mem_DeleteAbv d a)) = spec_delete_abv (mem_view d) a"
  by (auto simp: mem_view_def mem_DeleteAbv_def spec_delete_abv_def fun_eq_iff split: option.splits)

lemma mem_view_DeleteUrl:
  assumes "coherent d"
  shows "mem_view (snd (mem_DeleteUrl d u)) = spec_delete_url (mem_view d) u"
proof
  fix b
  have "mem_links (snd (mem_DeleteUrl d u)) b = drop_url (mem_links d) u b"
    using mem_links_DeleteUrl [OF assms] by simp
  moreover have "mem_view (snd (mem_DeleteUrl d u)) b \<in> {None, mem_view d b}"
    by (auto simp: mem_view_def mem_DeleteUrl_def split: option.splits)
  ultimately show "mem_view (snd (mem_DeleteUrl d u)) b = spec_delete_url (mem_view d) u b"
    by (auto simp: mem_links_view drop_url_def spec_delete_url_def split: option.splits if_splits)
qed

text \<open>The two readings of the clock that a hit takes.\<close>

abbreviation now1 :: "MemoryDB \<Rightarrow> gotime" where
  "now1 d \<equiv> readings (clock d) (ticks (clock d))"

lemma mem_view_GetUrl:
  assumes "wf_mem d"
  shows "(fst (fst (mem_GetUrl d a)), mem_view (snd (mem_GetUrl d a)))
         = spec_get (now1 d) (hit_date d) (mem_view d) a"
  using assms
proof (cases rule: mem_GetUrl_cases [where a = a])
  case miss
  then show ?thesis by (auto simp: spec_get_def mem_view_def obj_link_def split: option.splits)
next
  case (hit p m)
  let ?d = "snd (mem_GetUrl d a)"
  have "mem_view ?d b = ((mem_view d)(a \<mapsto> hit_link (now1 d) (hit_date d) (obj_link d p))) b" for b
  proof (cases "b = a")
    case True
    with hit show ?thesis
      by (simp add: mem_view_def obj_link_def hit_link_def)
  next
    case False
    have "obj_link ?d q = obj_link d q" if q: "abvNdxMap d b = Some q" for q
    proof (rule obj_link_cong)
      have "q \<noteq> p" using wf_abv [OF assms q] wf_abv [OF assms hit(1)] False by auto
      then show "objs ?d q = objs d q" using hit(6) by simp
      fix m' assume "DailyHits (objs d q) = Some m'"
      with \<open>q \<noteq> p\<close> have "m' \<noteq> m"
        using wf_own [OF assms, of q p] wf_abv [OF assms q] hit(3,5) by auto
      then show "hmaps ?d m' = hmaps d m'" using hit(6) by simp
    qed
    moreover have "abvNdxMap ?d b = abvNdxMap d b" using hit(6) by simp
    ultimately show ?thesis using False by (cases "abvNdxMap d b") (simp_all add: mem_view_def)
  qed
  then have "mem_view ?d = (mem_view d)(a \<mapsto> hit_link (now1 d) (hit_date d) (obj_link d p))"
    by (rule ext)
  moreover have "fst (fst (mem_GetUrl d a)) = target (obj_link d p)"
    using hit(6) by (simp add: obj_link_def)
  ultimately show ?thesis
    using hit(1,2) by (simp add: spec_get_def mem_view_def obj_link_def)
qed

lemma mem_view_GetStats:
  assumes "wf_mem d" "abvNdxMap d a = Some p"
  obtains m where "fst (mem_GetStats d a) = (objs d p, None)" "DailyHits (objs d p) = Some m"
    "mem_view d a = Some \<lparr>target = Url (objs d p), hit_count = Hits (objs d p),
       last_access = LastAccess (objs d p), daily = hmaps d m\<rparr>"
proof -
  obtain m where m: "DailyHits (objs d p) = Some m"
    using wf_map [OF assms(1)] wf_abv [OF assms(1,2)] by blast
  show ?thesis
  proof (rule that)
    show "DailyHits (objs d p) = Some m" by (fact m)
  qed (simp_all add: mem_GetStats_def mem_view_def obj_link_def m assms(2))
qed

section \<open>Every sequence of calls\<close>

lemma wf_mem_step [wf_intros]: "wf_mem d \<Longrightarrow> wf_mem (dao_step memory_dao d c)"
  by (cases c) (simp_all add: wf_intros mem_IsLikelyOk_def)

definition balanced_mem :: "MemoryDB \<Rightarrow> bool" where
  "balanced_mem d \<longleftrightarrow> (\<forall>a l. mem_view d a = Some l \<longrightarrow> balanced l)"

lemma mem_view_DeleteUrl_sub: "mem_view (snd (mem_DeleteUrl d u)) \<subseteq>\<^sub>m mem_view d"
  by (auto simp: map_le_def mem_view_def mem_DeleteUrl_def split: option.splits if_splits)

lemma balanced_step:
  assumes "wf_mem d" "balanced_mem d" shows "balanced_mem (dao_step memory_dao d c)"
proof (cases c)
  case (CSave a u)
  then show ?thesis using assms by (auto simp: balanced_mem_def mem_view_Save spec_save_def)
next
  case (CDeleteAbv a)
  then show ?thesis using assms by (auto simp: balanced_mem_def mem_view_DeleteAbv spec_delete_abv_def)
next
  case (CDeleteUrl u)
  then show ?thesis
    using assms mem_view_DeleteUrl_sub [of d u] by (auto simp: balanced_mem_def map_le_def dom_def)
next
  case (CGetUrl a)
  have "mem_view (snd (mem_GetUrl d a)) = snd (spec_get (now1 d) (hit_date d) (mem_view d) a)"
    using mem_view_GetUrl [OF assms(1), of a] by (metis snd_conv)
  with CGetUrl assms(2) show ?thesis
    by (auto simp: balanced_mem_def spec_get_def balanced_hit split: option.splits if_splits)
qed (use assms in \<open>simp_all add: mem_IsLikelyOk_def\<close>)

lemma mem_run_ok: "wf_mem (dao_run memory_dao (CreateMemoryDB c) cs) \<and>
    balanced_mem (dao_run memory_dao (CreateMemoryDB c) cs)"
proof (rule dao_run_invariant [where P = "\<lambda>d. wf_mem d \<and> balanced_mem d"])
  show "wf_mem d \<and> balanced_mem d \<Longrightarrow>
      wf_mem (dao_step memory_dao d c) \<and> balanced_mem (dao_step memory_dao d c)" for d c
    by (simp add: wf_mem_step balanced_step)
  show "wf_mem (CreateMemoryDB c) \<and> balanced_mem (CreateMemoryDB c)"
    by (simp add: wf_CreateMemoryDB balanced_mem_def)
qed

section \<open>What the representation lets go wrong\<close>

text \<open>
  \<open>Save\<close> over an abbreviation in use, which two concurrent requests can bring about: the new URL
  is found under the abbreviation, but the index by URL keeps the old entry. The old URL still
  answers with the abbreviation, which leads to somebody else's URL, and \<open>DeleteUrl\<close> of the old
  URL deletes the new link.
\<close>

lemma mem_Save_over:
  assumes "coherent d" "mem_links d a = Some w" "w \<noteq> u" "u \<noteq> ''''"
  defines "d' \<equiv> snd (mem_Save d a u)"
  shows "fst (mem_GetAbv d' w) = (a, None)"
    and "fst (mem_GetUrl d' a) = (u, None)"
    and "mem_links (snd (mem_DeleteUrl d' w)) a = None"
    and "\<not> coherent d'"
proof -
  obtain p where p: "abvNdxMap d a = Some p" "Url (objs d p) = w"
    using assms(2) by (auto simp: mem_links_Some)
  have w: "urlNdxMap d w = Some p" "Abbreviation (objs d p) = a" "p < nobj d"
    using coherent_abv [OF assms(1) p(1)] p wf_abv [OF coherent_wf [OF assms(1)] p(1)] by simp_all
  have d': "urlNdxMap d' w = Some p" "objs d' p = objs d p" "abvNdxMap d' a = Some (nobj d)"
    "Url (objs d' (nobj d)) = u"
    using w assms(3) by (simp_all add: d'_def mem_Save_def make_map_def new_ShortUrl_def)
  show "fst (mem_GetAbv d' w) = (a, None)" using d' w by (simp add: mem_GetAbv_def)
  show "fst (mem_GetUrl d' a) = (u, None)"
    using d' assms(4) by (simp add: mem_GetUrl_def Let_def split: prod.splits)
  show "mem_links (snd (mem_DeleteUrl d' w)) a = None" using d' w by (simp add: mem_DeleteUrl_def)
  show "\<not> coherent d'"
  proof
    assume "coherent d'"
    from coherent_url [OF this d'(1)] d' w show False by simp
  qed
qed

text \<open>
  The struct \<open>GetStats\<close> returns is a copy, as its comment says; the map in it is not. A later hit
  is in the caller's \<open>DailyHits\<close>, though not in the caller's \<open>Hits\<close>.
\<close>

definition days_of :: "MemoryDB \<Rightarrow> href ShortUrl \<Rightarrow> (string \<rightharpoonup> 64 word)" where
  "days_of d st = (case DailyHits st of None \<Rightarrow> Map.empty | Some m \<Rightarrow> hmaps d m)"

text \<open>
  The statistics GetStats returns are not a copy all through: a later hit shows in the DailyHits of
  the struct the caller already holds.
\<close>

lemma mem_GetStats_shares:
  assumes "coherent d" "mem_links d a = Some u" "fst (mem_GetStats d a) = (st, None)"
  shows "days_of (snd (mem_GetUrl d a)) st = bump (days_of d st) (hit_date d)"
proof -
  obtain p where p: "abvNdxMap d a = Some p" "Url (objs d p) = u"
    using assms(2) by (auto simp: mem_links_Some)
  have ne: "Url (objs d p) \<noteq> ''''" using coherent_abv [OF assms(1) p(1)] by simp
  obtain m where m: "DailyHits (objs d p) = Some m"
    using wf_map [OF coherent_wf [OF assms(1)]] wf_abv [OF coherent_wf [OF assms(1)] p(1)] by blast
  have "st = objs d p" using assms(3) p(1) by (simp add: mem_GetStats_def)
  then show ?thesis
    using mem_GetUrl_hit [OF coherent_wf [OF assms(1)] p(1) ne m] m by (simp add: days_of_def)
qed

section \<open>The store as its clients see it\<close>

text \<open>One link in a fresh store, to evaluate properties on.\<close>

definition one_link :: MemoryDB where
  "one_link = snd (mem_Save (CreateMemoryDB \<lparr>readings = (\<lambda>_. zero_time), ticks = 0\<rparr>) ''k'' ''http://h'')"

lemma one_link_ok: "coherent one_link" "wf_mem one_link" "mem_links one_link = [''k'' \<mapsto> ''http://h'']"
proof -
  let ?d = "CreateMemoryDB \<lparr>readings = (\<lambda>_. zero_time), ticks = 0\<rparr>"
  have L: "mem_links ?d = Map.empty" by (simp add: fun_eq_iff CreateMemoryDB_def)
  have s: "savable (mem_links ?d) ''k'' ''http://h''" by (simp add: savable_def L)
  show "coherent one_link" unfolding one_link_def by (rule coherent_Save [OF coherent_Create s])
  then show "wf_mem one_link" by (rule coherent_wf)
  show "mem_links one_link = [''k'' \<mapsto> ''http://h'']"
    unfolding one_link_def using mem_links_Save [OF wf_CreateMemoryDB] L by simp
qed

text \<open>
  C4. GetUrl of the in-memory store refines the specification: it answers with the target of the
  link, and the link and no other has one more hit, in its count and under the date, and the time
  of the access; a word that is not in use changes nothing.
\<close>

theorem memory_GetUrl_refines:
  assumes "wf_mem d"
  shows "snd (fst (mem_GetUrl d a)) = None \<and>
    (fst (fst (mem_GetUrl d a)), mem_view (snd (mem_GetUrl d a))) = spec_get (now1 d) (hit_date d) (mem_view d) a"
  using mem_view_GetUrl [OF assms] mem_never_errs(4) by blast

theorem memory_GetUrl_refines_witness:
  "fst (fst (mem_GetUrl one_link ''k'')) = ''http://h''"
proof -
  have "map_option target (mem_view one_link ''k'') = Some ''http://h''"
    using one_link_ok(3) by (simp add: mem_links_view [symmetric])
  then obtain l where "mem_view one_link ''k'' = Some l" "target l = ''http://h''" by auto
  with memory_GetUrl_refines [OF one_link_ok(2), of "''k''"] show ?thesis
    by (simp add: spec_get_def)
qed

text \<open>
  C5. Save, DeleteAbv and DeleteUrl of the in-memory store refine the specification on its links
  with their statistics, and GetAbv answers with the abbreviation of the URL, or with none when no
  link has the URL for its target.
\<close>

theorem memory_updates_refine:
  assumes "coherent d"
  shows "mem_view (snd (mem_Save d a u)) = spec_save (mem_view d) a u \<and>
    mem_view (snd (mem_DeleteAbv d a)) = spec_delete_abv (mem_view d) a \<and>
    mem_view (snd (mem_DeleteUrl d u)) = spec_delete_url (mem_view d) u \<and>
    mem_view (snd (mem_GetAbv d u)) = mem_view d \<and>
    (\<forall>b. map_option target (mem_view d b) = Some u \<longleftrightarrow> b \<noteq> '''' \<and> fst (mem_GetAbv d u) = (b, None))"
proof (intro conjI allI)
  fix b
  obtain v e d' where g: "mem_GetAbv d u = ((v, e), d')" by (metis prod.exhaust)
  have e: "e = None" using mem_never_errs(5) [of d u] g by simp
  have "GetAbv memory_dao d u = ((v, None), d')" using g e by simp
  from mem.getAbv [OF assms this] mem.getAbv_inverse [OF assms _ this] mem.links_nonempty [OF assms, of b u]
  show "map_option target (mem_view d b) = Some u \<longleftrightarrow> b \<noteq> '''' \<and> fst (mem_GetAbv d u) = (b, None)"
    using g e by (auto simp: mem_links_view [symmetric] ran_def split: if_splits)
qed (simp_all add: mem_view_Save [OF coherent_wf [OF assms]] mem_view_DeleteAbv mem_view_DeleteUrl [OF assms])

theorem memory_updates_refine_witness: "fst (mem_GetAbv one_link ''http://h'') = (''k'', None)"
proof -
  have "map_option target (mem_view one_link ''k'') = Some ''http://h''"
    using one_link_ok(3) by (simp add: mem_links_view [symmetric])
  with memory_updates_refine [OF one_link_ok(1), of "''k''" "''http://h''"] show ?thesis by blast
qed

text \<open>
  C9. Whatever calls are made of a fresh in-memory store, in whatever order and saving whatever
  over whatever: the heaps stay well-formed, every link's hit count is the sum of its days (modulo
  its 32 bits), and no call writes to a nil map.
\<close>

theorem memory_always_ok:
  "wf_mem (dao_run memory_dao (CreateMemoryDB c) calls) \<and>
   balanced_mem (dao_run memory_dao (CreateMemoryDB c) calls) \<and>
   \<not> panicked (dao_run memory_dao (CreateMemoryDB c) calls)"
  using mem_run_ok [of c calls] wf_panic by blast

text \<open>
  A Save over an abbreviation in use leaves the index by URL behind: the old URL still answers
  with the abbreviation, which now leads to the new URL, and deleting the old URL deletes the link
  of the new one.
\<close>

theorem memory_Save_over_stale:
  assumes "coherent d" "mem_links d a = Some w" "w \<noteq> u" "u \<noteq> ''''"
  shows "fst (mem_GetAbv (snd (mem_Save d a u)) w) = (a, None) \<and>
    fst (mem_GetUrl (snd (mem_Save d a u)) a) = (u, None) \<and>
    mem_links (snd (mem_DeleteUrl (snd (mem_Save d a u)) w)) a = None"
  using mem_Save_over(1-3) [OF assms] by blast

theorem memory_Save_over_stale_witness:
  "fst (mem_GetAbv (snd (mem_Save one_link ''k'' ''http://x'')) ''http://h'') = (''k'', None)"
  using memory_Save_over_stale [OF one_link_ok(1), of "''k''" "''http://h''" "''http://x''"] one_link_ok(3)
  by simp

lemma mem_GetStats_shares_witness:
  "days_of (snd (mem_GetUrl one_link ''k'')) (fst (fst (mem_GetStats one_link ''k'')))
     = bump (days_of one_link (fst (fst (mem_GetStats one_link ''k'')))) (hit_date one_link)"
  by (rule mem_GetStats_shares [OF one_link_ok(1)])
    (simp_all add: one_link_ok(3) prod_eq_iff mem_never_errs(6))

end
