(* ===== verification/Concrete.thy ===== *)
theory Concrete
  imports Service MemoryRefine
begin

text \<open>
  A concrete configuration on which properties are evaluated: no environment variable set, every
  draw of the generator the digit 0, a clock that stands still, a decoder that takes every body
  for the URL, and the state of a service freshly started on the in-memory store, before and
  after its first link.
\<close>

text \<open>A service freshly started on the in-memory store.\<close>

definition fresh :: "getenv \<Rightarrow> rand_src \<Rightarrow> wall_clock \<Rightarrow> SimpleStatus \<Rightarrow> otel_metrics option \<Rightarrow> MemoryDB Handlers" where
  "fresh env r c s om = CreateHandlers (CreateMemoryDB c) (init_gen env r) s ''id'' om"

lemma fresh_simps [simp]:
  "db (fresh env r c s om) = CreateMemoryDB c" "gener (fresh env r c s om) = init_gen env r"
  by (simp_all add: fresh_def CreateHandlers_def)

lemma init_gen_keySize: "keySize (init_gen env r) = IntOrDefault env ''startingkeysize'' 1"
  by (simp add: init_gen_def)

text \<open>A concrete configuration for the witnesses: no variables set, every draw the digit 0.\<close>

definition noenv :: getenv where
  "noenv = (\<lambda>_. '''')"

definition zeros :: rand_src where
  "zeros = \<lparr>draws = (\<lambda>_. 26), pos = 0\<rparr>"

definition clock0 :: wall_clock where
  "clock0 = \<lparr>readings = (\<lambda>_. zero_time), ticks = 0\<rparr>"

definition web0 :: "'d web_lib" where
  "web0 = \<lparr>decode_string = (\<lambda>b. (b, None)), ParseRequestURI = (\<lambda>_. Some (''http'', ''h'')),
     stats_template = None, serve_file = (\<lambda>_. 200)\<rparr>"

definition status0 :: SimpleStatus where
  "status0 = \<lparr>StatusCode = OK, Message = ''All good'', Timestamp = ''''\<rparr>"

definition add0 :: "string \<Rightarrow> request" where
  "add0 u = \<lparr>Method = ''POST'', Path = ''/'', Param = '''', Body = u, Elapsed = 0, UptimeNow = '''', Unrouted = 404\<rparr>"

definition get0 :: "string \<Rightarrow> request" where
  "get0 a = \<lparr>Method = ''GET'', Path = ''/:abv'', Param = a, Body = '''', Elapsed = 0, UptimeNow = '''', Unrouted = 404\<rparr>"

definition fresh0 :: "MemoryDB Handlers" where
  "fresh0 = fresh noenv zeros clock0 status0 None"

lemma noenv_keySize: "IntOrDefault noenv ''startingkeysize'' 1 = 1"
  by (simp add: noenv_def)

lemma fresh0_simps [simp]:
  "db fresh0 = CreateMemoryDB clock0" "gener fresh0 = \<lparr>keySize = 1, src = zeros\<rparr>"
  "otelMetrics fresh0 = None"
  by (simp_all add: fresh0_def fresh_def CreateHandlers_def init_gen_def noenv_keySize)

lemma route_of_0 [simp]: "route_of (add0 u) = Some R_add" "route_of (get0 a) = Some R_get"
  by (simp_all add: add0_def get0_def route_of_def routes_def path_defs)

lemma request0_simps [simp]: "Body (add0 u) = u" "Path (add0 u) = ''/''" "Param (get0 a) = a" "Path (get0 a) = ''/:abv''"
  by (simp_all add: add0_def get0_def)

text \<open>Each handler's middleware, when telemetry is off.\<close>

lemma serve_off:
  "otelMetrics h = None \<Longrightarrow> Path c \<noteq> statusPath \<Longrightarrow>
     serve env W D c h = map_option (\<lambda>((r, hs), h1). ((r, (''x-instance-uuid'', hid h) # hs), h1)) (dispatch env W D c h)"
  by (simp add: serve_def statusHitsCounter_def otelRequestDuration_def idHeader_def)

lemma create_loop_stop: "create_loop env D url tries abv '''' g s = Some ((abv, None), g, s)"
  by (subst create_loop.simps) simp

lemma zero_draw:
  assumes "keySize g = 1" "draws (src g) = (\<lambda>_. 26)"
  shows "randString env g = Some (''0'', g\<lparr>src := (src g)\<lparr>pos := Suc (pos (src g))\<rparr>\<rparr>)"
proof -
  have "chars ! 26 = CHR ''0''" by (simp add: chars_def)
  then have "draw g = (''0'', g\<lparr>src := (src g)\<lparr>pos := Suc (pos (src g))\<rparr>\<rparr>)"
    using assms by (simp add: draw_eq word_at_def)
  with randString_short [of g env] assms(1) show ?thesis by simp
qed

text \<open>The first link of a fresh service.\<close>

definition mem_one :: "string \<Rightarrow> MemoryDB" where
  "mem_one u = snd (mem_Save (CreateMemoryDB clock0) ''0'' u)"

definition served_one :: "string \<Rightarrow> MemoryDB Handlers" where
  "served_one u = (count_new fresh0)\<lparr>gener := \<lparr>keySize = 1, src = zeros\<lparr>pos := 1\<rparr>\<rparr>, db := mem_one u\<rparr>"

lemma add0_fresh0:
  assumes "u \<noteq> ''''"
  shows "addHandler noenv web0 memory_dao u fresh0 = Some (JSONResp 200 (JUrl (createReturn ''0'')), served_one u)"
proof -
  have empty: "mem_GetAbv (CreateMemoryDB clock0) u = (('''', None), CreateMemoryDB clock0)"
    "mem_GetUrl (CreateMemoryDB clock0) ''0'' = (('''', None), CreateMemoryDB clock0)"
    by (simp_all add: mem_GetAbv_def mem_GetUrl_def CreateMemoryDB_def)
  have rs: "randString noenv \<lparr>keySize = 1, src = zeros\<rparr> = Some (''0'', \<lparr>keySize = 1, src = zeros\<lparr>pos := 1\<rparr>\<rparr>)"
    using zero_draw [of "\<lparr>keySize = 1, src = zeros\<rparr>" noenv] by (simp add: zeros_def)
  have sv: "mem_Save (CreateMemoryDB clock0) ''0'' u = (None, mem_one u)"
    using mem_never_errs(1) [of "CreateMemoryDB clock0" "''0''" u] by (simp add: mem_one_def prod_eq_iff)
  show ?thesis
    using assms empty rs sv
    by (simp add: addHandler_def read_url_def web0_def CreateAbbreviation_def create_loop_stop served_one_def)
qed

lemma serve_add0:
  assumes "u \<noteq> ''''"
  shows "serve noenv web0 memory_dao (add0 u) fresh0
    = Some ((JSONResp 200 (JUrl (createReturn ''0'')), [(''x-instance-uuid'', ''id'')]), served_one u)"
  using add0_fresh0 [OF assms]
  by (simp add: serve_off dispatch_def reply_def statusPath_def)
    (simp add: fresh0_def fresh_def CreateHandlers_def)

lemma served_one_simps [simp]:
  "otelMetrics (served_one u) = None" "db (served_one u) = mem_one u" "gener (served_one u) = \<lparr>keySize = 1, src = zeros\<lparr>pos := 1\<rparr>\<rparr>"
  by (simp_all add: served_one_def count_new_def recordOtelCounter_def)

text \<open>A service just opened on a store in a given state, with every draw the digit 0.\<close>

definition over :: "'s \<Rightarrow> 's Handlers" where
  "over d = CreateHandlers d \<lparr>keySize = 1, src = zeros\<rparr> status0 ''id'' None"

lemma over_simps [simp]:
  "db (over d) = d" "gener (over d) = \<lparr>keySize = 1, src = zeros\<rparr>" "otelMetrics (over d) = None" "hid (over d) = ''id''"
  by (simp_all add: over_def CreateHandlers_def)

context reliable_dao
begin

lemma zero_add:
  assumes "inv s" "links s ''0'' = None" "u \<notin> ran (links s)" "fits ''0'' u" "u \<noteq> ''''"
  obtains h' where "addHandler noenv web0 D u (over s) = Some (JSONResp 200 (JUrl (createReturn ''0'')), h')"
    "links (db h') = (links s)(''0'' \<mapsto> u)" "inv (db h')" "keySize (gener h') = 1" "otelMetrics h' = None" "hid h' = ''id''"
proof -
  obtain v e s1 where ga: "GetAbv D s u = ((v, e), s1)" by (metis prod.exhaust)
  with getAbv_nil [OF assms(1) ga] getAbv [OF assms(1) ga] assms(3)
  have s1: "v = ''''" "e = None" "inv s1" "links s1 = links s" by (auto simp: ran_def split: if_splits)
  obtain w e2 s2 where gu: "GetUrl D s1 ''0'' = ((w, e2), s2)" by (metis prod.exhaust)
  with getUrl_nil [OF s1(3) gu] getUrl [OF s1(3) gu] s1(4) assms(2)
  have s2: "w = ''''" "e2 = None" "inv s2" "links s2 = links s" by simp_all
  obtain e3 s3 where sv: "Save D s2 ''0'' u = (e3, s3)" by (metis prod.exhaust)
  have "savable (links s2) ''0'' u" using s2(4) assms(2,3,5) by (simp add: savable_def)
  with save_nil [OF s2(3) assms(4) _ sv] save [OF s2(3) assms(4) _ sv] s2(4)
  have s3: "e3 = None" "inv s3" "links s3 = (links s)(''0'' \<mapsto> u)" by auto
  have rs: "randString noenv \<lparr>keySize = 1, src = zeros\<rparr> = Some (''0'', \<lparr>keySize = 1, src = zeros\<lparr>pos := 1\<rparr>\<rparr>)"
    using zero_draw [of "\<lparr>keySize = 1, src = zeros\<rparr>" noenv] by (simp add: zeros_def)
  let ?h = "(count_new (over s))\<lparr>gener := \<lparr>keySize = 1, src = zeros\<lparr>pos := 1\<rparr>\<rparr>, db := s3\<rparr>"
  have "addHandler noenv web0 D u (over s) = Some (JSONResp 200 (JUrl (createReturn ''0'')), ?h)"
    using assms(5) ga s1 gu s2 sv s3 rs
    by (simp add: addHandler_def read_url_def web0_def CreateAbbreviation_def create_loop_stop)
  moreover have "links (db ?h) = (links s)(''0'' \<mapsto> u)" "inv (db ?h)" "keySize (gener ?h) = 1"
    using s3 by simp_all
  moreover have "otelMetrics ?h = None" "hid ?h = ''id''" by (simp_all add: count_new_def recordOtelCounter_def)
  ultimately show ?thesis by (rule that)
qed

text \<open>The same as a request, and its confirmed link.\<close>

lemma zero_serve:
  assumes "inv s" "links s ''0'' = None" "u \<notin> ran (links s)" "fits ''0'' u" "u \<noteq> ''''"
  obtains h' where "serve noenv web0 D (add0 u) (over s)
      = Some ((JSONResp 200 (JUrl (createReturn ''0'')), [(''x-instance-uuid'', ''id'')]), h')"
    "links (db h') = (links s)(''0'' \<mapsto> u)" "inv (db h')" "keySize (gener h') = 1" "otelMetrics h' = None"
proof -
  obtain h' where h': "addHandler noenv web0 D u (over s) = Some (JSONResp 200 (JUrl (createReturn ''0'')), h')"
    "links (db h') = (links s)(''0'' \<mapsto> u)" "inv (db h')" "keySize (gener h') = 1" "otelMetrics h' = None" "hid h' = ''id''"
    using zero_add [OF assms] .
  have "serve noenv web0 D (add0 u) (over s) = Some ((JSONResp 200 (JUrl (createReturn ''0'')), [(''x-instance-uuid'', ''id'')]), h')"
    using h'(1) by (simp add: serve_off dispatch_def reply_def statusPath_def)
  then show ?thesis using h' by (intro that)
qed

end

end
