(* ===== verification/Counters.thy ===== *)
theory Counters
  imports Concrete
begin

text \<open>
  What the counters of \<open>/diag/metrics\<close> and of OpenTelemetry count (src/handlers/handlers.go):
  each is the number of requests of its route since the start, whatever the store answered and
  whether or not the request was accepted, modulo the 64 bits of the counter. A request to the
  statistics page counts for none of them.
\<close>

section \<open>One request\<close>

definition tally :: "request \<Rightarrow> metrics \<Rightarrow> metrics" where
  "tally c m =
     m\<lparr>Redirects := Redirects m + of_bool (route_of c = Some R_get),
       UrlStats := UrlStats m + of_bool (route_of c = Some R_stats),
       NewUrls := NewUrls m + of_bool (route_of c = Some R_add),
       Deletes := Deletes m + of_bool (route_of c = Some R_delete),
       MetricsReqs := MetricsReqs m + of_bool (route_of c = Some R_metrics),
       StatusReqs := StatusReqs m + of_bool (Path c = statusPath)\<rparr>"

text \<open>The counters of OpenTelemetry that a request moves.\<close>

definition otel_tally :: "request \<Rightarrow> otel_metrics \<Rightarrow> otel_metrics" where
  "otel_tally c m =
     m\<lparr>ot_Redirects := ot_Redirects m + of_bool (route_of c = Some R_get),
       ot_StatsRequests := ot_StatsRequests m + of_bool (route_of c = Some R_stats),
       ot_UrlsCreated := ot_UrlsCreated m + of_bool (route_of c = Some R_add),
       ot_UrlsDeleted := ot_UrlsDeleted m + of_bool (route_of c = Some R_delete)\<rparr>"

text \<open>The tallies of the routed handler: all but the hits of the status page.\<close>

definition counted :: "request \<Rightarrow> 's Handlers \<Rightarrow> 's Handlers \<Rightarrow> bool" where
  "counted c h h' \<longleftrightarrow>
     hmetrics h' = (tally c (hmetrics h))\<lparr>StatusReqs := StatusReqs (hmetrics h)\<rparr> \<and>
     otelMetrics h' = map_option (otel_tally c) (otelMetrics h)"

lemma count_metrics:
  "hmetrics (count_redirect h) = (hmetrics h)\<lparr>Redirects := Redirects (hmetrics h) + 1\<rparr>"
  "hmetrics (count_stats h) = (hmetrics h)\<lparr>UrlStats := UrlStats (hmetrics h) + 1\<rparr>"
  "hmetrics (count_new h) = (hmetrics h)\<lparr>NewUrls := NewUrls (hmetrics h) + 1\<rparr>"
  "hmetrics (count_delete h) = (hmetrics h)\<lparr>Deletes := Deletes (hmetrics h) + 1\<rparr>"
  by (simp_all add: count_redirect_def count_stats_def count_new_def count_delete_def
      recordOtelCounter_def split: option.splits)

lemma count_otel:
  "otelMetrics (count_redirect h) = map_option (\<lambda>m. m\<lparr>ot_Redirects := ot_Redirects m + 1\<rparr>) (otelMetrics h)"
  "otelMetrics (count_stats h) = map_option (\<lambda>m. m\<lparr>ot_StatsRequests := ot_StatsRequests m + 1\<rparr>) (otelMetrics h)"
  "otelMetrics (count_new h) = map_option (\<lambda>m. m\<lparr>ot_UrlsCreated := ot_UrlsCreated m + 1\<rparr>) (otelMetrics h)"
  "otelMetrics (count_delete h) = map_option (\<lambda>m. m\<lparr>ot_UrlsDeleted := ot_UrlsDeleted m + 1\<rparr>) (otelMetrics h)"
  by (simp_all add: count_redirect_def count_stats_def count_new_def count_delete_def
      recordOtelCounter_def split: option.splits)

text \<open>A handler's own work leaves the counters alone.\<close>

lemma handler_counts:
  "getHandler D a h = (r, h') \<Longrightarrow> hmetrics h' = hmetrics (count_redirect h) \<and> otelMetrics h' = otelMetrics (count_redirect h)"
  "statsHandler D a h = (r, h') \<Longrightarrow> hmetrics h' = hmetrics (count_stats h) \<and> otelMetrics h' = otelMetrics (count_stats h)"
  "deleteHandler D a h = (r, h') \<Longrightarrow> hmetrics h' = hmetrics (count_delete h) \<and> otelMetrics h' = otelMetrics (count_delete h)"
  "statsUiHandler W D a h = (r, h') \<Longrightarrow> hmetrics h' = hmetrics h \<and> otelMetrics h' = otelMetrics h"
  by (auto simp: getHandler_def statsHandler_def deleteHandler_def statsUiHandler_def Let_def
      split: prod.splits option.splits if_splits)

lemma addHandler_counts:
  assumes "addHandler env W D body h = Some (r, h')"
  shows "hmetrics h' = hmetrics (count_new h) \<and> otelMetrics h' = otelMetrics (count_new h)"
proof (cases "read_url W body")
  case (Inl x)
  with assms show ?thesis by (auto simp: addHandler_def)
next
  case (Inr u)
  obtain a e db1 where ga: "GetAbv D (db h) u = ((a, e), db1)" by (metis prod.exhaust)
  show ?thesis
  proof (cases "a = ''''")
    case False
    with assms ga Inr show ?thesis by (auto simp: addHandler_def Let_def)
  next
    case True
    with assms ga Inr obtain a1 e1 g2 db2 where
      c: "CreateAbbreviation env D u (gener h) db1 = Some ((a1, e1), g2, db2)"
      by (auto simp: addHandler_def Let_def bind_eq_Some_conv)
    obtain e3 db3 where "Save D db2 a1 u = (e3, db3)" by (metis prod.exhaust)
    with assms ga Inr True c show ?thesis
      by (cases e1; cases e3) (auto simp: addHandler_def Let_def)
  qed
qed

lemma countedI:
  "hmetrics h' = hmetrics h \<Longrightarrow> otelMetrics h' = otelMetrics h \<Longrightarrow>
     route_of c \<notin> Some ` {R_get, R_stats, R_add, R_delete, R_metrics} \<Longrightarrow> counted c h h'"
  by (cases "otelMetrics h") (simp_all add: counted_def tally_def otel_tally_def)

lemma dispatch_counted:
  assumes "dispatch env W D c h = Some ((r, hs), h')" shows "counted c h h'"
proof (cases "route_of c")
  case None
  with assms show ?thesis by (intro countedI) (simp_all add: dispatch_def reply_def)
next
  case (Some ro)
  show ?thesis
  proof (cases ro)
    case R_add
    with assms Some have "addHandler env W D (Body c) h = Some (r, h')"
      by (auto simp: dispatch_def reply_def)
    from addHandler_counts [OF this] show ?thesis
      by (cases "otelMetrics h") (simp_all add: counted_def count_metrics count_otel tally_def otel_tally_def Some R_add)
  next
    case R_delete
    with assms Some have "deleteHandler D (Param c) h = (r, h')"
      by (auto simp: dispatch_def reply_def split: prod.splits)
    from handler_counts(3) [OF this] show ?thesis
      by (cases "otelMetrics h") (simp_all add: counted_def count_metrics count_otel tally_def otel_tally_def Some R_delete)
  next
    case R_get
    with assms Some have "getHandler D (Param c) h = (r, h')"
      by (auto simp: dispatch_def reply_def split: prod.splits)
    from handler_counts(1) [OF this] show ?thesis
      by (cases "otelMetrics h") (simp_all add: counted_def count_metrics count_otel tally_def otel_tally_def Some R_get)
  next
    case R_stats
    with assms Some have "statsHandler D (Param c) h = (r, h')"
      by (auto simp: dispatch_def reply_def split: prod.splits)
    from handler_counts(2) [OF this] show ?thesis
      by (cases "otelMetrics h") (simp_all add: counted_def count_metrics count_otel tally_def otel_tally_def Some R_stats)
  next
    case R_statsUi
    with assms Some have "statsUiHandler W D (Param c) h = (r, h')"
      by (auto simp: dispatch_def reply_def split: prod.splits)
    from handler_counts(4) [OF this] Some R_statsUi show ?thesis by (intro countedI) simp_all
  next
    case R_metrics
    with assms Some have "h' = h\<lparr>hmetrics := (hmetrics h)\<lparr>MetricsReqs := MetricsReqs (hmetrics h) + 1\<rparr>\<rparr>"
      by (auto simp: dispatch_def reply_def metricsHandler_def Let_def)
    then show ?thesis
      by (cases "otelMetrics h") (simp_all add: counted_def tally_def otel_tally_def Some R_metrics)
  qed (use assms Some in \<open>auto simp: dispatch_def reply_def intro!: countedI\<close>)
qed

text \<open>The sample the histogram gets: none of a request whose handler panicked.\<close>

definition sampled :: "request \<Rightarrow> 'd response \<Rightarrow> otel_metrics \<Rightarrow> otel_metrics" where
  "sampled c r m =
     (if is_panic r then m
      else m\<lparr>ot_RequestDuration :=
        \<lparr>s_method = Method c, s_path = Path c, s_status = response_status r, s_duration = Elapsed c\<rparr>
          # ot_RequestDuration m\<rparr>)"

lemma serve_counts:
  assumes "serve env W D c h = Some ((r, hs), h')"
  shows "hmetrics h' = tally c (hmetrics h)"
    and "otelMetrics h' = map_option (\<lambda>m. sampled c r (otel_tally c m)) (otelMetrics h)"
proof -
  define h0 where "h0 = (if Path c = statusPath
    then h\<lparr>hmetrics := (hmetrics h)\<lparr>StatusReqs := StatusReqs (hmetrics h) + 1\<rparr>\<rparr> else h)"
  have h0: "otelMetrics h0 = otelMetrics h"
    "hmetrics h0 = (hmetrics h)\<lparr>StatusReqs := StatusReqs (hmetrics h) + of_bool (Path c = statusPath)\<rparr>"
    by (simp_all add: h0_def)
  from assms obtain hs1 h1 where d: "dispatch env W D c h0 = Some ((r, hs1), h1)"
    and h': "h' = (case otelMetrics h of None \<Rightarrow> h1
      | Some _ \<Rightarrow> if is_panic r then h1 else record_duration c (response_status r) h1)"
    unfolding serve_def statusHitsCounter_def otelRequestDuration_def idHeader_def h0_def [symmetric]
    using h0(1) by (auto split: option.splits)
  from dispatch_counted [OF d] have m: "hmetrics h1 = tally c (hmetrics h)"
    and o: "otelMetrics h1 = map_option (otel_tally c) (otelMetrics h)"
    by (simp_all add: counted_def h0 tally_def)
  show "hmetrics h' = tally c (hmetrics h)" using m h' by (simp split: option.split)
  show "otelMetrics h' = map_option (\<lambda>m. sampled c r (otel_tally c m)) (otelMetrics h)"
    using o h' by (cases "otelMetrics h") (simp_all add: record_duration_def sampled_def)
qed

section \<open>All requests\<close>

definition hits_of :: "route \<Rightarrow> request list \<Rightarrow> nat" where
  "hits_of ro cs = length (filter (\<lambda>c. route_of c = Some ro) cs)"

lemma hits_of_simps [simp]:
  "hits_of ro [] = 0"
  "hits_of ro (c # cs) = of_bool (route_of c = Some ro) + hits_of ro cs"
  by (simp_all add: hits_of_def)

lemma serve_all_tally:
  "serve_all env W D cs h = Some (rs, h') \<Longrightarrow> hmetrics h' = fold tally cs (hmetrics h)"
proof (induction cs arbitrary: h rs)
  case (Cons c cs)
  from Cons.prems obtain r hs h1 rs1 where
    1: "serve env W D c h = Some ((r, hs), h1)" and 2: "serve_all env W D cs h1 = Some (rs1, h')"
    by (auto simp: bind_eq_Some_conv)
  from Cons.IH [OF 2] serve_counts(1) [OF 1] show ?case by simp
qed simp

lemma fold_tally:
  "Redirects (fold tally cs m) = Redirects m + of_nat (hits_of R_get cs)"
  "UrlStats (fold tally cs m) = UrlStats m + of_nat (hits_of R_stats cs)"
  "NewUrls (fold tally cs m) = NewUrls m + of_nat (hits_of R_add cs)"
  "Deletes (fold tally cs m) = Deletes m + of_nat (hits_of R_delete cs)"
  "MetricsReqs (fold tally cs m) = MetricsReqs m + of_nat (hits_of R_metrics cs)"
  "StatusReqs (fold tally cs m) = StatusReqs m + of_nat (length (filter (\<lambda>c. Path c = statusPath) cs))"
  by (induction cs arbitrary: m) (simp_all add: tally_def ac_simps)

text \<open>The counters of OpenTelemetry agree with those of the page, as long as they agreed before.\<close>

definition agree :: "'s Handlers \<Rightarrow> bool" where
  "agree h \<longleftrightarrow> (case otelMetrics h of None \<Rightarrow> True
     | Some m \<Rightarrow> ot_Redirects m = Redirects (hmetrics h) \<and> ot_StatsRequests m = UrlStats (hmetrics h) \<and>
         ot_UrlsCreated m = NewUrls (hmetrics h) \<and> ot_UrlsDeleted m = Deletes (hmetrics h))"

lemma serve_agree: "serve env W D c h = Some ((r, hs), h') \<Longrightarrow> agree h \<Longrightarrow> agree h'"
  using serve_counts [of env W D c h r hs h']
  by (cases "otelMetrics h") (simp_all add: agree_def sampled_def tally_def otel_tally_def)

lemma serve_all_agree: "serve_all env W D cs h = Some (rs, h') \<Longrightarrow> agree h \<Longrightarrow> agree h'"
proof (induction cs arbitrary: h rs)
  case (Cons c cs)
  from Cons.prems(1) obtain r hs h1 rs1 where
    "serve env W D c h = Some ((r, hs), h1)" "serve_all env W D cs h1 = Some (rs1, h')"
    by (auto simp: bind_eq_Some_conv)
  with Cons.IH serve_agree Cons.prems(2) show ?case by blast
qed simp

lemma NewMetrics_zero:
  "NewMetrics sdk env = (Some m, e) \<Longrightarrow> ot_Redirects m = 0 \<and> ot_StatsRequests m = 0 \<and>
     ot_UrlsCreated m = 0 \<and> ot_UrlsDeleted m = 0 \<and> ot_RequestDuration m = []"
  by (auto simp: NewMetrics_def split: option.splits if_splits)

lemma agree_start: "agree (CreateHandlers d g s i (fst (NewMetrics sdk env)))"
  by (cases "NewMetrics sdk env"; cases "fst (NewMetrics sdk env)")
    (auto simp: agree_def CreateHandlers_def zero_metrics_def dest: NewMetrics_zero)

section \<open>What an operator can read off the counters\<close>

text \<open>
  C14. Each counter of /diag/metrics is the number of requests of its route since it was last zero,
  modulo 2 to the 64, whatever the store answered and whether the request was accepted or refused.
\<close>

theorem counters_count:
  assumes "serve_all env W D cs h = Some (rs, h')"
  shows "Redirects (hmetrics h') = Redirects (hmetrics h) + of_nat (hits_of R_get cs) \<and>
    UrlStats (hmetrics h') = UrlStats (hmetrics h) + of_nat (hits_of R_stats cs) \<and>
    NewUrls (hmetrics h') = NewUrls (hmetrics h) + of_nat (hits_of R_add cs) \<and>
    Deletes (hmetrics h') = Deletes (hmetrics h) + of_nat (hits_of R_delete cs) \<and>
    MetricsReqs (hmetrics h') = MetricsReqs (hmetrics h) + of_nat (hits_of R_metrics cs) \<and>
    StatusReqs (hmetrics h') = StatusReqs (hmetrics h) + of_nat (length (filter (\<lambda>c. Path c = statusPath) cs))"
  using serve_all_tally [OF assms] fold_tally by simp

text \<open>A run of one creation, for the facts about all requests.\<close>

lemma serve_all_add0:
  "serve_all noenv web0 memory_dao [add0 ''http://h''] fresh0
     = Some ([(JSONResp 200 (JUrl (createReturn ''0'')), [(''x-instance-uuid'', ''id'')])], served_one ''http://h'')"
  by (simp add: serve_add0)

theorem counters_count_witness:
  "NewUrls (hmetrics (served_one ''http://h'')) = 1 \<and> Redirects (hmetrics (served_one ''http://h'')) = 0"
  using counters_count [OF serve_all_add0]
  by (simp add: fresh0_def fresh_def CreateHandlers_def zero_metrics_def)

text \<open>
  C33. The counters OpenTelemetry exports agree with those of /diag/metrics at all times, from a
  start with the metrics object that NewMetrics made.
\<close>

theorem otel_agrees:
  assumes "serve_all env W D cs (CreateHandlers d g s i (fst (NewMetrics sdk env))) = Some (rs, h)"
    and "otelMetrics h = Some m"
  shows "ot_Redirects m = Redirects (hmetrics h) \<and> ot_StatsRequests m = UrlStats (hmetrics h) \<and>
    ot_UrlsCreated m = NewUrls (hmetrics h) \<and> ot_UrlsDeleted m = Deletes (hmetrics h)"
  using serve_all_agree [OF assms(1) agree_start] assms(2) by (simp add: agree_def)

definition sdk_ok :: otel_sdk where
  "sdk_ok = \<lparr>new_exporter = (\<lambda>_. None), new_counter = (\<lambda>_. None), new_histogram = (\<lambda>_. None), shutdown_provider = None\<rparr>"

definition otel0 :: otel_metrics where
  "otel0 = \<lparr>ot_Redirects = 0, ot_UrlsCreated = 0, ot_UrlsDeleted = 0, ot_StatsRequests = 0,
     ot_RequestDuration = [], ot_provider = True\<rparr>"

lemma NewMetrics_ok: "NewMetrics sdk_ok noenv = (Some otel0, None)"
  by (simp add: NewMetrics_def sdk_ok_def otel0_def telemetry_enabled_def BoolOrDefault_def noenv_def)

text \<open>A request for a page the router does not know, and for the metrics.\<close>

definition miss0 :: request where
  "miss0 = \<lparr>Method = ''PUT'', Path = '''', Param = '''', Body = '''', Elapsed = 7, UptimeNow = '''', Unrouted = 404\<rparr>"

definition metrics0 :: request where
  "metrics0 = \<lparr>Method = ''GET'', Path = metricsPath, Param = '''', Body = '''', Elapsed = 7, UptimeNow = ''1s'', Unrouted = 404\<rparr>"

definition watched0 :: "MemoryDB Handlers" where
  "watched0 = fresh noenv zeros clock0 status0 (fst (NewMetrics sdk_ok noenv))"

lemma watched0_otel [simp]: "otelMetrics watched0 = Some otel0"
  by (simp add: watched0_def fresh_def CreateHandlers_def NewMetrics_ok)

lemma serve_watched0:
  "\<exists>hs h. serve noenv web0 memory_dao miss0 watched0 = Some ((Failed 404 '''', hs), h) \<and> otelMetrics h \<noteq> None"
  "\<exists>x h m. serve noenv web0 memory_dao metrics0 watched0 = Some (x, h) \<and> otelMetrics h = Some m"
  by (simp_all add: serve_def statusHitsCounter_def otelRequestDuration_def idHeader_def dispatch_def reply_def
      route_of_def routes_def path_defs miss0_def metrics0_def metricsHandler_def record_duration_def Let_def)

theorem otel_agrees_witness:
  "\<exists>h m. otelMetrics h = Some m \<and> ot_UrlsCreated m = NewUrls (hmetrics (h :: MemoryDB Handlers))"
proof -
  obtain x h m where s: "serve noenv web0 memory_dao metrics0 watched0 = Some (x, h)" "otelMetrics h = Some m"
    using serve_watched0(2) by blast
  have "serve_all noenv web0 memory_dao [metrics0]
      (CreateHandlers (CreateMemoryDB clock0) (init_gen noenv zeros) status0 ''id'' (fst (NewMetrics sdk_ok noenv)))
      = Some ([x], h)"
    using s(1) by (simp add: watched0_def fresh_def)
  from otel_agrees [OF this s(2)] s(2) show ?thesis by blast
qed



text \<open>
  Every response that comes out of the middleware carries the server's id, once, in the header
  x-instance-uuid, and the id never changes.
\<close>

theorem response_identified:
  assumes "serve env W D c h = Some ((r, hs), h')"
  shows "filter (\<lambda>kv. fst kv = ''x-instance-uuid'') hs = [(''x-instance-uuid'', hid h)]"
proof -
  obtain h0 h1 hs1 where "dispatch env W D c h0 = Some ((r, hs1), h1)" "hs = (''x-instance-uuid'', hid h) # hs1"
    using serve_dispatch [OF assms] by metis
  moreover have "hs1 = []"
    using \<open>dispatch env W D c h0 = Some ((r, hs1), h1)\<close>
    by (auto simp: dispatch_def reply_def split: option.splits route.splits prod.splits)
  ultimately show ?thesis by simp
qed

theorem response_identified_witness:
  "filter (\<lambda>kv. fst kv = ''x-instance-uuid'') [(''x-instance-uuid'', ''id'')] = [(''x-instance-uuid'', hid fresh0)]"
  by (rule response_identified [OF serve_add0 [of "''http://h''"]]) simp

end
