(* ===== verification/Server.thy ===== *)
theory Server
  imports Counters
begin

text \<open>
  The process (src/server.go): which store the configuration selects, what \<open>main\<close> does from its
  start to its end, in order, with the deferred calls that a panic runs and \<open>os.Exit\<close> does not,
  and the status object that \<open>main\<close> and the ticker goroutine write without a lock while
  \<open>BackgroundHandler\<close> reads it. What the process meets outside is a parameter: whether a store's
  constructor returns (\<open>opens\<close>; it ends in \<open>log.Fatal\<close> otherwise) and the OpenTelemetry SDK.
\<close>

section \<open>Configuration\<close>

record config =
  port :: int
  ip :: string
  mongoUri :: string
  postgresUri :: string
  mysqlDsn :: string
  sqlitePath :: string
  redisUri :: string

definition read_config :: "getenv \<Rightarrow> config" where
  "read_config env =
     \<lparr>port = IntOrDefault env ''port'' 8800, ip = StringOrDefault env ''ip'' '''',
      mongoUri = StringOrDefault env ''mongo_uri'' '''',
      postgresUri = StringOrDefault env ''postgres_uri'' '''',
      mysqlDsn = StringOrDefault env ''mysql_dsn'' '''',
      sqlitePath = StringOrDefault env ''sqlite_path'' '''',
      redisUri = StringOrDefault env ''redis_uri'' ''''\<rparr>"

definition dbOptionsSet :: "config \<Rightarrow> nat" where
  "dbOptionsSet c =
     (let n0 = (0 :: nat);
          n1 = (if length (postgresUri c) > 0 then n0 + 1 else n0);
          n2 = (if length (mysqlDsn c) > 0 then n1 + 1 else n1);
          n3 = (if length (mongoUri c) > 0 then n2 + 1 else n2);
          n4 = (if length (sqlitePath c) > 0 then n3 + 1 else n3)
      in if length (redisUri c) > 0 then n4 + 1 else n4)"

datatype store =
    S_Postgres string | S_MySQL string | S_Mongo string | S_Redis string | S_SQLite string | S_Memory

definition select_store :: "config \<Rightarrow> store" where
  "select_store c =
     (if length (postgresUri c) > 0 then S_Postgres (postgresUri c)
      else if length (mysqlDsn c) > 0 then S_MySQL (mysqlDsn c)
      else if length (mongoUri c) > 0 then S_Mongo (mongoUri c)
      else if length (redisUri c) > 0 then S_Redis (redisUri c)
      else if length (sqlitePath c) > 0 then S_SQLite (sqlitePath c)
      else S_Memory)"

text \<open>The stores the configuration asks for, to state what \<open>main\<close> selects.\<close>

definition asked :: "config \<Rightarrow> store set" where
  "asked c =
     {s. s = S_Postgres (postgresUri c) \<and> postgresUri c \<noteq> ''''} \<union>
     {s. s = S_MySQL (mysqlDsn c) \<and> mysqlDsn c \<noteq> ''''} \<union>
     {s. s = S_Mongo (mongoUri c) \<and> mongoUri c \<noteq> ''''} \<union>
     {s. s = S_Redis (redisUri c) \<and> redisUri c \<noteq> ''''} \<union>
     {s. s = S_SQLite (sqlitePath c) \<and> sqlitePath c \<noteq> ''''}"

lemma asked_parts:
  "asked c = (if postgresUri c = '''' then {} else {S_Postgres (postgresUri c)}) \<union>
     (if mysqlDsn c = '''' then {} else {S_MySQL (mysqlDsn c)}) \<union>
     (if mongoUri c = '''' then {} else {S_Mongo (mongoUri c)}) \<union>
     (if redisUri c = '''' then {} else {S_Redis (redisUri c)}) \<union>
     (if sqlitePath c = '''' then {} else {S_SQLite (sqlitePath c)})"
  by (auto simp: asked_def)

lemma asked_card: "dbOptionsSet c = card (asked c)"
  unfolding dbOptionsSet_def asked_parts by (simp add: Let_def)

lemma select_asked: "select_store c \<in> asked c \<or> asked c = {} \<and> select_store c = S_Memory"
  unfolding select_store_def asked_parts by simp

section \<open>From start to end\<close>

datatype event =
    Opened store
  | TickerStarted int
  | Listening string int int int
  | StatusAllGood
  | ServerShutdown int
  | CleanedUp
  | OtelShutdown

datatype ending = Exited int | Panic string

definition seconds :: "int \<Rightarrow> int" where
  "seconds n = n * 10 ^ 9"

definition bindAddr :: "config \<Rightarrow> string" where
  "bindAddr c = ip c @ '':'' @ show_int (port c)"

text \<open>
  \<open>main\<close>, up to the signal and after it. The deferred calls, last in first out, run when \<open>main\<close>
  panics (\<open>time.NewTicker\<close> on an interval that is not positive); \<open>log.Fatal\<close> and \<open>os.Exit\<close> end the
  process without them.
\<close>

definition main ::
  "otel_sdk \<Rightarrow> (nat \<Rightarrow> nat \<Rightarrow> nat \<Rightarrow> nat) \<Rightarrow> getenv \<Rightarrow> (store \<Rightarrow> bool) \<Rightarrow> event list \<times> ending" where
  "main sdk fmul env opens =
     (let c = read_config env;
          defers0 = (case fst (NewMetrics sdk env) of None \<Rightarrow> [] | Some _ \<Rightarrow> [OtelShutdown])
      in if dbOptionsSet c > 1 then ([], Exited 1)
         else
           (let st = select_store c
            in if \<not> opens st then ([], Exited 1)
               else
                 (let defers = CleanedUp # defers0;
                      interval = DurationOrDefault fmul env ''status_interval'' (seconds 30)
                  in if interval \<le> 0 then (Opened st # defers, Panic ''non-positive interval for NewTicker'')
                     else
                       ([Opened st, TickerStarted interval,
                         Listening (bindAddr c)
                           (DurationOrDefault fmul env ''http_write_timeout'' (seconds 10))
                           (DurationOrDefault fmul env ''http_read_timeout'' (seconds 15))
                           (DurationOrDefault fmul env ''http_idle_timeout'' (seconds 60)),
                         StatusAllGood,
                         ServerShutdown (DurationOrDefault fmul env ''shutdown_wait_timeout'' (seconds 15))],
                        Exited 0))))"


text \<open>A process that ends in order has neither cleaned its store up nor flushed its metrics.\<close>


lemma main_serves:
  assumes "card (asked (read_config env)) \<le> 1" "opens (select_store (read_config env))"
    and "0 < DurationOrDefault fmul env ''status_interval'' (seconds 30)"
  shows "snd (main sdk fmul env opens) = Exited 0"
  using assms by (simp add: main_def asked_card Let_def)

section \<open>The status object, write by write\<close>

text \<open>
  \<open>newStatus\<close> writes three fields. \<open>main\<close> writes them once, when it starts to serve; the ticker
  goroutine once per tick, after its probe. Neither takes a lock, so a state of the system is the
  object with the writes each goroutine still has to do.
\<close>

datatype fwrite = WCode Code | WMessage string | WTimestamp

record 's health =
  obj :: SimpleStatus
  hdb :: 's
  hclock :: wall_clock
  ticker_todo :: "fwrite list"
  main_todo :: "fwrite list"

definition newStatus_writes :: "Code \<Rightarrow> string \<Rightarrow> fwrite list" where
  "newStatus_writes code message = [WCode code, WMessage message, WTimestamp]"

fun apply_write :: "fwrite \<Rightarrow> 's health \<Rightarrow> 's health" where
  "apply_write (WCode c) h = h\<lparr>obj := (obj h)\<lparr>StatusCode := c\<rparr>\<rparr>"
| "apply_write (WMessage m) h = h\<lparr>obj := (obj h)\<lparr>Message := m\<rparr>\<rparr>"
| "apply_write WTimestamp h =
     (let (ts, c1) = currentTimestamp (hclock h)
      in h\<lparr>obj := (obj h)\<lparr>Timestamp := ts\<rparr>, hclock := c1\<rparr>)"

text \<open>The three writes are the setter.\<close>

lemma apply_newStatus_writes:
  "obj (fold apply_write (newStatus_writes code m) h) = fst (newStatus (obj h) code m (hclock h)) \<and>
   hclock (fold apply_write (newStatus_writes code m) h) = snd (newStatus (obj h) code m (hclock h))"
  by (simp add: newStatus_writes_def newStatus_def split: prod.splits)

definition health_start :: "'s \<Rightarrow> wall_clock \<Rightarrow> 's health" where
  "health_start d c =
     (let (s, c1) = NewStatus c
      in \<lparr>obj = s, hdb = d, hclock = c1, ticker_todo = [], main_todo = newStatus_writes OK ''All good''\<rparr>)"

text \<open>One step: the ticker fires and probes, or one of the goroutines does its next write.\<close>

inductive health_step :: "('s, 'd) ShortUrlDao \<Rightarrow> 's health \<Rightarrow> 's health \<Rightarrow> bool" for D where
  fire: "ticker_todo h = [] \<Longrightarrow> IsLikelyOk D (hdb h) = (ok, db1)
    \<Longrightarrow> health_step D h (h\<lparr>hdb := db1, ticker_todo :=
          (if \<not> ok then newStatus_writes Warning ''Database is down''
           else newStatus_writes OK ''All good'')\<rparr>)"
| ticker: "ticker_todo h = w # ws \<Longrightarrow> health_step D h ((apply_write w h)\<lparr>ticker_todo := ws\<rparr>)"
| mainw: "main_todo h = w # ws \<Longrightarrow> health_step D h ((apply_write w h)\<lparr>main_todo := ws\<rparr>)"

abbreviation health_reach :: "('s, 'd) ShortUrlDao \<Rightarrow> 's health \<Rightarrow> 's health \<Rightarrow> bool" where
  "health_reach D \<equiv> (health_step D)\<^sup>*\<^sup>*"

text \<open>
  The invariant of every reachable state: the service never reports \<open>Critical\<close>, its message is
  one of three, and the writes that are pending are the rest of one of the two settings.
\<close>

definition good_write :: "fwrite \<Rightarrow> bool" where
  "good_write w \<longleftrightarrow> w \<in> {WCode OK, WCode Warning, WMessage ''All good'', WMessage ''Database is down'', WTimestamp}"

definition health_ok :: "'s health \<Rightarrow> bool" where
  "health_ok h \<longleftrightarrow>
     StatusCode (obj h) \<in> {Unknown, OK, Warning} \<and>
     Message (obj h) \<in> {''initializing'', ''All good'', ''Database is down''} \<and>
     (\<forall>w \<in> set (ticker_todo h) \<union> set (main_todo h). good_write w)"

lemma apply_write_frame [simp]:
  "ticker_todo (apply_write w h) = ticker_todo h" "main_todo (apply_write w h) = main_todo h"
  "hdb (apply_write w h) = hdb h"
  by (cases w; simp split: prod.splits)+

lemma apply_write_ok:
  "good_write w \<Longrightarrow> StatusCode (obj h) \<in> {Unknown, OK, Warning} \<Longrightarrow>
     Message (obj h) \<in> {''initializing'', ''All good'', ''Database is down''} \<Longrightarrow>
     StatusCode (obj (apply_write w h)) \<in> {Unknown, OK, Warning} \<and>
     Message (obj (apply_write w h)) \<in> {''initializing'', ''All good'', ''Database is down''}"
  by (cases w) (auto simp: good_write_def split: prod.splits)

lemma health_ok_start: "health_ok (health_start d c)"
  by (auto simp: health_ok_def health_start_def NewStatus_def newStatus_writes_def good_write_def
      split: prod.splits)

lemma health_ok_step: "health_step D h h' \<Longrightarrow> health_ok h \<Longrightarrow> health_ok h'"
proof (induction rule: health_step.induct)
  case (fire h ok db1)
  then show ?case by (auto simp: health_ok_def newStatus_writes_def good_write_def)
next
  case (ticker h w ws)
  then show ?case using apply_write_ok [of w h] by (auto simp: health_ok_def)
next
  case (mainw h w ws)
  then show ?case using apply_write_ok [of w h] by (auto simp: health_ok_def)
qed


text \<open>
  A tick that nothing interrupts is \<open>health_tick\<close> of \<open>Status\<close>: the object then says what the probe
  answered.
\<close>

lemma apply_write_todo:
  "apply_write w (h\<lparr>ticker_todo := x\<rparr>) = (apply_write w h)\<lparr>ticker_todo := x\<rparr>"
  by (cases w) (auto split: prod.splits)

lemma fold_write_todo:
  "fold apply_write ws (h\<lparr>ticker_todo := x\<rparr>) = (fold apply_write ws h)\<lparr>ticker_todo := x\<rparr>"
  by (induction ws arbitrary: h) (simp_all add: apply_write_todo)

lemma ticker_runs:
  "ticker_todo h = ws @ rest \<Longrightarrow> health_reach D h ((fold apply_write ws h)\<lparr>ticker_todo := rest\<rparr>)"
proof (induction ws arbitrary: h)
  case Nil
  have "h\<lparr>ticker_todo := rest\<rparr> = h" using Nil by (cases h) simp
  then show ?case by simp
next
  case (Cons w ws)
  let ?h1 = "(apply_write w h)\<lparr>ticker_todo := ws @ rest\<rparr>"
  have "health_step D h ?h1" using Cons.prems by (intro ticker) simp
  moreover have "health_reach D ?h1 ((fold apply_write (w # ws) h)\<lparr>ticker_todo := rest\<rparr>)"
    using Cons.IH [of ?h1] by (simp add: fold_write_todo)
  ultimately show ?case by (rule converse_rtranclp_into_rtranclp)
qed


text \<open>
  The writes of \<open>main\<close> and of the first tick can mix: with all writes done, the object says \<open>OK\<close>
  with the message that the database is down, and stays so until the next tick.
\<close>

text \<open>
  C39. The unsynchronised writes can mix for good: with the store down at the first tick there is a run
  after which every write is done, the code is OK and the message says the database is down.
\<close>

lemma health_torn:
  assumes "fst (IsLikelyOk D d) = False"
  shows "\<exists>h. health_reach D (health_start d c) h \<and> ticker_todo h = [] \<and> main_todo h = [] \<and>
    StatusCode (obj h) = OK \<and> Message (obj h) = ''Database is down''"
proof -
  obtain db1 where p: "IsLikelyOk D d = (False, db1)" using assms by (metis prod.collapse)
  let ?h0 = "health_start d c"
  let ?w = "newStatus_writes Warning ''Database is down''"
  let ?h1 = "?h0\<lparr>hdb := db1, ticker_todo := ?w\<rparr>"
  have s: "ticker_todo ?h0 = []" "hdb ?h0 = d" "main_todo ?h0 = newStatus_writes OK ''All good''"
    by (simp_all add: health_start_def split: prod.splits)
  have 1: "health_step D ?h0 ?h1" using fire [of ?h0 D False db1] s p by simp
  let ?h2 = "(apply_write (WCode Warning) ?h1)\<lparr>ticker_todo := tl ?w\<rparr>"
  have 2: "health_step D ?h1 ?h2" by (rule ticker) (simp add: newStatus_writes_def)
  let ?h3 = "(apply_write (WCode OK) ?h2)\<lparr>main_todo := [WMessage ''All good'', WTimestamp]\<rparr>"
  have 3: "health_step D ?h2 ?h3" by (rule mainw) (simp add: s newStatus_writes_def)
  let ?h4 = "(apply_write (WMessage ''All good'') ?h3)\<lparr>main_todo := [WTimestamp]\<rparr>"
  have 4: "health_step D ?h3 ?h4" by (rule mainw) simp
  let ?h5 = "(apply_write (WMessage ''Database is down'') ?h4)\<lparr>ticker_todo := [WTimestamp]\<rparr>"
  have 5: "health_step D ?h4 ?h5" by (rule ticker) (simp add: newStatus_writes_def)
  let ?h6 = "(apply_write WTimestamp ?h5)\<lparr>ticker_todo := []\<rparr>"
  have 6: "health_step D ?h5 ?h6" by (rule ticker) simp
  let ?h7 = "(apply_write WTimestamp ?h6)\<lparr>main_todo := []\<rparr>"
  have 7: "health_step D ?h6 ?h7" by (rule mainw) (simp split: prod.splits)
  have "health_reach D ?h0 ?h7"
    using 1 2 3 4 5 6 7 by (meson rtranclp.rtrancl_into_rtrancl rtranclp.rtrancl_refl)
  moreover have "ticker_todo ?h7 = []" "main_todo ?h7 = []" "StatusCode (obj ?h7) = OK"
    "Message (obj ?h7) = ''Database is down''"
    by (simp_all split: prod.splits)
  ultimately show ?thesis by blast
qed

section \<open>Concrete runs\<close>

lemma noenv_main:
  "main sdk_ok fmul noenv (\<lambda>_. True) =
    ([Opened S_Memory, TickerStarted (seconds 30),
      Listening (bindAddr (read_config noenv)) (seconds 10) (seconds 15) (seconds 60),
      StatusAllGood, ServerShutdown (seconds 15)], Exited 0)"
proof -
  have c: "read_config noenv = \<lparr>port = 8800, ip = '''', mongoUri = '''', postgresUri = '''',
      mysqlDsn = '''', sqlitePath = '''', redisUri = ''''\<rparr>"
    by (simp add: read_config_def noenv_def StringOrDefault_def)
  have d: "DurationOrDefault fmul noenv k v = v" for k v
    by (simp add: DurationOrDefault_def noenv_def)
  have "dbOptionsSet (read_config noenv) = 0" "select_store (read_config noenv) = S_Memory"
    by (simp_all add: c dbOptionsSet_def select_store_def)
  moreover have "0 < seconds 30" by (simp add: seconds_def)
  ultimately show ?thesis by (simp add: main_def d Let_def)
qed



text \<open>The in-memory store, and the same store when it does not answer.\<close>

definition down_dao :: "(MemoryDB, href) ShortUrlDao" where
  "down_dao = memory_dao\<lparr>IsLikelyOk := (\<lambda>d. (False, d))\<rparr>"


lemma health_torn_witness:
  "\<exists>h. health_reach down_dao (health_start (CreateMemoryDB clock0) clock0) h \<and> ticker_todo h = [] \<and>
     main_todo h = [] \<and> StatusCode (obj h) = OK \<and> Message (obj h) = ''Database is down''"
  by (rule health_torn) (simp add: down_dao_def)


end
