(* ===== verification/Interleaving.thy ===== *)
theory Interleaving
  imports Concrete
begin

text \<open>
  Requests that run at the same time. \<open>addHandler\<close> is not atomic: it looks the URL up, draws
  words and probes them, and saves, each store call atomic on its own (the mutex of \<open>MemoryDB\<close>,
  a statement of a database). Here the handler is cut at its store calls into the phases
  \<open>add_pc\<close>; one phase is \<open>add_step\<close>. \<open>add_run_iff\<close> states that the phases run alone are the handler of
  \<open>Handlers\<close>. A system is a list of such threads over one shared state, with the store calls of
  the other handlers in between (\<open>sys_step\<close>). Drawing a word (\<open>randString\<close>) and counting a try
  are one step each, although the Go code does not guard \<open>keySize\<close> and \<open>rando.r\<close> at all.
\<close>

section \<open>The phases of \<open>addHandler\<close>\<close>

datatype 'd add_pc =
    Lookup string
  | Draw string int
  | Probe string int string
  | Again string int string
  | Saving string string
  | Done "'d response"

fun add_step ::
  "getenv \<Rightarrow> ('s, 'd) ShortUrlDao \<Rightarrow> 'd add_pc \<Rightarrow> 's Handlers \<Rightarrow> ('d add_pc \<times> 's Handlers) option" where
  "add_step env D (Lookup u) h =
     (let ((abv, _), db1) = GetAbv D (db h) u
      in Some (if abv \<noteq> '''' then Done (JSONResp 200 (JUrl (createReturn abv))) else Draw u 0,
               h\<lparr>db := db1\<rparr>))"
| "add_step env D (Draw u tries) h =
     map_option (\<lambda>(a, g). (Probe u tries a, h\<lparr>gener := g\<rparr>)) (randString env (gener h))"
| "add_step env D (Probe u tries a) h =
     (let ((w, _), db1) = GetUrl D (db h) a; (tries1, g1) = count_try env tries (gener h)
      in Some (if w \<noteq> '''' \<and> u \<noteq> w then (Again u tries1 a, h\<lparr>gener := g1, db := db1\<rparr>)
               else (Saving u a, h\<lparr>db := db1\<rparr>)))"
| "add_step env D (Again u tries a) h =
     (let ((_, e), db1) = GetUrl D (db h) a
      in Some (case e of
           Some m \<Rightarrow> Done (StringResp 500 (''Error creating abbreviation: error checking abbreviation '' @ m))
         | None \<Rightarrow> Draw u tries, h\<lparr>db := db1\<rparr>))"
| "add_step env D (Saving u a) h =
     (let (e, db1) = Save D (db h) a u
      in Some (Done (case e of Some m \<Rightarrow> StringResp 500 (''Error saving url: '' @ m)
                     | None \<Rightarrow> JSONResp 200 (JUrl (createReturn a))), h\<lparr>db := db1\<rparr>))"
| "add_step env D (Done r) h = None"

fun add_run ::
  "nat \<Rightarrow> getenv \<Rightarrow> ('s, 'd) ShortUrlDao \<Rightarrow> 'd add_pc \<times> 's Handlers \<Rightarrow> 'd add_pc \<times> 's Handlers" where
  "add_run 0 env D (pc, h) = (pc, h)"
| "add_run (Suc n) env D (pc, h) =
     (case add_step env D pc h of None \<Rightarrow> (pc, h) | Some st \<Rightarrow> add_run n env D st)"

section \<open>Alone, the phases are the handler\<close>

text \<open>What is left of the handler at each phase, in the terms of \<open>Handlers\<close>.\<close>

definition finish ::
  "('s, 'd) ShortUrlDao \<Rightarrow> string \<Rightarrow> 's Handlers \<Rightarrow> (string \<times> err) \<times> gen \<times> 's \<Rightarrow> 'd response \<times> 's Handlers" where
  "finish D u h = (\<lambda>((a, e), g, d).
     (case e of
        Some m \<Rightarrow> (StringResp 500 (''Error creating abbreviation: '' @ m), h\<lparr>gener := g, db := d\<rparr>)
      | None \<Rightarrow>
          (case Save D d a u of
             (Some m, d1) \<Rightarrow> (StringResp 500 (''Error saving url: '' @ m), h\<lparr>gener := g, db := d1\<rparr>)
           | (None, d1) \<Rightarrow> (JSONResp 200 (JUrl (createReturn a)), h\<lparr>gener := g, db := d1\<rparr>))))"

definition probed ::
  "getenv \<Rightarrow> ('s, 'd) ShortUrlDao \<Rightarrow> string \<Rightarrow> int \<Rightarrow> string \<Rightarrow> 's Handlers \<Rightarrow> ('d response \<times> 's Handlers) option" where
  "probed env D u tries a h =
     map_option (finish D u h)
       (create_loop env D u tries a (fst (fst (GetUrl D (db h) a))) (gener h) (snd (GetUrl D (db h) a)))"

definition drawing ::
  "getenv \<Rightarrow> ('s, 'd) ShortUrlDao \<Rightarrow> string \<Rightarrow> int \<Rightarrow> 's Handlers \<Rightarrow> ('d response \<times> 's Handlers) option" where
  "drawing env D u tries h =
     Option.bind (randString env (gener h)) (\<lambda>(a, g). probed env D u tries a (h\<lparr>gener := g\<rparr>))"

fun rest_of ::
  "getenv \<Rightarrow> ('s, 'd) ShortUrlDao \<Rightarrow> 'd add_pc \<Rightarrow> 's Handlers \<Rightarrow> ('d response \<times> 's Handlers) option" where
  "rest_of env D (Lookup u) h =
     (let ((abv, _), db1) = GetAbv D (db h) u
      in if abv \<noteq> '''' then Some (JSONResp 200 (JUrl (createReturn abv)), h\<lparr>db := db1\<rparr>)
         else drawing env D u 0 (h\<lparr>db := db1\<rparr>))"
| "rest_of env D (Draw u tries) h = drawing env D u tries h"
| "rest_of env D (Probe u tries a) h = probed env D u tries a h"
| "rest_of env D (Again u tries a) h =
     (let ((_, e), db1) = GetUrl D (db h) a
      in case e of
           Some m \<Rightarrow> Some (StringResp 500 (''Error creating abbreviation: error checking abbreviation '' @ m), h\<lparr>db := db1\<rparr>)
         | None \<Rightarrow> drawing env D u tries (h\<lparr>db := db1\<rparr>))"
| "rest_of env D (Saving u a) h = Some (finish D u h ((a, None), gener h, db h))"
| "rest_of env D (Done r) h = Some (r, h)"

lemma upd_comm: "h\<lparr>db := x, gener := y\<rparr> = h\<lparr>gener := y, db := x\<rparr>" for h :: "'s Handlers"
  by (cases h) simp

lemma finish_frame [simp]:
  "finish D u (h\<lparr>db := x\<rparr>) = finish D u h" "finish D u (h\<lparr>gener := y\<rparr>) = finish D u h"
  by (auto simp: finish_def fun_eq_iff split: option.splits prod.splits)

lemma addHandler_rest:
  assumes "read_url W body = Inr u"
  shows "addHandler env W D body h = rest_of env D (Lookup u) (count_new h)"
proof -
  obtain a e db1 where ga: "GetAbv D (db h) u = ((a, e), db1)" by (metis prod.exhaust)
  show ?thesis
  proof (cases "a = [] \<and> randString env (gener h) \<noteq> None")
    case False
    then consider "a \<noteq> []" | "a = []" "randString env (gener h) = None" by blast
    then show ?thesis using assms ga
      by cases (simp_all add: addHandler_def drawing_def CreateAbbreviation_def Let_def)
  next
    case True
    then obtain b g1 where b: "a = []" "randString env (gener h) = Some (b, g1)" by auto
    show ?thesis
    proof (cases "create_loop env D u 0 b (fst (fst (GetUrl D db1 b))) g1 (snd (GetUrl D db1 b))")
      case None
      with assms ga b show ?thesis
        by (simp add: addHandler_def drawing_def probed_def CreateAbbreviation_def Let_def)
    next
      case (Some x)
      obtain a1 e1 g2 db2 where "x = ((a1, e1), g2, db2)" by (metis prod.exhaust)
      with Some assms ga b show ?thesis
        by (auto simp: addHandler_def drawing_def probed_def finish_def CreateAbbreviation_def
            Let_def split: option.split prod.split)
    qed
  qed
qed

text \<open>Every phase hands on what is left.\<close>

lemma probed_unfold:
  "probed env D u tries a h =
     (let w = fst (fst (GetUrl D (db h) a)); tg = count_try env tries (gener h);
          h1 = h\<lparr>db := snd (GetUrl D (db h) a)\<rparr>
      in if w \<noteq> [] \<and> u \<noteq> w then rest_of env D (Again u (fst tg) a) (h1\<lparr>gener := snd tg\<rparr>)
         else rest_of env D (Saving u a) h1)"
proof (cases "fst (fst (GetUrl D (db h) a)) \<noteq> [] \<and> u \<noteq> fst (fst (GetUrl D (db h) a))")
  case False
  then have "create_loop env D u tries a (fst (fst (GetUrl D (db h) a))) (gener h) (snd (GetUrl D (db h) a))
      = Some ((a, None), gener h, snd (GetUrl D (db h) a))"
    by (subst create_loop.simps) auto
  with False show ?thesis by (auto simp add: probed_def Let_def)
next
  case True
  let ?tg = "count_try env tries (gener h)" and ?d1 = "snd (GetUrl D (db h) a)"
  obtain w2 e2 d2 where g2: "GetUrl D ?d1 a = ((w2, e2), d2)" by (metis prod.exhaust)
  show ?thesis
  proof (cases e2)
    case (Some m)
    with True g2 show ?thesis
      by (simp add: probed_def create_loop.simps [of env D u tries a] Let_def finish_def)
  next
    case None
    with True g2 show ?thesis
      by (cases "randString env (snd ?tg)")
        (auto simp: probed_def drawing_def create_loop.simps [of env D u tries a] Let_def split: prod.split)
  qed
qed

lemma rest_of_step:
  "add_step env D pc h = Some (pc', h') \<Longrightarrow> rest_of env D pc h = rest_of env D pc' h'"
proof (cases pc)
  case (Probe u tries a)
  assume "add_step env D pc h = Some (pc', h')"
  with Probe show ?thesis
    by (cases "count_try env tries (gener h)"; cases "GetUrl D (snd (GetUrl D (db h) a)) a";
        cases "snd (fst (GetUrl D (snd (GetUrl D (db h) a)) a))")
      (auto simp: probed_unfold [of env D u tries a h] Let_def split: prod.splits if_splits)
qed (auto simp: drawing_def finish_def Let_def split: prod.splits option.splits if_splits)

lemma rest_of_stuck:
  "add_step env D pc h = None \<Longrightarrow> rest_of env D pc h = Some (r, h') \<Longrightarrow> pc = Done r \<and> h' = h"
  by (cases pc) (auto simp: drawing_def Let_def split: prod.splits)

lemma add_run_sound:
  "add_run n env D (pc, h) = (Done r, h') \<Longrightarrow> rest_of env D pc h = Some (r, h')"
proof (induction n arbitrary: pc h)
  case (Suc n)
  show ?case
  proof (cases "add_step env D pc h")
    case (Some st)
    with Suc.prems Suc.IH [of "fst st" "snd st"] show ?thesis
      by (cases st) (simp add: rest_of_step)
  qed (use Suc.prems in simp)
qed simp

text \<open>A handler that returns has only finitely many phases.\<close>

lemma add_run_one:
  "add_step env D pc h = Some st \<Longrightarrow> add_run n env D st = z \<Longrightarrow> add_run (Suc n) env D (pc, h) = z"
  by simp

lemma add_run_again:
  "\<exists>n. add_run n env D (pc', h') = z \<Longrightarrow> add_step env D pc h = Some (pc', h')
     \<Longrightarrow> \<exists>n. add_run n env D (pc, h) = z"
  using add_run_one by blast

lemma saving_runs: "\<exists>n. add_run n env D (Saving u a, h) = (\<lambda>(r, h'). (Done r, h')) (finish D u h ((a, None), gener h, db h))"
  by (rule exI [of _ "Suc 0"]) (auto simp: finish_def split: prod.splits option.splits)

lemma probe_runs:
  assumes "create_loop env D u tries a w g s = Some x"
    and "w = fst (fst (GetUrl D (db h) a))" "g = gener h" "s = snd (GetUrl D (db h) a)"
  shows "\<exists>n. add_run n env D (Probe u tries a, h) = (\<lambda>(r, h'). (Done r, h')) (finish D u h x)"
proof -
  let ?P = "\<lambda>env' D' u tries a w g s x. env' = env \<longrightarrow> D' = D \<longrightarrow>
    (\<forall>h. w = fst (fst (GetUrl D (db h) a)) \<longrightarrow> g = gener h \<longrightarrow> s = snd (GetUrl D (db h) a) \<longrightarrow>
      (\<exists>n. add_run n env D (Probe u tries a, h) = (\<lambda>(r, h'). (Done r, h')) (finish D u h x)))"
  have "?P env D u tries a w g s x"
  proof (rule create_loop.raw_induct [where P = ?P, OF _ assms(1)], intro impI allI, goal_cases)
    case (1 f env' D' u tries a w g s x h)
    note IH = "1"(1) and eq = "1"(2)
    have eqs: "env' = env" "D' = D" "g = gener h" "s = snd (GetUrl D (db h) a)"
      and w: "w = fst (fst (GetUrl D (db h) a))" using "1" by simp_all
    obtain e db1 where gu: "GetUrl D (db h) a = ((w, e), db1)" using w by (metis prod.collapse)
    show ?case
    proof (cases "w \<noteq> [] \<and> u \<noteq> w")
      case False
      with eq eqs gu have "x = ((a, None), gener h, db1)" by auto
      then have "\<exists>n. add_run n env D (Saving u a, h\<lparr>db := db1\<rparr>) = (\<lambda>(r, h'). (Done r, h')) (finish D u h x)"
        using saving_runs [of env D u a "h\<lparr>db := db1\<rparr>"] by simp
      moreover have "add_step env D (Probe u tries a) h = Some (Saving u a, h\<lparr>db := db1\<rparr>)"
        using False gu by (cases "count_try env tries (gener h)") simp
      ultimately show ?thesis by (rule add_run_again)
    next
      case go: True
      obtain tries1 g1 where tg: "count_try env tries (gener h) = (tries1, g1)" by (metis prod.exhaust)
      obtain w2 e2 db2 where gu2: "GetUrl D db1 a = ((w2, e2), db2)" by (metis prod.exhaust)
      let ?h1 = "h\<lparr>gener := g1, db := db1\<rparr>"
      have "\<exists>n. add_run n env D (Again u tries1 a, ?h1) = (\<lambda>(r, h'). (Done r, h')) (finish D u h x)"
      proof (cases e2)
        case (Some m)
        with go eq eqs gu gu2 tg have "x = (([], Some (''error checking abbreviation '' @ m)), g1, db2)"
          by (simp add: Let_def)
        then show ?thesis using gu2 Some
          by (intro exI [of _ "Suc 0"]) (simp add: finish_def)
      next
        case None
        with go eq eqs gu gu2 tg obtain a1 g2 where a1: "randString env g1 = Some (a1, g2)"
          and rest: "f env D u tries1 a1 (fst (fst (GetUrl D db2 a1))) g2 (snd (GetUrl D db2 a1)) = Some x"
          by (auto simp: Let_def bind_eq_Some_conv)
        let ?h2 = "h\<lparr>gener := g2, db := db2\<rparr>"
        have "\<exists>n. add_run n env D (Probe u tries1 a1, ?h2) = (\<lambda>(r, h'). (Done r, h')) (finish D u ?h2 x)"
          using IH [OF rest, THEN mp, THEN mp, THEN spec, of ?h2] by simp
        then have "\<exists>n. add_run n env D (Draw u tries1, h\<lparr>gener := g1, db := db2\<rparr>)
            = (\<lambda>(r, h'). (Done r, h')) (finish D u h x)"
          unfolding finish_frame by (rule add_run_again) (simp add: a1 upd_comm)
        then show ?thesis by (rule add_run_again) (simp add: gu2 None)
      qed
      then show ?thesis by (rule add_run_again) (use go gu tg in simp)
    qed
  qed
  with assms(2-4) show ?thesis by blast
qed

lemma probed_Some:
  "probed env D u tries a h = Some y \<longleftrightarrow>
     (\<exists>x. create_loop env D u tries a (fst (fst (GetUrl D (db h) a))) (gener h) (snd (GetUrl D (db h) a))
            = Some x \<and> finish D u h x = y)"
  by (simp add: probed_def)

lemma add_run_complete:
  assumes "rest_of env D (Lookup u) h = Some (r, h')"
  shows "\<exists>n. add_run n env D (Lookup u, h) = (Done r, h')"
proof -
  obtain a e db1 where ga: "GetAbv D (db h) u = ((a, e), db1)" by (metis prod.exhaust)
  show ?thesis
  proof (cases "a = []")
    case False
    with assms ga show ?thesis by (intro exI [of _ "Suc 0"]) simp
  next
    case True
    with assms ga have "drawing env D u 0 (h\<lparr>db := db1\<rparr>) = Some (r, h')" by simp
    then obtain b g where b: "randString env (gener h) = Some (b, g)"
      and p: "probed env D u 0 b (h\<lparr>gener := g, db := db1\<rparr>) = Some (r, h')"
      unfolding drawing_def by (cases "randString env (gener h)") (auto simp: upd_comm)
    from p obtain x where
      x: "create_loop env D u 0 b (fst (fst (GetUrl D db1 b))) g (snd (GetUrl D db1 b)) = Some x"
      "(r, h') = finish D u (h\<lparr>gener := g, db := db1\<rparr>) x"
      unfolding probed_Some by auto
    have "\<exists>n. add_run n env D (Probe u 0 b, h\<lparr>gener := g, db := db1\<rparr>) = (Done r, h')"
      using probe_runs [OF x(1), of "h\<lparr>gener := g, db := db1\<rparr>"] x(2) by (simp split: prod.splits)
    then have "\<exists>n. add_run n env D (Draw u 0, h\<lparr>db := db1\<rparr>) = (Done r, h')"
      by (rule add_run_again) (simp add: b upd_comm)
    then show ?thesis by (rule add_run_again) (simp add: ga True)
  qed
qed

text \<open>Alone, the phases return exactly when the handler does, with the same answer and state.\<close>

text \<open>
  C10. The phases of addHandler, run one after the other with nothing in between, return exactly when the
  handler returns, with the same response and the same state.
\<close>

lemma add_run_iff:
  "read_url W body = Inr u \<Longrightarrow>
     (\<exists>n. add_run n env D (Lookup u, count_new h) = (Done r, h')) \<longleftrightarrow>
     addHandler env W D body h = Some (r, h')"
  using add_run_sound [of _ env D "Lookup u" "count_new h" r h']
    add_run_complete [of env D u "count_new h" r h']
  by (auto simp only: addHandler_rest)

section \<open>Many requests\<close>

type_synonym ('s, 'd) sys = "'d add_pc list \<times> 's Handlers"

text \<open>The store calls that the other handlers, the health loop and the probes make.\<close>

fun other_call :: "dao_call \<Rightarrow> bool" where
  "other_call (CSave a u) = False"
| "other_call (CDeleteUrl u) = False"
| "other_call c = True"

text \<open>A step is a phase of one thread or a call from elsewhere; a run is labelled by its steps.\<close>

datatype label = Thread nat | Call dao_call

inductive sys_step ::
  "getenv \<Rightarrow> ('s, 'd) ShortUrlDao \<Rightarrow> label \<Rightarrow> ('s, 'd) sys \<Rightarrow> ('s, 'd) sys \<Rightarrow> bool"
  for env D where
  thread: "i < length ts \<Longrightarrow> add_step env D (ts ! i) h = Some (pc, h')
     \<Longrightarrow> sys_step env D (Thread i) (ts, h) (ts[i := pc], h')"
| other: "other_call c \<Longrightarrow> sys_step env D (Call c) (ts, h) (ts, h\<lparr>db := dao_step D (db h) c\<rparr>)"

inductive_simps sys_step_simps: "sys_step env D l (ts, h) st'"
inductive_cases sys_stepE: "sys_step env D l (ts, h) (ts', h')"

inductive sys_run ::
  "getenv \<Rightarrow> ('s, 'd) ShortUrlDao \<Rightarrow> label list \<Rightarrow> ('s, 'd) sys \<Rightarrow> ('s, 'd) sys \<Rightarrow> bool"
  for env D where
  stop: "sys_run env D [] st st"
| step: "sys_step env D l st st1 \<Longrightarrow> sys_run env D ls st1 st2 \<Longrightarrow> sys_run env D (l # ls) st st2"

inductive_cases sys_run_ConsE: "sys_run env D (l # ls) st st'"

text \<open>A run as a function of its labels.\<close>

fun run_schedule ::
  "getenv \<Rightarrow> ('s, 'd) ShortUrlDao \<Rightarrow> label list \<Rightarrow> ('s, 'd) sys \<Rightarrow> ('s, 'd) sys option" where
  "run_schedule env D [] st = Some st"
| "run_schedule env D (Thread i # ls) (ts, h) =
     (if i < length ts
      then (case add_step env D (ts ! i) h of None \<Rightarrow> None
            | Some (pc, h') \<Rightarrow> run_schedule env D ls (ts[i := pc], h'))
      else None)"
| "run_schedule env D (Call c # ls) (ts, h) =
     (if other_call c then run_schedule env D ls (ts, h\<lparr>db := dao_step D (db h) c\<rparr>) else None)"

lemma run_schedule_iff: "run_schedule env D ls st = Some st' \<longleftrightarrow> sys_run env D ls st st'"
proof (induction env D ls st rule: run_schedule.induct)
  case (1 env D st)
  show ?case by (auto intro: stop elim: sys_run.cases)
next
  case (2 env D i ls ts h)
  then show ?case
    by (auto simp: sys_step_simps split: option.splits elim!: sys_run_ConsE intro!: step)
next
  case (3 env D c ls ts h)
  then show ?case by (auto simp: sys_step_simps elim!: sys_run_ConsE intro!: step)
qed

lemma sys_run_invariant:
  assumes "sys_run env D ls st st'" "P st"
    and "\<And>l st st'. l \<in> set ls \<Longrightarrow> P st \<Longrightarrow> sys_step env D l st st' \<Longrightarrow> P st'"
  shows "P st'"
  using assms
proof (induction rule: sys_run.induct)
  case (step l st st1 ls st2)
  from step.prems(2) [OF list.set_intros(1) step.prems(1) step.hyps(1)]
  have "P st1" .
  with step.IH step.prems(2) show ?case by (meson list.set_intros(2))
qed simp

text \<open>A phase makes at most one call of the store.\<close>

lemma add_step_call:
  assumes "add_step env D pc h = Some (pc', h')"
  shows "db h' = db h \<or> (\<exists>c. db h' = dao_step D (db h) c)"
proof (cases pc)
  case (Lookup u)
  with assms have "db h' = dao_step D (db h) (CGetAbv u)" by (auto split: prod.splits)
  then show ?thesis by blast
next
  case (Probe u tries a)
  with assms have "db h' = dao_step D (db h) (CGetUrl a)" by (auto split: prod.splits if_splits)
  then show ?thesis by blast
next
  case (Again u tries a)
  with assms have "db h' = dao_step D (db h) (CGetUrl a)" by (auto split: prod.splits)
  then show ?thesis by blast
next
  case (Saving u a)
  with assms have "db h' = dao_step D (db h) (CSave a u)" by (auto split: prod.splits)
  then show ?thesis by blast
qed (use assms in auto)

text \<open>Whatever the interleaving, an invariant of every store call holds.\<close>

lemma sys_store_invariant:
  assumes "sys_run env D ls (ts, h) (ts', h')" "P (db h)" "\<And>s c. P s \<Longrightarrow> P (dao_step D s c)"
  shows "P (db h')"
proof -
  have "(\<lambda>st. P (db (snd st))) (ts', h')"
  proof (rule sys_run_invariant [OF assms(1)])
    fix l st st' assume inv: "P (db (snd st))" and step: "sys_step env D l st st'"
    from step show "P (db (snd st'))"
    proof cases
      case (thread i ts h pc h')
      with add_step_call [OF thread(5)] inv show ?thesis by (auto simp: assms(3))
    next
      case (other c ts h)
      with inv show ?thesis by (simp add: assms(3))
    qed
  qed (use assms(2) in simp)
  then show ?thesis by simp
qed


section \<open>Two requests, one abbreviation\<close>

text \<open>
  Both requests find their word free before either has saved it. The second \<open>Save\<close> of \<open>MemoryDB\<close>
  goes over the first: both clients hold the same confirmed abbreviation, and one of the two
  URLs is reachable under none.
\<close>

definition race_start :: "string \<Rightarrow> string \<Rightarrow> wall_clock \<Rightarrow> (MemoryDB, href) sys" where
  "race_start u v c =
     ([Lookup u, Lookup v],
      CreateHandlers (CreateMemoryDB c) \<lparr>keySize = 1, src = \<lparr>draws = (\<lambda>_. 26), pos = 0\<rparr>\<rparr>
        \<lparr>StatusCode = OK, Message = ''All good'', Timestamp = ''''\<rparr> ''id'' None)"

text \<open>
  C23. Two requests for different URLs at the same time can both be confirmed with the same
  abbreviation by the in-memory store: afterwards it leads to the second URL only, and the first
  URL, when asked for again, is answered with it all the same.
\<close>

lemma race_run:
  assumes "u \<noteq> ''''" "v \<noteq> ''''" "u \<noteq> v"
  shows "\<exists>h. sys_run env memory_dao (map Thread [0, 1, 0, 0, 1, 1, 0, 1]) (race_start u v c)
       ([Done (JSONResp 200 (JUrl (createReturn ''0''))), Done (JSONResp 200 (JUrl (createReturn ''0'')))], h) \<and>
    mem_links (db h) = [''0'' \<mapsto> v] \<and> fst (mem_GetAbv (db h) u) = (''0'', None)"
  unfolding run_schedule_iff [symmetric]
  using assms
  by (simp add: race_start_def CreateHandlers_def CreateMemoryDB_def zero_draw mem_GetAbv_def mem_GetUrl_def
      mem_Save_def make_map_def new_ShortUrl_def mem_links_def fun_eq_iff)

lemma race_run_witness:
  "\<exists>h. sys_run noenv memory_dao (map Thread [0, 1, 0, 0, 1, 1, 0, 1]) (race_start ''http://a'' ''http://b'' clock0)
       ([Done (JSONResp 200 (JUrl (createReturn ''0''))), Done (JSONResp 200 (JUrl (createReturn ''0'')))], h) \<and>
    mem_links (db h) = [''0'' \<mapsto> ''http://b''] \<and> fst (mem_GetAbv (db h) ''http://a'') = (''0'', None)"
  by (rule race_run) simp_all


lemma add_run_iff_witness:
  "\<exists>n. add_run n noenv memory_dao (Lookup ''http://h'', count_new fresh0)
    = (Done (JSONResp 200 (JUrl (createReturn ''0''))), served_one ''http://h'')"
  using add_run_iff [of web0 "''http://h''" "''http://h''" noenv memory_dao fresh0] add0_fresh0 [of "''http://h''"]
  by (simp add: read_url_def web0_def)

section \<open>A store that refuses to take an abbreviation over\<close>

text \<open>
  With a store that refuses, no interleaving of creations loses a link: what is stored stays
  until its deletion is asked for.
\<close>

fun pc_ok :: "'d add_pc \<Rightarrow> bool" where
  "pc_ok (Lookup u) \<longleftrightarrow> u \<noteq> ''''"
| "pc_ok (Draw u tries) \<longleftrightarrow> u \<noteq> ''''"
| "pc_ok (Probe u tries a) \<longleftrightarrow> u \<noteq> '''' \<and> a \<noteq> ''''"
| "pc_ok (Again u tries a) \<longleftrightarrow> u \<noteq> '''' \<and> a \<noteq> ''''"
| "pc_ok (Saving u a) \<longleftrightarrow> u \<noteq> '''' \<and> a \<noteq> ''''"
| "pc_ok (Done r) \<longleftrightarrow> True"

definition sys_ok :: "('s \<Rightarrow> bool) \<Rightarrow> ('s, 'd) sys \<Rightarrow> bool" where
  "sys_ok I st \<longleftrightarrow> I (db (snd st)) \<and> 1 \<le> keySize (gener (snd st)) \<and> (\<forall>pc \<in> set (fst st). pc_ok pc)"

context refusing_dao
begin

lemma save_stable:
  assumes "inv s" "fits a u" "a \<noteq> ''''" "u \<noteq> ''''" "links s b = Some w"
  shows "inv (snd (Save D s a u)) \<and> links (snd (Save D s a u)) b = Some w"
proof -
  obtain e s' where s: "Save D s a u = (e, s')" by (metis prod.exhaust)
  consider "savable (links s) a u" | w' where "links s a = Some w'" "w' \<noteq> u"
    | c where "links s a = None" "links s c = Some u"
    using assms(3,4) by (cases "links s a") (auto simp: savable_def ran_def)
  then show ?thesis
  proof cases
    case 1
    with save [OF assms(1,2) 1 s] s assms(5) show ?thesis by (auto simp: savable_def)
  next
    case 2
    from save_conflict [OF assms(1) 2 s] s assms(5) show ?thesis by simp
  next
    case 3
    from save_known [OF assms(1) 3(2,1) s] s assms(5) show ?thesis by simp
  qed
qed

lemma add_step_stable:
  assumes "inv (db h)" "1 \<le> keySize (gener h)" "pc_ok pc" "\<And>a u. fits a u"
    and "links (db h) b = Some w" "add_step env D pc h = Some (pc', h')"
  shows "inv (db h') \<and> 1 \<le> keySize (gener h') \<and> pc_ok pc' \<and> links (db h') b = Some w"
proof (cases pc)
  case (Lookup u)
  with assms getAbv_frame [OF assms(1), of u] show ?thesis by (auto split: prod.splits)
next
  case (Draw u tries)
  with assms(6) obtain a g where r: "randString env (gener h) = Some (a, g)"
    and h': "h' = h\<lparr>gener := g\<rparr>" "pc' = Probe u tries a" by auto
  from randString_returned [OF r] assms(2) have "1 \<le> keySize g" "a \<noteq> ''''" by (auto simp: drawn_def)
  with h' assms Draw show ?thesis by simp
next
  case (Probe u tries a)
  with assms getUrl_frame [OF assms(1), of a] count_try_keySize [of "gener h" env tries] show ?thesis
    by (auto split: prod.splits if_splits)
next
  case (Again u tries a)
  with assms getUrl_frame [OF assms(1), of a] show ?thesis by (auto split: prod.splits option.splits)
next
  case (Saving u a)
  with assms save_stable [OF assms(1,4), of a u b w] show ?thesis by (auto split: prod.splits)
qed (use assms in auto)

lemma call_stable:
  assumes "inv s" "other_call c" "c \<noteq> CDeleteAbv b" "links s b = Some w"
  shows "inv (dao_step D s c) \<and> links (dao_step D s c) b = Some w"
proof (cases c)
  case (CDeleteAbv a)
  with assms deleteAbv [OF assms(1), of a] show ?thesis by (cases "DeleteAbv D s a") auto
next
  case CIsLikelyOk
  with assms isLikelyOk [OF assms(1)] show ?thesis by (cases "IsLikelyOk D s") auto
qed (use assms getUrl_frame [OF assms(1)] getAbv_frame [OF assms(1)] getStats_frame [OF assms(1)] in auto)

lemma sys_step_stable:
  assumes "sys_step env D l st st'" "sys_ok inv st" "\<And>a u. fits a u"
    and "l \<noteq> Call (CDeleteAbv b)" "links (db (snd st)) b = Some w"
  shows "sys_ok inv st' \<and> links (db (snd st')) b = Some w"
  using assms(1)
proof cases
  case (thread i ts h pc h')
  with assms(2,5) have "inv (db h)" "1 \<le> keySize (gener h)" "pc_ok (ts ! i)" "links (db h) b = Some w"
    by (simp_all add: sys_ok_def)
  from add_step_stable [OF this(1-3) assms(3) this(4) thread(5)] assms(2) thread
  show ?thesis by (auto simp: sys_ok_def dest: set_update_subset_insert [THEN subsetD])
next
  case (other c ts h)
  with call_stable [of "db h" c b w] assms(2,4,5) show ?thesis by (simp add: sys_ok_def)
qed

end


section \<open>Statistics that are written late\<close>

text \<open>
  A run of the whole system over a store whose look-ups leave goroutines behind: phases of
  creations and calls of the other handlers (\<open>Now\<close>), and steps of the pending goroutines (\<open>Late\<close>).
\<close>

datatype late_label = Now label | Late nat

inductive late_run ::
  "getenv \<Rightarrow> ('s, 'd) ShortUrlDao \<Rightarrow> (nat \<Rightarrow> 's \<Rightarrow> 's) \<Rightarrow> late_label list \<Rightarrow>
     ('s, 'd) sys \<Rightarrow> ('s, 'd) sys \<Rightarrow> bool"
  for env D next_job where
  late_stop: "late_run env D next_job [] st st"
| late_now: "sys_step env D l st st1 \<Longrightarrow> late_run env D next_job ls st1 st2 \<Longrightarrow>
     late_run env D next_job (Now l # ls) st st2"
| late_job: "late_run env D next_job ls (ts, h\<lparr>db := next_job k (db h)\<rparr>) st2 \<Longrightarrow>
     late_run env D next_job (Late k # ls) (ts, h) st2"

text \<open>A store that refuses, and whose goroutines keep its links.\<close>

locale late_dao = refusing_dao D inv links fits
  for D :: "('s, 'd) ShortUrlDao" and inv links fits +
  fixes next_job :: "nat \<Rightarrow> 's \<Rightarrow> 's"
  assumes job_keeps: "inv s \<Longrightarrow> inv (next_job k s) \<and> links (next_job k s) = links s"
begin

lemma late_stable:
  assumes "late_run env D next_job ls st st'" "sys_ok inv st" "\<And>a u. fits a u"
    and "Now (Call (CDeleteAbv b)) \<notin> set ls" "links (db (snd st)) b = Some w"
  shows "sys_ok inv st' \<and> links (db (snd st')) b = Some w"
  using assms
proof (induction rule: late_run.induct)
  case (late_now l st st1 ls st2)
  have "sys_ok inv st1 \<and> links (db (snd st1)) b = Some w"
    using sys_step_stable [OF late_now.hyps(1) late_now.prems(1,2) _ late_now.prems(4)] late_now.prems(3) by auto
  with late_now show ?case by auto
next
  case (late_job ls ts k h st2)
  from late_job.prems(1) have "inv (db h)" by (simp add: sys_ok_def)
  from job_keeps [OF this, of k] late_job show ?case by (auto simp: sys_ok_def)
qed simp

end

end
