(* ===== verification/SqlService.thy ===== *)
theory SqlService
  imports Interleaving
begin

text \<open>
  The service over the SQL stores: what a client can rely on over PostgreSQL, MySQL and SQLite, with
  failures of the connection, with requests that overlap and with statistics that are written late,
  and what it cannot.
\<close>

section \<open>Overlapping requests and late statistics\<close>

sublocale sql_dao \<subseteq> late: late_dao D sql_ok db_links safe next_job
  by unfold_locales (simp add: job_ok)

text \<open>A server that holds one link, for the witnesses.\<close>

definition one_row :: tables where
  "one_row = insert_row ''k'' ''http://h'' no_tables"

definition server_one :: "(nat \<Rightarrow> outcome) \<Rightarrow> sql_server" where
  "server_one b = \<lparr>contents = one_row, behaviour = b, dup_text = ''UNIQUE constraint failed: short_urls.url'',
     server_time = clock0\<rparr>"

definition sql_one :: "(nat \<Rightarrow> outcome) \<Rightarrow> sqldb" where
  "sql_one b = connect ''closed'' (server_one b)"

lemma one_row_ok: "wf_tables one_row" "sql_links one_row = [''k'' \<mapsto> ''http://h'']" "hits_fit one_row"
proof -
  have "find_abv no_tables a = None" "find_url no_tables a = None" for a
    by (simp_all add: find_abv_None find_url_None no_tables_def)
  from insert_row_ok [OF wf_no_tables this, of "''k''" "''http://h''"]
  show "wf_tables one_row" "sql_links one_row = [''k'' \<mapsto> ''http://h'']" by (simp_all add: one_row_def)
  show "hits_fit one_row" by (simp add: one_row_def hits_fit_def insert_row_def no_tables_def)
qed

lemma sql_one_simps [simp]:
  "db_links (sql_one b) = [''k'' \<mapsto> ''http://h'']" "tabs (sql_one b) = one_row" "jobs (sql_one b) = []"
  using one_row_ok(2) by (simp_all add: db_links_def sql_one_def server_one_def connect_def)

lemma sql_one_ok:
  "\<not> is_dup ''closed'' \<Longrightarrow> (\<And>n m. b n = Lost m \<or> b n = AckLost m \<Longrightarrow> \<not> is_dup m) \<Longrightarrow> store_ok is_dup wf_tables (sql_one b)"
  using one_row_ok(1) by (auto simp: store_ok_def plain_def sql_one_def server_one_def connect_def)

lemma sql_one_works:
  "\<not> is_dup ''closed'' \<Longrightarrow> store_works is_dup wf_tables (sql_one (\<lambda>_. Runs))"
  using one_row_ok sql_one_ok [of is_dup "\<lambda>_. Runs"]
  by (simp add: store_works_def quiet_def) (simp add: sql_one_def server_one_def connect_def)

text \<open>
  C6. Over PostgreSQL, with requests that overlap in any way, with statistics written at any later
  time and with any pattern of lost statements and lost answers, a stored link is neither lost nor
  taken over by another URL until its deletion is called for: a look-up answers its URL or an error.
\<close>

theorem pg_links_stay:
  assumes "late_run env postgres_dao pg_job ls st st'" "sys_ok (store_ok pg_dup wf_tables) st"
    and "Now (Call (CDeleteAbv b)) \<notin> set ls" "db_links (db (snd st)) b = Some w"
  shows "db_links (db (snd st')) b = Some w \<and>
    (\<exists>e. fst (pg_GetUrl (db (snd st')) b) = (if e = None then w else '''', e))"
proof -
  from pg.late.late_stable [OF assms(1,2) TrueI assms(3,4)]
  have ok: "store_ok pg_dup wf_tables (db (snd st'))" and l: "db_links (db (snd st')) b = Some w"
    by (simp_all add: sys_ok_def)
  obtain v e d where g: "pg_GetUrl (db (snd st')) b = ((v, e), d)" by (metis prod.exhaust)
  with pg.faulty.getUrl [OF ok, of b v e d] l show ?thesis by auto

qed

theorem pg_links_stay_witness:
  "\<exists>st' :: (sqldb, days) sys. late_run noenv postgres_dao pg_job [Now (Call (CGetUrl ''k'')), Late 0]
      ([], over (sql_one (\<lambda>n. if n = 1 then AckLost ''timeout'' else Runs))) st' \<and>
    db_links (db (snd st')) ''k'' = Some ''http://h'' \<and>
    (\<exists>e. fst (pg_GetUrl (db (snd st')) ''k'') = (if e = None then ''http://h'' else '''', e))"
proof -
  let ?b = "\<lambda>n. if n = 1 then AckLost ''timeout'' else Runs"
  let ?h = "(over (sql_one ?b))\<lparr>db := dao_step postgres_dao (sql_one ?b) (CGetUrl ''k'')\<rparr>"
  let ?st = "([], ?h\<lparr>db := pg_job 0 (db ?h)\<rparr>) :: (sqldb, days) sys"
  have run: "late_run noenv postgres_dao pg_job [Now (Call (CGetUrl ''k'')), Late 0] ([], over (sql_one ?b)) ?st"
    by (rule late_now [OF other [of "CGetUrl ''k''"]]) (simp, simp, rule late_job, simp add: late_stop)
  have "\<not> pg_dup ''closed''" "\<not> pg_dup ''timeout''" by (simp_all add: pg_dup_def)
  then have "store_ok pg_dup wf_tables (sql_one ?b)" by (intro sql_one_ok) (auto split: if_splits)
  then have "sys_ok (store_ok pg_dup wf_tables) ([], over (sql_one ?b))" by (simp add: sys_ok_def)
  from pg_links_stay [OF run this, of "''k''" "''http://h''"] run show ?thesis
    by (intro exI [of _ ?st]) simp
qed


section \<open>A link that is confirmed\<close>

text \<open>
  Over SQLite, on a file that works, a link the service has confirmed keeps redirecting to the URL
  of its request, whatever requests come after, until somebody asks for its deletion.
\<close>

theorem lite_confirmed_resolves:
  assumes "store_works lite_dup wf_tables (db h)" "1 \<le> keySize (gener h)"
    and "serve env W sqlite_dao req h = Some ((JSONResp 200 (JUrl ret), hs), h1)"
    and "serve_all env W sqlite_dao after h1 = Some (rs, h2)"
    and "\<forall>req' \<in> set after. \<not> deletes (Abv ret) req'"
  shows "\<exists>u. read_url W (Body req) = Inr u \<and> fst (getHandler sqlite_dao (Abv ret) h2) = RedirectResp 302 u"
  using lite.working.confirmed_resolves [OF assms(1,2) has_room_True assms(3-5)] .

theorem lite_confirmed_resolves_witness:
  "\<exists>h1. serve noenv web0 sqlite_dao (add0 ''http://x'') (over (sql_one (\<lambda>_. Runs)))
      = Some ((JSONResp 200 (JUrl (createReturn ''0'')), [(''x-instance-uuid'', ''id'')]), h1) \<and>
    fst (getHandler sqlite_dao ''0'' h1) = RedirectResp 302 ''http://x''"
proof -
  have w: "store_works lite_dup wf_tables (sql_one (\<lambda>_. Runs))" using sql_one_works [of lite_dup] by (simp add: lite_dup_def)
  obtain h1 where h1: "serve noenv web0 sqlite_dao (add0 ''http://x'') (over (sql_one (\<lambda>_. Runs)))
      = Some ((JSONResp 200 (JUrl (createReturn ''0'')), [(''x-instance-uuid'', ''id'')]), h1)"
    by (rule lite.working.zero_serve [OF w, of "''http://x''"]) simp_all
  have "\<exists>u. read_url (web0 :: days web_lib) (Body (add0 ''http://x'')) = Inr u \<and>
      fst (getHandler sqlite_dao (Abv (createReturn ''0'')) h1) = RedirectResp 302 u"
    by (rule lite_confirmed_resolves [OF _ _ h1, of "[]" "[]"]) (simp_all add: w)
  with h1 show ?thesis by (simp add: read_url_def web0_def createReturn_def)
qed

text \<open>
  C17. Over MySQL with a binary collation the same holds as long as no URL has more than 255 characters
  and keySize has not passed 50, the width of the column.
\<close>

theorem mysql_confirmed_resolves:
  assumes "store_works my_dup my_good (db h)" "1 \<le> keySize (gener h)"
    and "serve env W (mysql_dao binary) req h = Some ((JSONResp 200 (JUrl ret), hs), h1)"
    and "serve_all env W (mysql_dao binary) after h1 = Some (rs, h2)"
    and "\<forall>req' \<in> set after. \<not> deletes (Abv ret) req'"
    and "keySize (gener h2) \<le> 50" "\<forall>req' \<in> set (req # after). \<forall>u. read_url W (Body req') = Inr u \<longrightarrow> length u \<le> 255"
  shows "\<exists>u. read_url W (Body req) = Inr u \<and> fst (getHandler (mysql_dao binary) (Abv ret) h2) = RedirectResp 302 u"
proof (rule my.working.confirmed_resolves [OF assms(1,2) _ assms(3-5)])
  fix c assume "c \<in> insert req (set after)"
  with assms(7) have "read_url W (Body c) = Inr u \<Longrightarrow> length u \<le> 255" for u by auto
  then show "has_room my_fits W (keySize (gener h2)) c"
    using assms(6) by (auto simp: has_room_def my_fits_def)
qed

theorem mysql_confirmed_resolves_witness:
  "\<exists>h1. serve noenv web0 (mysql_dao binary) (add0 ''http://x'') (over (sql_one (\<lambda>_. Runs)))
      = Some ((JSONResp 200 (JUrl (createReturn ''0'')), [(''x-instance-uuid'', ''id'')]), h1) \<and>
    fst (getHandler (mysql_dao binary) ''0'' h1) = RedirectResp 302 ''http://x''"
proof -
  have "my_good one_row"
    using one_row_ok(1) by (auto simp: my_good_def one_row_def insert_row_def no_tables_def my_fits_def)
  moreover have "store_works my_dup wf_tables (sql_one (\<lambda>_. Runs))" by (rule sql_one_works) (simp add: my_dup_def)
  ultimately have w: "store_works my_dup my_good (sql_one (\<lambda>_. Runs))" by (simp add: store_works_def store_ok_def)
  obtain h1 where h1: "serve noenv web0 (mysql_dao binary) (add0 ''http://x'') (over (sql_one (\<lambda>_. Runs)))
      = Some ((JSONResp 200 (JUrl (createReturn ''0'')), [(''x-instance-uuid'', ''id'')]), h1)" "keySize (gener h1) = 1"
    by (rule my.working.zero_serve [OF w, of "''http://x''"]) (simp_all add: my_fits_def)
  have "\<exists>u. read_url (web0 :: days web_lib) (Body (add0 ''http://x'')) = Inr u \<and>
      fst (getHandler (mysql_dao binary) (Abv (createReturn ''0'')) h1) = RedirectResp 302 u"
    by (rule mysql_confirmed_resolves [OF _ _ h1(1), of "[]" "[]"]) (simp_all add: w h1(2) read_url_def web0_def)
  with h1 show ?thesis by (simp add: read_url_def web0_def createReturn_def)
qed

text \<open>
  C15. Over SQLite, on a file that works, a valid request to shorten a URL is always answered with 200 and
  an abbreviation that leads to the URL, the other links left alone; and with the same one when asked
  again.
\<close>

theorem lite_add_succeeds:
  assumes "store_works lite_dup wf_tables (db h)" "1 \<le> keySize (gener h)"
    and "generator_live env (draws (src (gener h)))" "read_url W body = Inr u"
  shows "\<exists>a h'. addHandler env W sqlite_dao body h = Some (JSONResp 200 (JUrl (createReturn a)), h') \<and>
    db_links (db h') = (db_links (db h))(a \<mapsto> u) \<and>
    (db_links (db h) a = None \<or> db_links (db h) a = Some u) \<and>
    (\<exists>h''. addHandler env W sqlite_dao body h' = Some (JSONResp 200 (JUrl (createReturn a)), h''))"
proof -
  obtain r h' where r: "addHandler env W sqlite_dao body h = Some (r, h')"
    using lite.working.add_total [OF assms db_links_finite] .
  from lite.working.add_answered [OF assms(1,2,4) r TrueI] r show ?thesis by blast
qed

theorem lite_add_succeeds_witness:
  "\<exists>a h'. addHandler noenv web0 sqlite_dao ''http://x'' (over (sql_one (\<lambda>_. Runs))) = Some (JSONResp 200 (JUrl (createReturn a)), h') \<and>
    db_links (db h') = [''k'' \<mapsto> ''http://h'', a \<mapsto> ''http://x''] \<and> a \<noteq> ''k''"
proof -
  have "store_works lite_dup wf_tables (db (over (sql_one (\<lambda>_. Runs))))"
    using sql_one_works [of lite_dup] by (simp add: lite_dup_def)
  from lite_add_succeeds [OF this, of noenv web0 "''http://x''" "''http://x''"]
  show ?thesis by (auto simp: zeros_def generator_live_zeros read_url_def web0_def split: if_splits)
qed


section \<open>A restart\<close>

text \<open>
  C16. What a store held comes back: a PostgreSQL store opened on the tables that another left behind
  answers each of its links with its URL, whatever was lost on the way, and each URL with its
  abbreviation.
\<close>

theorem pg_restart:
  assumes "store_ok pg_dup wf_tables d" "CreatePostgresDB env ParseConfig NewWithConfig connString = Inr d'"
    and "\<And>config n s. NewWithConfig config n = Inr s \<Longrightarrow> contents s = tabs d \<and> (\<forall>k. behaviour s k = Runs)"
    and "db_links d a = Some u"
  shows "fst (pg_GetUrl d' a) = (u, None) \<and> fst (pg_GetAbv d' u) = (a, None)"
proof -
  obtain config server where n: "NewWithConfig config (of_int (IntOrDefault env ''postgres_max_conns'' 10)) = Inr server"
    and k: "kept (connect ''closed pool'' server) d'" using pg_opened [OF assms(2)] .
  have s: "contents server = tabs d" "\<And>k. behaviour server k = Runs" using assms(3) [OF n] by simp_all
  have l: "db_links d' a = Some u" "wf_tables (tabs d')" "quiet d'"
    using k s assms(1,4) by (auto simp: kept_def same_conn_def connect_def db_links_def store_ok_def quiet_def)
  have "db_links d' b = Some u \<Longrightarrow> b = a" for b
    using sql_links_inj [OF l(2)] l(1) by (simp add: db_links_def)
  obtain v e d1 where g: "std_GetUrl d' a = ((v, e), d1)" by (metis prod.exhaust)
  obtain b e' d2 where r: "std_GetAbv d' u = ((b, e'), d2)" by (metis prod.exhaust)
  have "v = u" "e = None" using std_GetUrl_law [OF g] l(1,3) by simp_all
  moreover have "e' = None" "b = a"
    using std_GetAbv_law [OF l(2) r] l(1,3) \<open>db_links d' b = Some u \<Longrightarrow> b = a\<close> by (auto simp: ran_def split: if_splits)
  ultimately show ?thesis by (simp add: pg_std g r)
qed

theorem pg_restart_witness:
  "\<exists>d'. CreatePostgresDB noenv Inr (\<lambda>_ _. Inr (server_one (\<lambda>_. Runs))) ''postgres://h'' = Inr d' \<and>
     fst (pg_GetUrl d' ''k'') = (''http://h'', None) \<and> fst (pg_GetAbv d' ''http://h'') = (''k'', None)"
proof -
  obtain d' where d': "CreatePostgresDB noenv Inr (\<lambda>_ _. Inr (server_one (\<lambda>_. Runs))) ''postgres://h'' = Inr d'"
    by (simp add: CreatePostgresDB_def)
  have "store_ok pg_dup wf_tables (sql_one (\<lambda>_. Lost ''down''))" by (rule sql_one_ok) (simp_all add: pg_dup_def)
  from pg_restart [OF this d', of "''k''" "''http://h''"] d' show ?thesis by (simp add: server_one_def)
qed

section \<open>What can go wrong\<close>

text \<open>
  Two requests for the same URL at the same time. Both find it unknown and both find their words
  free; the second \<open>INSERT\<close> violates the uniqueness of the URL, which \<open>Save\<close> takes for success.
\<close>

definition lite_race_start :: "string \<Rightarrow> (sqldb, days) sys" where
  "lite_race_start u =
     ([Lookup u, Lookup u],
      (over (sql_one (\<lambda>_. Runs)))\<lparr>gener := \<lparr>keySize = 1, src = \<lparr>draws = (\<lambda>i. if i = 0 then 26 else 27), pos = 0\<rparr>\<rparr>\<rparr>)"

text \<open>
  C24. Two requests for the same new URL at the same time can both be confirmed by the service over
  SQLite, each with an abbreviation of its own, of which only the first is stored: the second leads
  to 404.
\<close>

theorem lite_race:
  assumes "u \<noteq> ''''" "u \<noteq> ''http://h''"
  shows "\<exists>h. sys_run env sqlite_dao (map Thread [0, 1, 0, 1, 0, 1, 0, 1]) (lite_race_start u)
       ([Done (JSONResp 200 (JUrl (createReturn ''0''))), Done (JSONResp 200 (JUrl (createReturn ''1'')))], h) \<and>
    db_links (db h) = [''k'' \<mapsto> ''http://h'', ''0'' \<mapsto> u] \<and>
    fst (getHandler sqlite_dao ''1'' h) = StringResp 404 ''No link found''"
proof -
  have chars: "chars ! 26 = CHR ''0''" "chars ! 27 = CHR ''1''" by (simp_all add: chars_def)
  show ?thesis
    unfolding run_schedule_iff [symmetric] using assms chars
    by (simp add: lite_race_start_def sql_one_def connect_def server_one_def one_row_def no_tables_def insert_row_def
        lite_GetAbv_def lite_GetUrl_def lite_Save_def statement_def select_url_def select_abv_def find_url_def find_abv_def
        randString_short draw_eq word_at_def lite_insert_def getHandler_def db_links_def sql_links_def fun_eq_iff Let_def)
qed


theorem lite_race_witness:
  "\<exists>h. sys_run noenv sqlite_dao (map Thread [0, 1, 0, 1, 0, 1, 0, 1]) (lite_race_start ''http://x'')
       ([Done (JSONResp 200 (JUrl (createReturn ''0''))), Done (JSONResp 200 (JUrl (createReturn ''1'')))], h) \<and>
    fst (getHandler sqlite_dao ''1'' h) = StringResp 404 ''No link found''"
  using lite_race [of "''http://x''" noenv] by auto



text \<open>
  C30. Over MySQL with a collation under which two different URLs are equal, as two that differ in the case
  of their paths are under the default one, the request for the second is confirmed with the
  abbreviation of the first, and redirects to the first.
\<close>

theorem mysql_collation_mixes:
  assumes "quiet (db h)" "read_url W body = Inr u" "my_find_url coll (tabs (db h)) u = Some r"
    and "my_find_abv coll (tabs (db h)) (r_abv r) = Some r" "r_abv r \<noteq> ''''" "r_url r \<noteq> ''''"
  shows "\<exists>h'. addHandler env W (mysql_dao coll) body h = Some (JSONResp 200 (JUrl (createReturn (r_abv r))), h') \<and>
    fst (getHandler (mysql_dao coll) (r_abv r) h') = RedirectResp 302 (r_url r)"
proof -
  let ?d1 = "(db h)\<lparr>sent := Suc (sent (db h)), tabs := tabs (db h)\<rparr>"
  have "quiet ?d1" using assms(1) by (simp add: quiet_def)
  then have "fst (statement (my_select_abv coll (r_abv r)) ?d1) = Inr (Some r)"
    using assms(4) by (subst statement_quiet) (simp_all add: my_select_abv_def)
  then have g: "fst (my_GetUrl coll ?d1 (r_abv r)) = (r_url r, None)" by (simp add: my_GetUrl_def split_beta)
  have "statement (my_select_url coll u) (db h) = (Inr (Some r), ?d1)"
    using statement_quiet [OF assms(1), of "my_select_url coll u"] assms(3) by (simp add: my_select_url_def)
  then have "my_GetAbv coll (db h) u = ((r_abv r, None), ?d1)" by (simp add: my_GetAbv_def)
  with assms(2,5) have "addHandler env W (mysql_dao coll) body h
      = Some (JSONResp 200 (JUrl (createReturn (r_abv r))), (count_new h)\<lparr>db := ?d1\<rparr>)"
    by (simp add: addHandler_def)
  moreover have "fst (getHandler (mysql_dao coll) (r_abv r) ((count_new h)\<lparr>db := ?d1\<rparr>)) = RedirectResp 302 (r_url r)"
    using g assms(6) by (simp add: getHandler_def split_beta Let_def)
  ultimately show ?thesis by blast
qed

text \<open>A collation that does not tell the case of the letter \<open>H\<close>.\<close>

definition no_case :: "string \<Rightarrow> string" where
  "no_case = map (\<lambda>c. if c = CHR ''H'' then CHR ''h'' else c)"

theorem mysql_collation_mixes_witness:
  "\<exists>h'. addHandler noenv web0 (mysql_dao no_case) ''http://H'' (over (sql_one (\<lambda>_. Runs)))
      = Some (JSONResp 200 (JUrl (createReturn ''k'')), h') \<and>
    fst (getHandler (mysql_dao no_case) ''k'' h') = RedirectResp 302 ''http://h''"
proof -
  let ?r = "\<lparr>r_id = 1, r_abv = ''k'', r_url = ''http://h'', r_hits = 0, r_last = None\<rparr>"
  have "quiet (sql_one (\<lambda>_. Runs))" by (simp add: quiet_def sql_one_def connect_def server_one_def)
  then show ?thesis
    using mysql_collation_mixes [of "over (sql_one (\<lambda>_. Runs))" web0 "''http://H''" "''http://H''" no_case ?r noenv]
    by (simp add: read_url_def web0_def one_row_def insert_row_def no_tables_def my_find_url_def my_find_abv_def no_case_def)
qed

end
