(* ===== verification/SqlHits.thy ===== *)
theory SqlHits
  imports SqlService
begin

text \<open>
  What the SQL stores report of a link's hits, once the goroutines of its look-ups are done, and the
  bounds of the counts.
\<close>

section \<open>The days of a report\<close>

lemma day_map_snoc: "day_map (ds @ [d]) = (day_map ds)(d_date d \<mapsto> d_hits d)"
  by (simp add: day_map_def)

lemma day_map_dom: "dom (day_map ds) = d_date ` set ds"
proof (induction ds rule: rev_induct)
  case (snoc d ds)
  have "dom (day_map (ds @ [d])) = insert (d_date d) (dom (day_map ds))"
    unfolding day_map_snoc dom_fun_upd by simp
  with snoc show ?case by simp
qed (simp add: day_map_def)

lemma day_map_sum:
  assumes "distinct (map d_date ds)"
  shows "(\<Sum>x \<in> dom (day_map ds). the (day_map ds x)) = sum_list (map d_hits ds)"
  using assms
proof (induction ds rule: rev_induct)
  case (snoc d ds)
  let ?m = "day_map (ds @ [d])"
  have new: "d_date d \<notin> dom (day_map ds)" using snoc.prems by (auto simp: day_map_dom)
  have "(\<Sum>x \<in> dom ?m. the (?m x)) = the (?m (d_date d)) + (\<Sum>x \<in> dom (day_map ds). the (?m x))"
    using new by (simp add: day_map_snoc day_map_dom)
  also have "(\<Sum>x \<in> dom (day_map ds). the (?m x)) = (\<Sum>x \<in> dom (day_map ds). the (day_map ds x))"
    using new by (intro sum.cong) (auto simp: day_map_snoc)
  finally show ?case using snoc by (simp add: day_map_snoc)
qed (simp add: day_map_def)

lemma days_distinct:
  assumes "wf_tables t" shows "distinct (map d_date (filter (\<lambda>d. d_sid d = i) (day_rows t)))"
proof -
  have "distinct (map (\<lambda>d. (d_sid d, d_date d)) (filter (\<lambda>d. d_sid d = i) (day_rows t)))"
    using assms by (simp add: wf_tables_def distinct_map_filter)
  then show ?thesis by (auto simp: distinct_map inj_on_def)
qed

lemma std_GetStats_report:
  assumes "quiet d" "find_abv (tabs d) a = Some r" "0 \<le> r_hits r" "r_hits r < 2 ^ 31"
  shows "\<exists>st. fst (std_GetStats d a) = (st, None) \<and> Abbreviation st = r_abv r \<and> Url st = r_url r \<and>
    sint (Hits st) = r_hits r \<and> DailyHits st = Some (day_map (filter (\<lambda>x. d_sid x = r_id r) (day_rows (tabs d))))"
proof -
  have q: "quiet (d\<lparr>sent := n\<rparr>)" for n using assms(1) by (simp add: quiet_def)
  have "sint (of_int (r_hits r) :: 32 word) = r_hits r"
    using assms(3,4) by (simp add: int_word_sint)
  then show ?thesis
    using assms(2) scan_fits [OF assms(3,4)] statement_quiet [OF assms(1), of "select_abv a"]
      statement_quiet [OF q, of "select_days (r_id r)"]
    by (simp add: std_GetStats_def select_abv_def select_days_def Let_def)
qed

context sql_dao
begin

text \<open>Over any run that does not delete the link, when no goroutine is left.\<close>

lemma hits_reported:
  assumes "quiet d" "stats_ok mx d" "jobs d = []" "list_all (good_event safe) es" "r \<in> set (rows (tabs d))"
    and "Dao (CDeleteAbv (r_abv r)) \<notin> set es" "Dao (CDeleteUrl (r_url r)) \<notin> set es"
    and "n = r_hits r + int (count_list es (Dao (CGetUrl (r_abv r))))" "n < mx" "n < 2 ^ 31"
    and "d' = fold (sql_step D next_job) es d" "jobs d' = []"
  shows "\<exists>st days. fst (GetStats D d' (r_abv r)) = (st, None) \<and> Url st = r_url r \<and> sint (Hits st) = n \<and>
    DailyHits st = Some days \<and> (\<Sum>x \<in> dom days. the (days x)) = n"
proof -
  have p: "promised d r = r_hits r" using assms(3) by (simp add: promised_def)
  obtain r' where r': "follows r d d' (int (count_list es (Dao (CGetUrl (r_abv r))))) r'"
    using stats.every_hit_counts [OF assms(1,2,4-7)] p assms(8,9,11) by auto
  then have f: "r' \<in> set (rows (tabs d'))" "r_abv r' = r_abv r" "r_url r' = r_url r" "r_hits r' = n"
    using p assms(8,12) by (simp_all add: follows_def promised_def)
  have ok: "quiet d'" "stats_ok mx d'" using stats.stats_ok_run [OF assms(1,2,4)] assms(11) by simp_all
  then have wf: "wf_tables (tabs d')" and "0 \<le> r_hits r'" using f(1) by (auto simp: stats_ok_def in_balance_def)
  have fa: "find_abv (tabs d') (r_abv r) = Some r'" using find_abvI [OF wf f(1)] f(2) by simp
  have "n = days_total (tabs d') (r_id r')"
    using stats.settled [OF assms(1,2,4)] assms(9,11,12) f by auto
  then have "(\<Sum>x \<in> dom (day_map (filter (\<lambda>d. d_sid d = r_id r') (day_rows (tabs d')))).
      the (day_map (filter (\<lambda>d. d_sid d = r_id r') (day_rows (tabs d'))) x)) = n"
    unfolding day_map_sum [OF days_distinct [OF wf, of "r_id r'"]] by (simp add: days_total_def)
  with std_GetStats_report [OF ok(1) fa \<open>0 \<le> r_hits r'\<close>] f assms(10) show ?thesis by (auto simp: getStats_std)
qed

end

text \<open>
  C20. Over SQLite, on a file that works: whatever calls are made and whenever the goroutines of the
  look-ups run, once none is left the hits reported of a link are those it had and one for each
  look-up since, and its daily hits add up to the same number (below the 32 bits of the field).
\<close>

theorem lite_hits_reported:
  assumes "quiet d" "stats_ok lite_maxint d" "jobs d = []" "list_all (good_event (\<lambda>_ _. True)) es"
    and "r \<in> set (rows (tabs d))" "Dao (CDeleteAbv (r_abv r)) \<notin> set es" "Dao (CDeleteUrl (r_url r)) \<notin> set es"
    and "n = r_hits r + int (count_list es (Dao (CGetUrl (r_abv r))))" "n < 2 ^ 31"
    and "d' = fold (sql_step sqlite_dao lite_job) es d" "jobs d' = []"
  shows "\<exists>st days. fst (lite_GetStats d' (r_abv r)) = (st, None) \<and> Url st = r_url r \<and> sint (Hits st) = n \<and>
    DailyHits st = Some days \<and> (\<Sum>x \<in> dom days. the (days x)) = n"
proof -
  have "n < lite_maxint" using assms(9) by (simp add: lite_maxint_def)
  from lite.hits_reported [OF assms(1-8) this assms(9-11)] show ?thesis by simp
qed


lemma sql_one_stats: "0 \<le> mx \<Longrightarrow> stats_ok mx (sql_one b)"
  using one_row_ok(1)
  by (simp add: stats_ok_def in_balance_def days_total_def) (simp add: one_row_def insert_row_def no_tables_def)

lemma sql_one_quiet: "quiet (sql_one (\<lambda>_. Runs))"
  by (simp add: quiet_def sql_one_def connect_def server_one_def)

text \<open>A look-up and its goroutine, for the witness.\<close>

theorem lite_hits_reported_witness:
  "\<exists>st days. fst (lite_GetStats (lite_job 0 (snd (lite_GetUrl (sql_one (\<lambda>_. Runs)) ''k''))) ''k'') = (st, None) \<and>
     sint (Hits st) = 1 \<and> DailyHits st = Some days \<and> (\<Sum>x \<in> dom days. the (days x)) = 1"
proof -
  let ?d = "sql_one (\<lambda>_. Runs)" and ?r = "\<lparr>r_id = 1, r_abv = ''k'', r_url = ''http://h'', r_hits = 0, r_last = None\<rparr>"
  let ?es = "[Dao (CGetUrl ''k''), Job 0]"
  have "jobs (fold (sql_step sqlite_dao lite_job) ?es ?d) = []"
    by (simp add: lite_GetUrl_def statement_quiet [OF sql_one_quiet] select_abv_def find_abv_def one_row_def insert_row_def
        no_tables_def lite_job_def run_job_def Let_def time_Now_def)
  moreover have "?r \<in> set (rows (tabs ?d))" by (simp add: one_row_def insert_row_def no_tables_def)
  moreover have "stats_ok lite_maxint ?d" by (rule sql_one_stats) (simp add: lite_maxint_def)
  ultimately show ?thesis
    using lite_hits_reported [OF sql_one_quiet _ _ _ _ _ _ refl _ refl, of ?es ?r] by simp blast
qed

text \<open>
  C21. Over PostgreSQL, on a connection that works, no sequence of calls and of late statistics takes a hit
  count out of the range of the field Hits: the statistics of every link can be read, and show the
  count without wrap-around.
\<close>

theorem pg_hits_bounded:
  assumes "quiet d" "stats_ok pg_maxint d" "list_all (good_event (\<lambda>_ _. True)) es"
    and "d' = fold (sql_step postgres_dao pg_job) es d" "r \<in> set (rows (tabs d'))"
  shows "0 \<le> r_hits r \<and> r_hits r < 2 ^ 31 \<and>
    (\<exists>st. fst (pg_GetStats d' (r_abv r)) = (st, None) \<and> sint (Hits st) = r_hits r)"
proof -
  have ok: "quiet d'" "stats_ok pg_maxint d'" using pg.stats.stats_ok_run [OF assms(1-3)] assms(4) by simp_all
  then have r: "0 \<le> r_hits r" "r_hits r < 2 ^ 31" and wf: "wf_tables (tabs d')"
    using assms(5) by (auto simp: stats_ok_def in_balance_def pg_maxint_def)
  from std_GetStats_report [OF ok(1) find_abvI [OF wf assms(5)] r] r show ?thesis by (auto simp: pg_std)
qed

theorem pg_hits_bounded_witness:
  "\<exists>st. fst (pg_GetStats (pg_job 0 (snd (pg_GetUrl (sql_one (\<lambda>_. Runs)) ''k''))) ''k'') = (st, None) \<and> sint (Hits st) = 1"
proof -
  let ?d = "pg_job 0 (snd (pg_GetUrl (sql_one (\<lambda>_. Runs)) ''k''))"
  let ?r = "\<lparr>r_id = 1, r_abv = ''k'', r_url = ''http://h'', r_hits = 1, r_last = Some zero_time\<rparr>"
  have "?r \<in> set (rows (tabs ?d))"
    by (simp add: pg_GetUrl_def statement_def select_abv_def find_abv_def one_row_def insert_row_def no_tables_def
        pg_job_def run_job_def Let_def time_Now_def sql_one_def connect_def server_one_def clock0_def bump_row_def pg_maxint_def)
  moreover have "stats_ok pg_maxint (sql_one (\<lambda>_. Runs))" by (rule sql_one_stats) (simp add: pg_maxint_def)
  ultimately show ?thesis
    using pg_hits_bounded [OF sql_one_quiet _ _ refl, of "[Dao (CGetUrl ''k''), Job 0]" ?r] by simp
qed

text \<open>
  Over SQLite the hit that takes a count to 2 ^ 31 is stored, and from then on the statistics of the
  link are answered with an error.
\<close>

theorem lite_hits_overflow:
  assumes "quiet d" "wf_tables (tabs d)" "find_abv (tabs d) a = Some r" "r_hits r = 2 ^ 31 - 1" "jobs d = []"
  shows "fst (lite_GetStats (lite_job 0 (snd (lite_GetUrl d a))) a)
    = (zero_ShortUrl None, Some (''error getting stats for '' @ a @ '': value out of range''))"
proof -
  define d1 where "d1 = snd (lite_GetUrl d a)"
  define d2 where "d2 = run_job lite_maxint 0 d1"
  define d3 where "d3 = run_job lite_maxint 0 d2"
  have d1: "quiet d1" "tabs d1 = tabs d" "jobs d1 = [J_row (r_id r)]"
    using assms quiet_conn [OF std_connection(5)] std_reads(2) [of d a] std_quiet(4) [OF assms(1), of a]
    by (simp_all add: lite_std d1_def)
  have r: "r \<in> set (rows (tabs d))" "r_abv r = a" using find_abvD [OF assms(3)] by simp_all
  have uniq: "x = r" if "x \<in> set (rows (tabs d))" "r_id x = r_id r" for x
    using that r assms(2) by (auto simp: wf_tables_def distinct_map dest: inj_onD)
  have fit: "\<not> (\<exists>x \<in> set (rows (tabs d)). r_id x = r_id r \<and> lite_maxint < r_hits x + 1)"
  proof
    assume "\<exists>x \<in> set (rows (tabs d)). r_id x = r_id r \<and> lite_maxint < r_hits x + 1"
    then obtain x where "x \<in> set (rows (tabs d))" "r_id x = r_id r" "lite_maxint < r_hits x + 1" by blast
    with uniq [of x] assms(4) show False by (simp add: lite_maxint_def)
  qed
  have "0 < length (jobs d1)" by (simp add: d1(3))
  with d1(1) have "\<exists>now. tabs d2 = snd (bump_row lite_maxint now (r_id r) (tabs d)) \<and> jobs d2 = [J_day (r_id r)]"
  proof (cases rule: run_job_quiet [where mx = lite_maxint])
    case (row i now)
    then have "i = r_id r" using d1(3) by simp
    with row(2,3) d1(2,3) show ?thesis by (intro exI [of _ now]) (simp add: d2_def)
  next
    case (day i date)
    with d1(3) show ?thesis by simp
  qed
  then obtain now where now: "tabs d2 = snd (bump_row lite_maxint now (r_id r) (tabs d))" and j2: "jobs d2 = [J_day (r_id r)]"
    by blast
  have q2: "quiet d2" unfolding d2_def by (rule quiet_run_job [OF d1(1)])
  have "rows (tabs d2) = map (\<lambda>x. if r_id x = r_id r then x\<lparr>r_hits := r_hits x + 1, r_last := Some now\<rparr> else x) (rows (tabs d))"
    unfolding now bump_row_def if_not_P [OF fit] by simp
  then have r2: "r\<lparr>r_hits := 2 ^ 31, r_last := Some now\<rparr> \<in> set (rows (tabs d2))" using r(1) assms(4) by force
  have "0 < length (jobs d2)" by (simp add: j2)
  with q2 have "rows (tabs d3) = rows (tabs d2)"
  proof (cases rule: run_job_quiet [where mx = lite_maxint])
    case (row i now)
    with j2 show ?thesis by simp
  next
    case (day i date)
    then show ?thesis by (simp add: d3_def bump_day_def)
  qed
  moreover have "wf_tables (tabs d3)"
    unfolding d3_def d2_def by (intro run_job_ok(1)) (simp add: d1(2) assms(2))
  ultimately have f: "find_abv (tabs d3) a = Some (r\<lparr>r_hits := 2 ^ 31, r_last := Some now\<rparr>)"
    using find_abvI [of "tabs d3" "r\<lparr>r_hits := 2 ^ 31, r_last := Some now\<rparr>"] r(2) r2 by simp
  have q3: "quiet d3" unfolding d3_def by (rule quiet_run_job [OF q2])
  have "fst (lite_GetStats d3 a) = (zero_ShortUrl None, Some (''error getting stats for '' @ a @ '': value out of range''))"
    using f statement_quiet [OF q3, of "select_abv a"] by (simp add: lite_GetStats_def select_abv_def scan_int32_def)
  then show ?thesis by (simp add: lite_job_def d3_def d2_def d1_def)
qed

theorem lite_hits_overflow_witness:
  "fst (lite_GetStats (lite_job 0 (snd (lite_GetUrl ((sql_one (\<lambda>_. Runs))\<lparr>tabs := one_row\<lparr>rows :=
       [\<lparr>r_id = 1, r_abv = ''k'', r_url = ''http://h'', r_hits = 2147483647, r_last = None\<rparr>]\<rparr>\<rparr>) ''k''))) ''k'')
    = (zero_ShortUrl None, Some ''error getting stats for k: value out of range'')"
proof -
  let ?r = "\<lparr>r_id = 1, r_abv = ''k'', r_url = ''http://h'', r_hits = 2147483647, r_last = None\<rparr>"
  let ?d = "(sql_one (\<lambda>_. Runs))\<lparr>tabs := one_row\<lparr>rows := [?r]\<rparr>\<rparr>"
  have "quiet ?d" using sql_one_quiet by (simp add: quiet_def)
  moreover have "wf_tables (tabs ?d)" by (simp add: wf_tables_def one_row_def insert_row_def no_tables_def)
  moreover have "find_abv (tabs ?d) ''k'' = Some ?r" by (simp add: find_abv_def)
  ultimately show ?thesis using lite_hits_overflow [of ?d "''k''" ?r] by simp
qed

end
