(* ===== verification/RedisService.thy ===== *)
theory RedisService
  imports Interleaving
begin

text \<open>
  The service over the Redis store: what a client can rely on while the connection works, what its
  statistics report, and what overlapping saves and hits written after a deletion do.
\<close>

text \<open>A server that holds one link, for the witnesses.\<close>

definition one_key :: keys where
  "one_key = saved ''k'' ''http://h'' Map.empty"

definition redis_one :: "(nat \<Rightarrow> outcome) \<Rightarrow> redisdb" where
  "redis_one b = rd_connect \<lparr>held = one_key, manner = b, host_clock = clock0\<rparr>"

lemma wf_no_keys: "wf_keys Map.empty"
  by (simp add: wf_keys_def key_links_def)

lemma one_key_ok: "wf_keys one_key" "key_links one_key = [''k'' \<mapsto> ''http://h'']"
proof -
  have "key_links Map.empty = Map.empty" by (simp add: key_links_def fun_eq_iff)
  then show "wf_keys one_key" "key_links one_key = [''k'' \<mapsto> ''http://h'']"
    using wf_saved [OF wf_no_keys, of "''k''" "''http://h''"] key_links_saved [OF wf_no_keys, of "''k''" "''http://h''"]
    by (simp_all add: one_key_def savable_def)
qed

lemma one_key_eq:
  "one_key = [abvKey ''k'' \<mapsto> RHash [''hits'' \<mapsto> ''0'', ''url'' \<mapsto> ''http://h''], urlKey ''http://h'' \<mapsto> RString ''k'']"
  by (simp add: one_key_def saved_def tx_def hset_def set_key_def)

lemma redis_one_simps [simp]:
  "tabs (redis_one b) = one_key" "rd_links (redis_one b) = [''k'' \<mapsto> ''http://h'']" "jobs (redis_one b) = []"
  "sclock (redis_one b) = clock0"
  by (simp_all add: redis_one_def rd_connect_def rd_links_def one_key_ok)

lemma redis_one_works: "rd_works (redis_one (\<lambda>_. Runs))"
  by (simp add: rd_works_def rd_ok_def one_key_ok quiet_def) (simp add: redis_one_def rd_connect_def)

section \<open>What holds\<close>

text \<open>
  Over Redis, while the connection works, a link the service has confirmed keeps redirecting to the
  URL of its request, whatever requests come after, until somebody asks for its deletion.
\<close>

theorem redis_confirmed_resolves:
  assumes "rd_works (db h)" "1 \<le> keySize (gener h)"
    and "serve env W redis_dao req h = Some ((JSONResp 200 (JUrl ret), hs), h1)"
    and "serve_all env W redis_dao after h1 = Some (rs, h2)"
    and "\<forall>req' \<in> set after. \<not> deletes (Abv ret) req'"
  shows "\<exists>u. read_url W (Body req) = Inr u \<and> fst (getHandler redis_dao (Abv ret) h2) = RedirectResp 302 u"
  using rdq.confirmed_resolves [OF assms(1,2) has_room_True assms(3-5)] .

theorem redis_confirmed_resolves_witness:
  "\<exists>h1. serve noenv web0 redis_dao (add0 ''http://x'') (over (redis_one (\<lambda>_. Runs)))
      = Some ((JSONResp 200 (JUrl (createReturn ''0'')), [(''x-instance-uuid'', ''id'')]), h1) \<and>
    fst (getHandler redis_dao ''0'' h1) = RedirectResp 302 ''http://x''"
proof -
  obtain h1 where h1: "serve noenv web0 redis_dao (add0 ''http://x'') (over (redis_one (\<lambda>_. Runs)))
      = Some ((JSONResp 200 (JUrl (createReturn ''0'')), [(''x-instance-uuid'', ''id'')]), h1)"
    by (rule rdq.zero_serve [OF redis_one_works, of "''http://x''"]) simp_all
  have "\<exists>u. read_url (web0 :: days web_lib) (Body (add0 ''http://x'')) = Inr u \<and>
      fst (getHandler redis_dao (Abv (createReturn ''0'')) h1) = RedirectResp 302 u"
    by (rule redis_confirmed_resolves [OF _ _ h1, of "[]" "[]"]) (simp_all add: redis_one_works)
  with h1 show ?thesis by (simp add: read_url_def web0_def createReturn_def)
qed

section \<open>The commands on a connection that works\<close>

lemma prefixes_apart [simp]: "dailyKeyPrefix \<noteq> abvKeyPrefix" "abvKeyPrefix \<noteq> dailyKeyPrefix"
  by (simp_all add: dailyKeyPrefix_def abvKeyPrefix_def)

lemma rd_quiet:
  "quiet d \<Longrightarrow> statement f d = (fst (f (tabs d)), d\<lparr>sent := Suc (sent d), tabs := snd (f (tabs d))\<rparr>)"
  by (rule statement_quiet)

text \<open>A pending goroutine alone: the transaction it sends.\<close>

definition hit_keys :: "string \<Rightarrow> string \<Rightarrow> gotime \<Rightarrow> keys \<Rightarrow> keys" where
  "hit_keys abv date now m =
     snd (exec [hincr (abvKey abv) ''hits'', hset (abvKey abv) [(''last_access'', format_RFC3339 now)],
                hincr (dailyKey abv) date] m)"

lemma rd_job_tabs:
  assumes "quiet d" "jobs d = [a]" "Date (sclock d) = (date, c1)" "time_Now c1 = (now, c2)"
  shows "tabs (rd_job 0 d) = hit_keys a date now (tabs d)" "quiet (rd_job 0 d)"
proof -
  let ?d = "d\<lparr>sclock := c2, jobs := []\<rparr>"
  let ?f = "tx [hincr (abvKey a) ''hits'', hset (abvKey a) [(''last_access'', format_RFC3339 now)], hincr (dailyKey a) date]"
  have q: "quiet ?d" using assms(1) by (simp add: quiet_def)
  have j: "rd_job 0 d = snd (statement ?f ?d)"
    using assms(2-4) by (simp add: rd_job_def del: time_Now_simps)
  have "snd (?f (tabs d)) = hit_keys a date now (tabs d)"
    by (simp only: tx_def hit_keys_def split_beta Let_def snd_conv)
  then show "tabs (rd_job 0 d) = hit_keys a date now (tabs d)"
    using statement_quiet [OF q, of ?f] by (simp add: j)
  show "quiet (rd_job 0 d)" using q by (simp add: j)
qed

text \<open>A number in a field of a hash, 0 when there is none.\<close>

definition holds :: "keys \<Rightarrow> string \<Rightarrow> string \<Rightarrow> int \<Rightarrow> bool" where
  "holds m k f n \<longleftrightarrow>
     (case m k of
        None \<Rightarrow> n = 0
      | Some (RHash h) \<Rightarrow> (case h f of None \<Rightarrow> n = 0 | Some s \<Rightarrow> s = show_int n)
      | Some (RString _) \<Rightarrow> False)"

definition hash_at :: "keys \<Rightarrow> string \<Rightarrow> string \<rightharpoonup> string" where
  "hash_at m k = (case m k of Some (RHash h) \<Rightarrow> h | _ \<Rightarrow> Map.empty)"

lemma redis_int_show: "- (2 ^ 63) \<le> n \<Longrightarrow> n < 2 ^ 63 \<Longrightarrow> redis_int (show_int n) = Some n"
  using ParseInt_show_int [of 64 n] by (simp add: redis_int_def)

lemma hincr_holds:
  assumes "holds m k f n" "0 \<le> n" "n < 2 ^ 63 - 1"
  shows "hincr k f m = (None, m(k \<mapsto> RHash ((hash_at m k)(f \<mapsto> show_int (n + 1)))))"
  using assms redis_int_show [of n]
  by (auto simp: holds_def hincr_def hash_at_def Let_def split: option.splits rvalue.splits)

lemma hset_hash:
  "m k = Some (RHash h) \<Longrightarrow> hset k fs m = (None, m(k \<mapsto> RHash (h ++ map_of fs)))"
  by (simp add: hset_def)

lemma hit_keys_holds:
  assumes "holds m (abvKey a) ''hits'' n" "0 \<le> n" "n < 2 ^ 63 - 1"
    and "holds m (dailyKey a) date k" "0 \<le> k" "k < 2 ^ 63 - 1"
  shows "hit_keys a date now m = m
    (abvKey a \<mapsto> RHash ((hash_at m (abvKey a))(''hits'' \<mapsto> show_int (n + 1), ''last_access'' \<mapsto> format_RFC3339 now)),
     dailyKey a \<mapsto> RHash ((hash_at m (dailyKey a))(date \<mapsto> show_int (k + 1))))"
proof -
  let ?m1 = "m(abvKey a \<mapsto> RHash ((hash_at m (abvKey a))(''hits'' \<mapsto> show_int (n + 1))))"
  let ?m2 = "?m1(abvKey a \<mapsto> RHash ((hash_at m (abvKey a))(''hits'' \<mapsto> show_int (n + 1), ''last_access'' \<mapsto> format_RFC3339 now)))"
  have d: "holds ?m2 (dailyKey a) date k" "hash_at ?m2 (dailyKey a) = hash_at m (dailyKey a)"
    using assms(4) by (simp_all add: holds_def hash_at_def)
  have "hset (abvKey a) [(''last_access'', format_RFC3339 now)] ?m1 = (None, ?m2)" by (simp add: hset_def)
  then show ?thesis
    using hincr_holds [OF assms(1-3)] hincr_holds [OF d(1) assms(5,6)] d(2)
    by (simp add: hit_keys_def)
qed


section \<open>Statistics\<close>

lemma format_nonempty: "format_RFC3339 t \<noteq> ''''"
  by (simp add: format_RFC3339_def format_datetime_def format_date_def)

lemma rd_GetStats_reads:
  assumes "quiet d" "tabs d (abvKey a) = Some (RHash h)" "tabs d (dailyKey a) = Some (RHash g)"
    and "h ''hits'' = Some (show_int n)" "h ''last_access'' = Some (format_RFC3339 t)" "- (2 ^ 31) \<le> n" "n < 2 ^ 31"
  shows "fst (rd_GetStats d a) =
    (\<lparr>Abbreviation = a, Url = (case h ''url'' of None \<Rightarrow> '''' | Some u \<Rightarrow> u), Hits = of_int n,
      LastAccess = (case parse_RFC3339 (format_RFC3339 t) of None \<Rightarrow> zero_time | Some t' \<Rightarrow> t'),
      DailyHits = Some (\<lambda>date. map_option (\<lambda>s. fst (Atoi s)) (g date))\<rparr>, None)"
proof -
  let ?d1 = "d\<lparr>sent := Suc (sent d), tabs := tabs d\<rparr>"
  have "h \<noteq> Map.empty" using assms(4) by auto
  moreover have "statement (hgetall (abvKey a)) d = (Inr h, ?d1)"
    using statement_quiet [OF assms(1), of "hgetall (abvKey a)"] assms(2) by (simp add: hgetall_def)
  moreover have q: "quiet ?d1" using assms(1) by (simp add: quiet_def)
  have "fst (statement (hgetall (dailyKey a)) ?d1) = Inr g"
    using statement_quiet [OF q, of "hgetall (dailyKey a)"] assms(3) by (simp add: hgetall_def)
  then obtain d2 where "statement (hgetall (dailyKey a)) ?d1 = (Inr g, d2)" by (metis prod.collapse)
  ultimately show ?thesis
    using assms(4-7) ParseInt_show_int [of 32 n] format_nonempty [of t]
    by (simp add: rd_GetStats_def)
qed

text \<open>
  C19. A look-up over Redis is counted once its goroutine has run: the statistics then report one hit more
  than before, in all and for the day, and the time of the access, read back from RFC 3339 to the second.
\<close>

theorem redis_hit_reported:
  assumes "rd_works d" "rd_links d a = Some u" "jobs d = []"
    and "Date (sclock d) = (date, c1)" "time_Now c1 = (now, c2)" "proper now"
    and "holds (tabs d) (abvKey a) ''hits'' n" "0 \<le> n" "n < 2 ^ 31 - 1"
    and "holds (tabs d) (dailyKey a) date k" "0 \<le> k" "k < 2 ^ 63 - 1"
  shows "\<exists>st daily. fst (rd_GetStats (rd_job 0 (snd (rd_GetUrl d a))) a) = (st, None) \<and>
    Abbreviation st = a \<and> Url st = u \<and> Hits st = of_int (n + 1) \<and> LastAccess st = now\<lparr>nsec := 0\<rparr> \<and>
    DailyHits st = Some daily \<and> daily date = Some (k + 1)"
proof -
  have wf: "wf_keys (tabs d)" "quiet d" using assms(1) by (simp_all add: rd_works_def rd_ok_def)
  let ?d1 = "d\<lparr>sent := Suc (sent d), tabs := tabs d, jobs := [a]\<rparr>"
  have g: "snd (rd_GetUrl d a) = ?d1"
    using statement_quiet [OF wf(2), of "hget (abvKey a) ''url''"] assms(2,3)
    by (simp add: rd_GetUrl_def hget_abv [OF wf(1)] rd_links_def)
  have q1: "quiet ?d1" "jobs ?d1 = [a]" "Date (sclock ?d1) = (date, c1)" using wf(2) assms(4) by (simp_all add: quiet_def)
  note j = rd_job_tabs [OF q1 assms(5)]
  from wf_keys_hash [OF wf(1), of a] assms(2) obtain h where h: "tabs d (abvKey a) = Some (RHash h)" "h ''url'' = Some u"
    by (auto simp: rd_links_def)
  let ?h = "h(''hits'' \<mapsto> show_int (n + 1), ''last_access'' \<mapsto> format_RFC3339 now)"
  let ?g = "(hash_at (tabs d) (dailyKey a))(date \<mapsto> show_int (k + 1))"
  have "hash_at (tabs d) (abvKey a) = h" using h(1) by (simp add: hash_at_def)
  then have "tabs (rd_job 0 ?d1) = (tabs d)(abvKey a \<mapsto> RHash ?h, dailyKey a \<mapsto> RHash ?g)"
    using j(1) hit_keys_holds [OF assms(7,8) _ assms(10-12), of now] assms(9) by simp
  then have t: "tabs (rd_job 0 ?d1) (abvKey a) = Some (RHash ?h)" "tabs (rd_job 0 ?d1) (dailyKey a) = Some (RHash ?g)"
    by simp_all
  from rd_GetStats_reads [OF j(2) t, of "n + 1" now] h(2) assms(6,8,9) ParseInt_show_int [of 64 "k + 1"] assms(11,12)
    parse_format_RFC3339 [OF assms(6)]
  show ?thesis by (simp add: g Atoi_def)
qed

theorem redis_hit_reported_witness:
  "\<exists>st daily. fst (rd_GetStats (rd_job 0 (snd (rd_GetUrl (redis_one (\<lambda>_. Runs)) ''k''))) ''k'') = (st, None) \<and>
    Hits st = 1 \<and> LastAccess st = zero_time \<and> DailyHits st = Some daily \<and> daily ''0001-01-01'' = Some 1"
proof -
  let ?d = "redis_one (\<lambda>_. Runs)"
  have day_one: "format_date zero_time = ''0001-01-01''" by code_simp
  have D: "Date (sclock ?d) = (''0001-01-01'', clock0\<lparr>ticks := 1\<rparr>)"
    using day_one by (simp add: Date_def time_Now_def clock0_def)
  have T: "time_Now (clock0\<lparr>ticks := 1\<rparr>) = (zero_time, clock0\<lparr>ticks := 2\<rparr>)"
    by (simp add: time_Now_def clock0_def)
  have p: "proper zero_time" by (simp add: proper_def zero_time_def daysIn_def)
  have s: "show_int 0 = ''0''" by code_simp
  have z: "zero_time\<lparr>nsec := 0\<rparr> = zero_time" by (simp add: zero_time_def)
  from redis_hit_reported [OF redis_one_works _ _ D T p, of "''k''" "''http://h''" 0 0] s z
  show ?thesis by (auto simp: holds_def one_key_eq)
qed


section \<open>What can go wrong\<close>

lemma rd_DeleteAbv_quiet:
  assumes "quiet d" "hget (abvKey a) ''url'' (tabs d) = (Inr (Some u), tabs d)"
  shows "rd_DeleteAbv d a = (None, d\<lparr>sent := Suc (Suc (sent d)), tabs := removed a u (tabs d)\<rparr>)"
proof -
  let ?d1 = "d\<lparr>sent := Suc (sent d), tabs := tabs d\<rparr>"
  have q: "quiet ?d1" using assms(1) by (simp add: quiet_def)
  show ?thesis
    using statement_quiet [OF assms(1), of "hget (abvKey a) ''url''"] assms(2)
      statement_quiet [OF q, of "tx [del (abvKey a), del (urlKey u), del (dailyKey a)]"]
    by (simp add: rd_DeleteAbv_def tx_delete)
qed

text \<open>
  C26. Over Redis a hit that is written after its link was deleted brings statistics of the abbreviation
  back: its look-up finds nothing, yet its statistics are reported, with one hit and no URL, and a
  deletion reports success and leaves them there.
\<close>

theorem redis_hit_resurrects:
  assumes "rd_works d" "rd_links d a = Some u" "jobs d = []"
    and "d1 = snd (rd_GetUrl d a)" "d2 = snd (rd_DeleteAbv d1 a)" "d3 = rd_job 0 d2"
  shows "fst (rd_DeleteAbv d1 a) = None \<and> fst (rd_GetUrl d3 a) = ('''', None) \<and>
    (\<exists>st. fst (rd_GetStats d3 a) = (st, None) \<and> Abbreviation st = a \<and> Url st = '''' \<and> Hits st = 1) \<and>
    fst (rd_DeleteAbv d3 a) = None \<and> tabs (snd (rd_DeleteAbv d3 a)) = tabs d3"
proof -
  have wf: "wf_keys (tabs d)" "quiet d" using assms(1) by (simp_all add: rd_works_def rd_ok_def)
  have h: "hget (abvKey a) ''url'' (tabs d) = (Inr (Some u), tabs d)"
    using assms(2) by (simp add: hget_abv [OF wf(1)] rd_links_def)
  have d1: "d1 = d\<lparr>sent := Suc (sent d), tabs := tabs d, jobs := [a]\<rparr>"
    using statement_quiet [OF wf(2), of "hget (abvKey a) ''url''"] h assms(3,4) by (simp add: rd_GetUrl_def)
  have q1: "quiet d1" using wf(2) by (simp add: d1 quiet_def)
  have del: "rd_DeleteAbv d1 a = (None, d1\<lparr>sent := Suc (Suc (sent d1)), tabs := removed a u (tabs d1)\<rparr>)"
    by (rule rd_DeleteAbv_quiet [OF q1]) (use h in \<open>simp add: d1\<close>)
  have d2: "quiet d2" "jobs d2 = [a]" "tabs d2 = removed a u (tabs d)"
    using del q1 assms(5) by (simp_all add: d1 quiet_def)
  obtain date c1 where D: "Date (sclock d2) = (date, c1)" by (metis prod.exhaust)
  obtain now c2 where T: "time_Now c1 = (now, c2)" by (metis prod.exhaust)
  note j = rd_job_tabs [OF d2(1,2) D T, folded assms(6), unfolded d2(3)]
  have gone: "removed a u (tabs d) (abvKey a) = None" "removed a u (tabs d) (dailyKey a) = None"
    by (simp_all add: removed_def)
  then have "holds (removed a u (tabs d)) (abvKey a) ''hits'' 0" "holds (removed a u (tabs d)) (dailyKey a) date 0"
    by (simp_all add: holds_def)
  from hit_keys_holds [OF this(1) _ _ this(2), of now] j(1) gone
  have t: "tabs d3 (abvKey a) = Some (RHash [''hits'' \<mapsto> show_int 1, ''last_access'' \<mapsto> format_RFC3339 now])"
    "tabs d3 (dailyKey a) = Some (RHash [date \<mapsto> show_int 1])" by (simp_all add: hash_at_def)
  have none: "hget (abvKey a) ''url'' (tabs d3) = (Inr None, tabs d3)" using t(1) by (simp add: hget_def)
  note s = statement_quiet [OF j(2), of "hget (abvKey a) ''url''", unfolded none]
  have "fst (rd_GetUrl d3 a) = ('''', None)" using s by (simp add: rd_GetUrl_def)
  moreover have "fst (rd_DeleteAbv d3 a) = None \<and> tabs (snd (rd_DeleteAbv d3 a)) = tabs d3"
    using s by (simp add: rd_DeleteAbv_def)
  ultimately show ?thesis using rd_GetStats_reads [OF j(2) t, of 1 now] del by simp
qed

theorem redis_hit_resurrects_witness:
  "let d1 = snd (rd_GetUrl (redis_one (\<lambda>_. Runs)) ''k''); d3 = rd_job 0 (snd (rd_DeleteAbv d1 ''k''))
   in fst (rd_GetUrl d3 ''k'') = ('''', None) \<and>
     (\<exists>st. fst (rd_GetStats d3 ''k'') = (st, None) \<and> Abbreviation st = ''k'' \<and> Url st = '''' \<and> Hits st = 1)"
  using redis_hit_resurrects [OF redis_one_works _ _ refl refl refl, of "''k''" "''http://h''"] by (simp add: Let_def)

text \<open>
  C25. Two Saves of different URLs under one abbreviation at the same time over Redis can both pass their
  check before either writes: both report success, and the abbreviation leads to the second URL, while
  the first URL is answered with it too.
\<close>

theorem redis_save_race:
  assumes "rd_works d" "rd_links d a = None" "u \<noteq> v"
    and "(e1, d1) = rd_Save_check d a u" "(e2, d2) = rd_Save_check d1 a v"
    and "(e3, d3) = rd_Save_write d2 a u" "(e4, d4) = rd_Save_write d3 a v"
  shows "e1 = None \<and> e2 = None \<and> e3 = None \<and> e4 = None \<and>
    fst (rd_GetUrl d4 a) = (v, None) \<and> fst (rd_GetAbv d4 u) = (a, None) \<and> fst (rd_GetAbv d4 v) = (a, None)"
proof -
  have wf: "wf_keys (tabs d)" "quiet d" using assms(1) by (simp_all add: rd_works_def rd_ok_def)
  have check: "rd_Save_check s a w = (None, s\<lparr>sent := Suc (sent s), tabs := tabs s\<rparr>)"
    if "quiet s" "tabs s = tabs d" for s w
    using statement_quiet [OF that(1), of "hget (abvKey a) ''url''"] that(2) assms(2)
    by (simp add: rd_Save_check_def hget_abv [OF wf(1)] rd_links_def)
  have e1: "e1 = None" "quiet d1" "tabs d1 = tabs d" using check [OF wf(2)] assms(4) wf(2) by (simp_all add: quiet_def)
  have e2: "e2 = None" "quiet d2" "tabs d2 = tabs d" using check [OF e1(2,3)] assms(5) e1(2,3) by (simp_all add: quiet_def)
  have none: "tabs d (abvKey a) = None" using wf_keys_hash [OF wf(1), of a] assms(2) by (auto simp: rd_links_def)
  let ?w = "\<lambda>w. tx [hset (abvKey a) [(''url'', w), (''hits'', ''0'')], set_key (urlKey w) a]"
  have e3: "e3 = None" "quiet d3"
    "tabs d3 = (tabs d)(abvKey a \<mapsto> RHash [''hits'' \<mapsto> ''0'', ''url'' \<mapsto> u], urlKey u \<mapsto> RString a)"
    using statement_quiet [OF e2(2), of "?w u"] assms(6) e2(2,3) none
    by (simp_all add: rd_Save_write_def tx_def hset_def set_key_def quiet_def)
  have e4: "e4 = None" "quiet d4" "tabs d4 (urlKey u) = Some (RString a)" "tabs d4 (urlKey v) = Some (RString a)"
    "\<exists>h. tabs d4 (abvKey a) = Some (RHash h) \<and> h ''url'' = Some v"
    using statement_quiet [OF e3(2), of "?w v"] assms(3,7) e3(2,3)
    by (simp_all add: rd_Save_write_def tx_def hset_def set_key_def quiet_def)
  have "fst (rd_GetUrl d4 a) = (v, None)"
    using statement_quiet [OF e4(2), of "hget (abvKey a) ''url''"] e4(5) by (auto simp: rd_GetUrl_def hget_def)
  moreover have "fst (rd_GetAbv d4 w) = (a, None)" if "tabs d4 (urlKey w) = Some (RString a)" for w
    using statement_quiet [OF e4(2), of "get (urlKey w)"] that by (simp add: rd_GetAbv_def get_def)
  ultimately show ?thesis using e1(1) e2(1) e3(1) e4(1,3,4) by simp
qed

theorem redis_save_race_witness:
  "\<exists>d1 d2 d3 d4. rd_Save_check (redis_one (\<lambda>_. Runs)) ''0'' ''http://x'' = (None, d1) \<and>
     rd_Save_check d1 ''0'' ''http://y'' = (None, d2) \<and> rd_Save_write d2 ''0'' ''http://x'' = (None, d3) \<and>
     rd_Save_write d3 ''0'' ''http://y'' = (None, d4) \<and> fst (rd_GetUrl d4 ''0'') = (''http://y'', None)"
proof -
  let ?d = "redis_one (\<lambda>_. Runs)"
  obtain e1 d1 where 1: "(e1, d1) = rd_Save_check ?d ''0'' ''http://x''" by (metis prod.exhaust)
  obtain e2 d2 where 2: "(e2, d2) = rd_Save_check d1 ''0'' ''http://y''" by (metis prod.exhaust)
  obtain e3 d3 where 3: "(e3, d3) = rd_Save_write d2 ''0'' ''http://x''" by (metis prod.exhaust)
  obtain e4 d4 where 4: "(e4, d4) = rd_Save_write d3 ''0'' ''http://y''" by (metis prod.exhaust)
  have "e1 = None \<and> e2 = None \<and> e3 = None \<and> e4 = None \<and> fst (rd_GetUrl d4 ''0'') = (''http://y'', None)"
    using redis_save_race [OF redis_one_works _ _ 1 2 3 4] by simp
  with 1 2 3 4 show ?thesis by metis
qed


section \<open>The types of the keys\<close>

text \<open>Abbreviations and days are hashes, URLs are strings.\<close>

definition typed_keys :: "keys \<Rightarrow> bool" where
  "typed_keys m \<longleftrightarrow> (\<forall>a. (\<nexists>s. m (abvKey a) = Some (RString s)) \<and> (\<nexists>s. m (dailyKey a) = Some (RString s)) \<and>
     (\<nexists>h. m (urlKey a) = Some (RHash h)))"

lemma typed_reads:
  assumes "typed_keys m"
  shows "fst (hget (abvKey a) f m) \<noteq> Inl e" "fst (hgetall (abvKey a) m) \<noteq> Inl e" "fst (hgetall (dailyKey a) m) \<noteq> Inl e"
    "fst (get (urlKey u) m) \<noteq> Inl e"
  using assms by (auto simp: typed_keys_def hget_def hgetall_def get_def split: option.split rvalue.split)

lemma typed_updates:
  assumes "typed_keys m"
  shows "typed_keys (snd (hset (abvKey a) fs m))" "typed_keys (snd (set_key (urlKey u) b m))" "typed_keys (snd (del k m))"
    "typed_keys (snd (hincr (abvKey a) f m))" "typed_keys (snd (hincr (dailyKey a) f m))"
  using assms
  by (auto simp: typed_keys_def hset_def set_key_def del_def hincr_def Let_def split: option.split rvalue.split)

lemma snd_exec: "snd (exec (c # cs) m) = snd (exec cs (snd (c m)))" "snd (exec [] m) = m"
  by (simp_all add: split_beta)

lemma typed_tx:
  assumes "typed_keys m"
  shows "typed_keys (snd (tx [hset (abvKey a) fs, set_key (urlKey u) b] m))"
    "typed_keys (snd (tx [del k1, del k2, del k3] m))"
    "typed_keys (snd (tx [hincr (abvKey a) f, hset (abvKey a) fs, hincr (dailyKey a) g] m))"
  using assms by (simp_all only: tx_def split_beta Let_def snd_conv snd_exec typed_updates)

lemma typed_statement:
  assumes "typed_keys (tabs d)" "\<And>m. typed_keys m \<Longrightarrow> typed_keys (snd (f m))"
  shows "typed_keys (tabs (snd (statement f d)))"
  using statement_tabs [of f d] assms by auto

lemma typed_read:
  "typed_keys (tabs d) \<Longrightarrow> (\<And>m. snd (f m) = m) \<Longrightarrow> typed_keys (tabs (snd (statement f d)))"
  by (rule typed_statement) simp_all

lemma typed_step:
  assumes "typed_keys (tabs d)" shows "typed_keys (tabs (dao_step redis_dao d c))"
proof (cases c)
  case (CSave a u)
  with assms show ?thesis
    by (auto simp: rd_Save_def rd_Save_check_def rd_Save_write_def split_beta Let_def typed_statement typed_tx typed_read
        split: sum.split option.split)
next
  case (CDeleteAbv a)
  with assms show ?thesis
    by (auto simp: rd_DeleteAbv_def split_beta Let_def typed_statement typed_tx typed_read split: sum.split option.split)
next
  case (CDeleteUrl u)
  with assms show ?thesis
    by (auto simp: rd_DeleteUrl_def split_beta Let_def typed_statement typed_tx typed_read split: sum.split option.split)
next
  case (CGetUrl a)
  with assms show ?thesis by (auto simp: rd_GetUrl_def split_beta typed_read split: sum.split option.split)
next
  case (CGetAbv u)
  with assms show ?thesis by (auto simp: rd_GetAbv_def split_beta typed_read split: sum.split option.split)
next
  case (CGetStats a)
  with assms show ?thesis by (auto simp: rd_GetStats_def split_beta Let_def typed_read split: sum.split)
next
  case CIsLikelyOk
  with assms show ?thesis by (auto simp: rd_IsLikelyOk_def split_beta typed_read split: sum.split)
qed

lemma typed_job: "typed_keys (tabs d) \<Longrightarrow> typed_keys (tabs (rd_job k d))"
  by (auto simp: rd_job_def split_beta Let_def intro!: typed_statement typed_tx)



end
