(* ===== verification/MongoService.thy ===== *)
theory MongoService
  imports Interleaving
begin

text \<open>
  The service over the MongoDB store: what a client can rely on while the connection works, with
  requests that overlap and hits that are written late, and what a lost look-up or a hit count
  beyond 32 bits does.
\<close>

interpretation mol: late_dao mongo_dao mo_ok mo_links "\<lambda>_ _. True" "mo_job reading"
  by unfold_locales (simp add: mo_job_keeps)

text \<open>A server that holds one link, for the witnesses.\<close>

definition one_doc :: "int \<Rightarrow> collection" where
  "one_doc n = \<lparr>docs = [\<lparr>m_abv = ''k'', m_url = ''http://h'', m_hits = n, m_last = None, m_daily = None\<rparr>],
     abv_ndx = True, url_ndx = True\<rparr>"

definition mongo_one :: "int \<Rightarrow> (nat \<Rightarrow> outcome) \<Rightarrow> mongodb" where
  "mongo_one n b = mo_connect \<lparr>stored = one_doc n, mode = b, mongo_time = clock0\<rparr>"

lemma one_doc_ok: "coll_ok (one_doc n)" "coll_links (one_doc n) = [''k'' \<mapsto> ''http://h'']"
  by (simp_all add: one_doc_def coll_ok_def coll_links_def)

lemma mongo_one_simps [simp]:
  "tabs (mongo_one n b) = one_doc n" "mo_links (mongo_one n b) = [''k'' \<mapsto> ''http://h'']" "jobs (mongo_one n b) = []"
  "net (mongo_one n b) = b" "sent (mongo_one n b) = 0" "closed (mongo_one n b) = False"
  by (simp_all add: mongo_one_def mo_connect_def mo_links_def one_doc_ok)

lemma mongo_one_ok: "mo_ok (mongo_one n (\<lambda>_. Runs))" "mo_works (mongo_one 0 (\<lambda>_. Runs))"
  by (simp_all add: mo_works_def mo_ok_def one_doc_ok quiet_def) (simp add: hits_decode_def one_doc_def)

section \<open>What holds\<close>

text \<open>
  C11. Over MongoDB, with requests that overlap in any way and with hits written at any later time, whatever
  the server makes of their update document, a stored link is neither lost nor taken over by another
  URL until its deletion is called for: a look-up answers its URL or an error.
\<close>

theorem mongo_links_stay:
  assumes "late_run env mongo_dao (mo_job reading) ls st st'" "sys_ok mo_ok st"
    and "Now (Call (CDeleteAbv b)) \<notin> set ls" "mo_links (db (snd st)) b = Some w"
  shows "mo_links (db (snd st')) b = Some w \<and>
    (\<exists>e. fst (mo_GetUrl (db (snd st')) b) = (if e = None then w else '''', e))"
proof -
  from mol.late_stable [OF assms(1,2) TrueI assms(3,4)]
  have ok: "mo_ok (db (snd st'))" and l: "mo_links (db (snd st')) b = Some w" by (simp_all add: sys_ok_def)
  obtain v e d where g: "mo_GetUrl (db (snd st')) b = ((v, e), d)" by (metis prod.exhaust)
  with mo_GetUrl_law(3) [OF ok g] l show ?thesis by auto
qed

theorem mongo_links_stay_witness:
  "\<exists>st' :: (mongodb, days) sys. late_run noenv mongo_dao (mo_job Refused) [Now (Call (CGetUrl ''k'')), Late 0]
      ([], over (mongo_one 0 (\<lambda>_. Runs))) st' \<and>
    mo_links (db (snd st')) ''k'' = Some ''http://h'' \<and>
    (\<exists>e. fst (mo_GetUrl (db (snd st')) ''k'') = (if e = None then ''http://h'' else '''', e))"
proof -
  let ?d = "mongo_one 0 (\<lambda>_. Runs)"
  let ?h = "(over ?d)\<lparr>db := dao_step mongo_dao ?d (CGetUrl ''k'')\<rparr>"
  let ?st = "([], ?h\<lparr>db := mo_job Refused 0 (db ?h)\<rparr>) :: (mongodb, days) sys"
  have run: "late_run noenv mongo_dao (mo_job Refused) [Now (Call (CGetUrl ''k'')), Late 0] ([], over ?d) ?st"
    by (rule late_now [OF other [of "CGetUrl ''k''"]]) (simp, simp, rule late_job, simp add: late_stop)
  have "sys_ok mo_ok ([], over ?d)" by (simp add: sys_ok_def mongo_one_ok)
  from mongo_links_stay [OF run this, of "''k''" "''http://h''"] run show ?thesis
    by (intro exI [of _ ?st]) simp
qed

text \<open>
  Over MongoDB, while the connection works and no count has outgrown 32 bits, a link the service has
  confirmed keeps redirecting to the URL of its request, whatever requests come after, until somebody
  asks for its deletion.
\<close>

theorem mongo_confirmed_resolves:
  assumes "mo_works (db h)" "1 \<le> keySize (gener h)"
    and "serve env W mongo_dao req h = Some ((JSONResp 200 (JUrl ret), hs), h1)"
    and "serve_all env W mongo_dao after h1 = Some (rs, h2)"
    and "\<forall>req' \<in> set after. \<not> deletes (Abv ret) req'"
  shows "\<exists>u. read_url W (Body req) = Inr u \<and> fst (getHandler mongo_dao (Abv ret) h2) = RedirectResp 302 u"
  using moq.confirmed_resolves [OF assms(1,2) has_room_True assms(3-5)] .

theorem mongo_confirmed_resolves_witness:
  "\<exists>h1. serve noenv web0 mongo_dao (add0 ''http://x'') (over (mongo_one 0 (\<lambda>_. Runs)))
      = Some ((JSONResp 200 (JUrl (createReturn ''0'')), [(''x-instance-uuid'', ''id'')]), h1) \<and>
    fst (getHandler mongo_dao ''0'' h1) = RedirectResp 302 ''http://x''"
proof -
  obtain h1 where h1: "serve noenv web0 mongo_dao (add0 ''http://x'') (over (mongo_one 0 (\<lambda>_. Runs)))
      = Some ((JSONResp 200 (JUrl (createReturn ''0'')), [(''x-instance-uuid'', ''id'')]), h1)"
    by (rule moq.zero_serve [OF mongo_one_ok(2), of "''http://x''"]) simp_all
  have "\<exists>u. read_url (web0 :: days web_lib) (Body (add0 ''http://x'')) = Inr u \<and>
      fst (getHandler mongo_dao (Abv (createReturn ''0'')) h1) = RedirectResp 302 u"
    by (rule mongo_confirmed_resolves [OF _ _ h1, of "[]" "[]"]) (simp_all add: mongo_one_ok(2))
  with h1 show ?thesis by (simp add: read_url_def web0_def createReturn_def)
qed


section \<open>What can go wrong\<close>

text \<open>
  The service ignores the error of its first look-up, and \<open>Save\<close> takes a refused duplicate for
  success: whenever the look-up of a known URL fails, the client is given an abbreviation that is
  not stored.
\<close>

lemma Save_known:
  assumes "runs_on d" "coll_ok (tabs d)" "u \<in> ran (mo_links d)"
  shows "mo_Save d a u = (None, d\<lparr>sent := Suc (sent d), tabs := tabs d\<rparr>)"
proof -
  have "contains ''E11000 duplicate key error'' ''E11000 duplicate''" by code_simp
  moreover have "u \<in> m_url ` set (docs (tabs d))" using assms(2,3) by (simp add: mo_links_def coll_links_ran)
  with assms(2) have "insert_one a u (tabs d) = (Inl ''E11000 duplicate key error'', tabs d)"
    by (auto simp: insert_one_def coll_ok_def)
  ultimately show ?thesis by (simp add: mo_Save_def runs_on_statement [OF assms(1)])
qed

lemma GetUrl_free:
  assumes "runs_on d" "mo_links d b = None"
  shows "mo_GetUrl d b = (('''', None), d\<lparr>sent := Suc (sent d), tabs := tabs d\<rparr>)"
proof -
  have "find (\<lambda>x. m_abv x = b) (docs (tabs d)) = None"
    using assms(2) coll_links_None [of "tabs d" b] by (auto simp: mo_links_def find_None_iff)
  then show ?thesis by (simp add: mo_GetUrl_def find_one_def runs_on_statement [OF assms(1)])
qed

lemma dead_link:
  assumes "mo_GetAbv (db h) u = (('''', e), d)" "runs_on d" "tabs d = tabs (db h)" "coll_ok (tabs d)"
    and "read_url W body = Inr u" "u \<in> ran (mo_links (db h))"
    and "randString env (gener h) = Some (b, g)" "mo_links (db h) b = None"
  shows "\<exists>h'. addHandler env W mongo_dao body h = Some (JSONResp 200 (JUrl (createReturn b)), h') \<and>
    docs (tabs (db h')) = docs (tabs (db h)) \<and> fst (getHandler mongo_dao b h') = StringResp 404 ''No link found''"
proof -
  have l: "mo_links d = mo_links (db h)" using assms(3) by (simp add: mo_links_def)
  let ?d1 = "d\<lparr>sent := Suc (sent d), tabs := tabs d\<rparr>"
  let ?d2 = "?d1\<lparr>sent := Suc (sent ?d1), tabs := tabs ?d1\<rparr>"
  have on: "runs_on ?d1" "runs_on ?d2" using assms(2) by (simp_all only: runs_on_sent)
  have l1: "mo_links ?d1 = mo_links (db h)" "mo_links ?d2 = mo_links (db h)" using l by (simp_all add: mo_links_def)
  have probe: "mo_GetUrl d b = (('''', None), ?d1)" using GetUrl_free [OF assms(2)] assms(8) l by simp
  have save: "mo_Save ?d1 b u = (None, ?d2)" using Save_known [OF on(1)] assms(4,6) l1 by simp
  have "addHandler env W mongo_dao body h
      = Some (JSONResp 200 (JUrl (createReturn b)), (count_new h)\<lparr>gener := g, db := ?d2\<rparr>)"
    using assms(1,5,7) probe save by (simp add: addHandler_def CreateAbbreviation_def create_loop_stop)
  moreover have "mo_GetUrl ?d2 b = (('''', None), ?d2\<lparr>sent := Suc (sent ?d2), tabs := tabs ?d2\<rparr>)"
    using GetUrl_free [OF on(2)] assms(8) l1 by simp
  then have "fst (getHandler mongo_dao b ((count_new h)\<lparr>gener := g, db := ?d2\<rparr>)) = StringResp 404 ''No link found''"
    by (simp add: getHandler_def)
  ultimately show ?thesis using assms(3) by (intro exI conjI) simp_all
qed

text \<open>
  C27. Over MongoDB one lost look-up is enough for a confirmed link that leads nowhere: when the look-up of
  a stored URL is lost, the request to shorten it is answered with 200 and a fresh abbreviation, which
  is not stored and answered with 404.
\<close>

theorem mongo_lost_lookup:
  assumes "coll_ok (tabs (db h))" "net (db h) (sent (db h)) = Lost m" "\<forall>n > sent (db h). net (db h) n = Runs"
    and "\<not> closed (db h)" "read_url W body = Inr u" "u \<in> ran (mo_links (db h))"
    and "randString env (gener h) = Some (b, g)" "mo_links (db h) b = None"
  shows "\<exists>h'. addHandler env W mongo_dao body h = Some (JSONResp 200 (JUrl (createReturn b)), h') \<and>
    docs (tabs (db h')) = docs (tabs (db h)) \<and> fst (getHandler mongo_dao b h') = StringResp 404 ''No link found''"
proof (rule dead_link [OF _ _ _ _ assms(5-8)])
  let ?d = "(db h)\<lparr>sent := Suc (sent (db h))\<rparr>"
  show "mo_GetAbv (db h) u = (('''', None), ?d)"
    using assms(2,4) by (simp add: mo_GetAbv_def statement_def Let_def)
  show "runs_on ?d" using assms(3,4) by (simp add: runs_on_def)
qed (use assms(1) in simp_all)

theorem mongo_lost_lookup_witness:
  "\<exists>h'. addHandler noenv web0 mongo_dao ''http://h'' (over (mongo_one 0 (\<lambda>n. if n = 0 then Lost ''timeout'' else Runs)))
      = Some (JSONResp 200 (JUrl (createReturn ''0'')), h') \<and> fst (getHandler mongo_dao ''0'' h') = StringResp 404 ''No link found''"
proof -
  let ?h = "over (mongo_one 0 (\<lambda>n. if n = 0 then Lost ''timeout'' else Runs))"
  have "randString noenv (gener ?h) = Some (''0'', \<lparr>keySize = 1, src = zeros\<lparr>pos := 1\<rparr>\<rparr>)"
    using zero_draw [of "gener ?h" noenv] by (simp add: zeros_def)
  from mongo_lost_lookup [OF _ _ _ _ _ _ this, of "''timeout''" web0 "''http://h''" "''http://h''"]
  show ?thesis by (auto simp: one_doc_ok read_url_def web0_def)
qed

text \<open>A document whose count does not decode is found, by either key, and answered with an error.\<close>

lemma find_doc:
  assumes "coll_ok c" "y \<in> set (docs c)"
  shows "find (\<lambda>x. m_abv x = m_abv y) (docs c) = Some y" "find (\<lambda>x. m_url x = m_url y) (docs c) = Some y"
proof -
  have d: "distinct (map m_abv (docs c))" "distinct (map m_url (docs c))" using assms(1) by (simp_all add: coll_ok_def)
  have "find (\<lambda>x. f x = f y) (docs c) = Some y" if "distinct (map f (docs c))" for f :: "doc \<Rightarrow> string"
  proof (cases "find (\<lambda>x. f x = f y) (docs c)")
    case None
    with assms(2) show ?thesis by (auto simp: find_None_iff)
  next
    case (Some z)
    then have "z \<in> set (docs c)" "f z = f y" by (auto simp: find_Some_iff)
    with distinct_map_unique [OF that this(1) assms(2)] Some show ?thesis by simp
  qed
  from this [OF d(1)] this [OF d(2)] show "find (\<lambda>x. m_abv x = m_abv y) (docs c) = Some y"
    "find (\<lambda>x. m_url x = m_url y) (docs c) = Some y" .
qed

lemma undecodable:
  assumes "mo_ok d" "y \<in> set (docs (tabs d))" "decode y = None"
  shows "\<exists>m. mo_GetUrl d (m_abv y) = (('''', Some m), d\<lparr>sent := Suc (sent d), tabs := tabs d\<rparr>)"
    and "\<exists>m. mo_GetAbv d (m_url y) = (('''', Some m), d\<lparr>sent := Suc (sent d), tabs := tabs d\<rparr>)"
proof -
  have ok: "runs_on d" "coll_ok (tabs d)" using assms(1) by (simp_all add: mo_ok_def quiet_runs_on)
  note f = find_doc [OF ok(2) assms(2)]
  show "\<exists>m. mo_GetUrl d (m_abv y) = (('''', Some m), d\<lparr>sent := Suc (sent d), tabs := tabs d\<rparr>)"
    using f(1) assms(3) by (simp add: mo_GetUrl_def find_one_def runs_on_statement [OF ok(1)])
  show "\<exists>m. mo_GetAbv d (m_url y) = (('''', Some m), d\<lparr>sent := Suc (sent d), tabs := tabs d\<rparr>)"
    using f(2) assms(3) by (simp add: mo_GetAbv_def find_one_def runs_on_statement [OF ok(1)])
qed

lemma update_first_hit:
  "distinct (map m_abv xs) \<Longrightarrow> x \<in> set xs \<Longrightarrow> f x \<in> set (update_first (\<lambda>y. m_abv y = m_abv x) f xs)"
  by (induction xs) auto

text \<open>A look-up and its goroutine, on a connection that works.\<close>

lemma mo_hit:
  assumes "mo_ok d" "x \<in> set (docs (tabs d))" "decode x \<noteq> None" "jobs d = []"
  obtains now date where "hit_doc rd now date x \<in> set (docs (tabs (mo_job rd 0 (snd (mo_GetUrl d (m_abv x))))))"
proof -
  have ok: "runs_on d" "coll_ok (tabs d)" "distinct (map m_abv (docs (tabs d)))"
    using assms(1) by (simp_all add: mo_ok_def quiet_runs_on coll_ok_def)
  let ?d1 = "d\<lparr>sent := Suc (sent d), tabs := tabs d, jobs := [m_abv x]\<rparr>"
  have g: "snd (mo_GetUrl d (m_abv x)) = ?d1"
    using find_doc(1) [OF ok(2) assms(2)] assms(3,4) by (auto simp: mo_GetUrl_def find_one_def runs_on_statement [OF ok(1)])
  obtain date c1 where D: "Date (sclock d) = (date, c1)" by (metis prod.exhaust)
  obtain now c2 where T: "time_Now c1 = (now, c2)" by (metis prod.exhaust)
  have "runs_on (?d1\<lparr>sclock := c2, jobs := []\<rparr>)" using ok(1) by (simp add: runs_on_def)
  from runs_on_statement [OF this, of "update_one (\<lambda>y. m_abv y = m_abv x) (hit_doc rd now date)"] D T
  have "tabs (mo_job rd 0 ?d1) = snd (update_one (\<lambda>y. m_abv y = m_abv x) (hit_doc rd now date) (tabs d))"
    by (simp add: mo_job_def)
  with update_first_hit [OF ok(3) assms(2)] show ?thesis by (intro that [of now date]) (simp add: g update_one_def)
qed

text \<open>
  C28. Over MongoDB the hit after the 2147483647th breaks a link for good, on a server that applies it: look-ups
  by abbreviation and by URL are answered with an error although the link is stored, and a request to
  shorten its URL again is confirmed with an abbreviation that leads nowhere.
\<close>

theorem mongo_hits_overflow:
  assumes "mo_ok (db h)" "x \<in> set (docs (tabs (db h)))" "m_hits x = 2 ^ 31 - 1" "jobs (db h) = []"
    and "h1 = (snd (getHandler mongo_dao (m_abv x) h))" "h2 = h1\<lparr>db := mo_job (Applied True days) 0 (db h1)\<rparr>"
    and "read_url W body = Inr (m_url x)" "randString env (gener h) = Some (b, g)" "mo_links (db h) b = None"
  shows "mo_links (db h2) (m_abv x) = Some (m_url x) \<and>
    (\<exists>m. fst (getHandler mongo_dao (m_abv x) h2) = StringResp 500 m) \<and>
    (\<exists>h3. addHandler env W mongo_dao body h2 = Some (JSONResp 200 (JUrl (createReturn b)), h3) \<and>
       fst (getHandler mongo_dao b h3) = StringResp 404 ''No link found'')"
proof -
  let ?d = "db h2"
  have c: "coll_ok (tabs (db h))" using assms(1) by (simp add: mo_ok_def)
  have dec: "decode x \<noteq> None" using assms(3) by (simp add: decode_def)
  have h1: "db h1 = snd (mo_GetUrl (db h) (m_abv x))" "gener h1 = gener h"
    using assms(5) by (simp_all add: getHandler_def Let_def split_beta split: option.split)
  have ok1: "mo_ok (db h1)" "mo_links (db h1) = mo_links (db h)"
    using mo.getUrl_frame [OF assms(1), of "m_abv x"] h1(1) by simp_all
  have ok2: "mo_ok ?d" "mo_links ?d = mo_links (db h)"
    using mo_job_keeps [OF ok1(1)] ok1(2) assms(6) by simp_all
  obtain now date where y: "hit_doc (Applied True days) now date x \<in> set (docs (tabs ?d))"
    using mo_hit [OF assms(1,2) dec assms(4), where rd = "Applied True days"] h1(1) assms(6) by auto
  let ?y = "hit_doc (Applied True days) now date x"
  have none: "decode ?y = None" using assms(3) by (simp add: decode_def Let_def)
  have l: "mo_links (db h) (m_abv x) = Some (m_url x)"
    using assms(2) by (auto simp: mo_links_def coll_links_Some [OF c])
  obtain m where gu: "mo_GetUrl ?d (m_abv x) = (('''', Some m), ?d\<lparr>sent := Suc (sent ?d), tabs := tabs ?d\<rparr>)"
    using undecodable(1) [OF ok2(1) y none] by (auto simp del: hit_doc.simps)
  obtain e where ga: "mo_GetAbv ?d (m_url x) = (('''', e), ?d\<lparr>sent := Suc (sent ?d), tabs := tabs ?d\<rparr>)"
    using undecodable(2) [OF ok2(1) y none] by (auto simp del: hit_doc.simps)
  have on: "runs_on (?d\<lparr>sent := Suc (sent ?d), tabs := tabs ?d\<rparr>)" "coll_ok (tabs ?d)"
    using ok2(1) by (simp_all add: mo_ok_def quiet_def runs_on_def)
  have "m_url x \<in> ran (mo_links ?d)" using l ok2(2) by (auto simp: ran_def)
  from dead_link [OF ga on(1) _ _ assms(7) this] on(2) h1(2) assms(6,8,9) ok2(2)
  have "\<exists>h3. addHandler env W mongo_dao body h2 = Some (JSONResp 200 (JUrl (createReturn b)), h3) \<and>
    fst (getHandler mongo_dao b h3) = StringResp 404 ''No link found''" by fastforce
  moreover have "fst (getHandler mongo_dao (m_abv x) h2) = StringResp 500 (''Error getting redirect: '' @ m)"
    using gu by (simp add: getHandler_def)
  ultimately show ?thesis using l ok2(2) by auto
qed

theorem mongo_hits_overflow_witness:
  "let h1 = snd (getHandler mongo_dao ''k'' (over (mongo_one (2 ^ 31 - 1) (\<lambda>_. Runs))));
       h2 = h1\<lparr>db := mo_job (Applied True True) 0 (db h1)\<rparr>
   in \<exists>m. fst (getHandler mongo_dao ''k'' h2) = StringResp 500 m"
proof -
  let ?h = "over (mongo_one (2 ^ 31 - 1) (\<lambda>_. Runs))"
  let ?x = "\<lparr>m_abv = ''k'', m_url = ''http://h'', m_hits = 2 ^ 31 - 1, m_last = None, m_daily = None\<rparr>"
  have r: "randString noenv (gener ?h) = Some (''0'', \<lparr>keySize = 1, src = zeros\<lparr>pos := 1\<rparr>\<rparr>)"
    using zero_draw [of "gener ?h" noenv] by (simp add: zeros_def)
  have x: "?x \<in> set (docs (tabs (db ?h)))" by (simp add: one_doc_def)
  from mongo_hits_overflow [OF _ x _ _ refl refl _ r, of web0 "''http://h''" True]
  show ?thesis by (simp add: mongo_one_ok read_url_def web0_def Let_def)
qed

end
