(* ===== verification/Interchange.thy ===== *)
theory Interchange
  imports SqlService RedisService MongoService
begin

text \<open>
  The stores are interchangeable: two services over stores that keep the contract and fail no call,
  and that start with the same links, answer every sequence of requests alike, up to the contents
  of statistics. The locale \<open>same_service\<close> puts two such stores side by side; it is interpreted on the
  in-memory store with SQLite, Redis and MongoDB.
\<close>

section \<open>Answers without statistics\<close>

definition erase_stats :: "'d ShortUrl \<Rightarrow> unit ShortUrl" where
  "erase_stats st = \<lparr>Abbreviation = Abbreviation st, Url = Url st, Hits = 0, LastAccess = zero_time, DailyHits = ()\<rparr>"

fun erase_body :: "'d body \<Rightarrow> unit body" where
  "erase_body (JText s) = JText s"
| "erase_body (JUrl x) = JUrl x"
| "erase_body (JStats st) = JStats (erase_stats st)"
| "erase_body (JMetrics m) = JMetrics m"
| "erase_body (JStatus s) = JStatus s"

fun erase :: "'d response \<Rightarrow> unit response" where
  "erase (StringResp n s) = StringResp n s"
| "erase (JSONResp n b) = JSONResp n (erase_body b)"
| "erase (RedirectResp n s) = RedirectResp n s"
| "erase (PageResp st) = PageResp (erase_stats st)"
| "erase (FileResp n s) = FileResp n s"
| "erase (Failed n s) = Failed n s"
| "erase (Panicked s) = Panicked s"

lemma erase_status [simp]: "response_status (erase r) = response_status r" "is_panic (erase r) = is_panic r"
  by (cases r; simp)+

lemma erase_same: "erase r = erase r' \<Longrightarrow> response_status r = response_status r' \<and> is_panic r = is_panic r'"
  using erase_status [of r] erase_status [of r'] by simp

definition answers ::
  "getenv \<Rightarrow> 'd web_lib \<Rightarrow> ('s, 'd) ShortUrlDao \<Rightarrow> request list \<Rightarrow> 's Handlers
     \<Rightarrow> (unit response \<times> (string \<times> string) list) list option" where
  "answers env W D cs h = map_option (\<lambda>(rs, _). map (\<lambda>(r, hs). (erase r, hs)) rs) (serve_all env W D cs h)"

text \<open>The libraries behave alike; the template looks at the abbreviation and the URL only.\<close>

definition same_web :: "'d web_lib \<Rightarrow> 'e web_lib \<Rightarrow> bool" where
  "same_web W V \<longleftrightarrow> decode_string W = decode_string V \<and> ParseRequestURI W = ParseRequestURI V \<and>
     serve_file W = serve_file V \<and>
     (case (stats_template W, stats_template V) of
        (None, None) \<Rightarrow> True
      | (Some f, Some g) \<Rightarrow> \<forall>st st'. erase_stats st = erase_stats st' \<longrightarrow> f st = g st'
      | _ \<Rightarrow> False)"

text \<open>What a service has besides its store.\<close>

definition front :: "'s Handlers \<Rightarrow> gen \<times> metrics \<times> otel_metrics option \<times> SimpleStatus \<times> string" where
  "front h = (gener h, hmetrics h, otelMetrics h, hstatus h, hid h)"

lemma front_counts:
  assumes "front h = front k"
  shows "front (count_redirect h) = front (count_redirect k)" "front (count_stats h) = front (count_stats k)"
    "front (count_new h) = front (count_new k)" "front (count_delete h) = front (count_delete k)"
  using assms
  by (simp_all add: front_def count_redirect_def count_stats_def count_new_def count_delete_def
      recordOtelCounter_def split: option.splits)

lemma front_simps [simp]:
  "front (h\<lparr>db := x\<rparr>) = front h" "front (h\<lparr>gener := g\<rparr>) = (g, snd (front h))"
  by (simp_all add: front_def)

lemma frontD:
  "front h = front k \<Longrightarrow> gener h = gener k \<and> hmetrics h = hmetrics k \<and> otelMetrics h = otelMetrics k \<and> hstatus h = hstatus k \<and> hid h = hid k"
  by (simp add: front_def)

lemma same_read_url:
  "same_web W V \<Longrightarrow> (case read_url W body of
     Inr u \<Rightarrow> read_url V body = Inr u
   | Inl r \<Rightarrow> \<exists>r'. read_url V body = Inl r' \<and> erase r = erase r')"
  by (auto simp: same_web_def read_url_def split: prod.splits option.splits if_splits)

section \<open>Two services side by side\<close>

locale same_service =
  one: reliable_dao D inv links "\<lambda>_ _. True" + two: reliable_dao E inv' links' "\<lambda>_ _. True"
  for D :: "('s, 'd) ShortUrlDao" and inv links and E :: "('t, 'e) ShortUrlDao" and inv' links'
begin

definition same_db :: "'s \<Rightarrow> 't \<Rightarrow> bool" where
  "same_db s t \<longleftrightarrow> inv s \<and> inv' t \<and> links s = links' t"

definition same :: "'s Handlers \<Rightarrow> 't Handlers \<Rightarrow> bool" where
  "same h k \<longleftrightarrow> same_db (db h) (db k) \<and> front h = front k"

text \<open>The calls.\<close>

lemma same_getUrl:
  assumes "same_db s t"
  shows "fst (GetUrl D s a) = fst (GetUrl E t a)" "snd (fst (GetUrl D s a)) = None" "same_db (snd (GetUrl D s a)) (snd (GetUrl E t a))"
  using assms one.getUrl_answer [of s a] two.getUrl_answer [of t a] one.getUrl_frame [of s a] two.getUrl_frame [of t a]
  by (simp_all add: same_db_def)

lemma same_getAbv:
  assumes "same_db s t"
  shows "fst (GetAbv D s u) = fst (GetAbv E t u)" "same_db (snd (GetAbv D s u)) (snd (GetAbv E t u))"
proof -
  have i: "inv s" "inv' t" "links' t = links s" using assms by (simp_all add: same_db_def)
  obtain v e s' where g: "GetAbv D s u = ((v, e), s')" by (metis prod.exhaust)
  obtain w e' t' where g': "GetAbv E t u = ((w, e'), t')" by (metis prod.exhaust)
  note n = one.getAbv_nil [OF i(1) g] two.getAbv_nil [OF i(2) g']
  note p = one.getAbv [OF i(1) g] two.getAbv [OF i(2) g']
  have "v = w"
  proof (cases "u \<in> ran (links s)")
    case True
    with n p i(3) have "links s v = Some u" "links s w = Some u" by (simp_all split: if_splits)
    then show ?thesis by (rule one.links_inj [OF i(1)])
  next
    case False
    then have "links s x \<noteq> Some u" for x by (auto simp: ran_def)
    with n p i(3) show ?thesis by (metis (full_types))
  qed
  with n g g' show "fst (GetAbv D s u) = fst (GetAbv E t u)" by simp
  show "same_db (snd (GetAbv D s u)) (snd (GetAbv E t u))" using p g g' i by (simp add: same_db_def)
qed

lemma same_save:
  assumes "same_db s t" "savable (links s) a u"
  shows "fst (Save D s a u) = None" "fst (Save E t a u) = None" "same_db (snd (Save D s a u)) (snd (Save E t a u))"
proof -
  have i: "inv s" "inv' t" "links' t = links s" "savable (links' t) a u" using assms by (simp_all add: same_db_def)
  obtain e s' where g: "Save D s a u = (e, s')" by (metis prod.exhaust)
  obtain e' t' where g': "Save E t a u = (e', t')" by (metis prod.exhaust)
  note n = one.save_nil [OF i(1) TrueI assms(2) g] two.save_nil [OF i(2) TrueI i(4) g']
  note p = one.save [OF i(1) TrueI assms(2) g] two.save [OF i(2) TrueI i(4) g']
  show "fst (Save D s a u) = None" "fst (Save E t a u) = None" "same_db (snd (Save D s a u)) (snd (Save E t a u))"
    using n p g g' i(3) by (simp_all add: same_db_def)
qed

lemma same_deleteAbv:
  assumes "same_db s t"
  shows "fst (DeleteAbv D s a) = None" "fst (DeleteAbv E t a) = None" "same_db (snd (DeleteAbv D s a)) (snd (DeleteAbv E t a))"
proof -
  have i: "inv s" "inv' t" "links' t = links s" using assms by (simp_all add: same_db_def)
  obtain e s' where g: "DeleteAbv D s a = (e, s')" by (metis prod.exhaust)
  obtain e' t' where g': "DeleteAbv E t a = (e', t')" by (metis prod.exhaust)
  note n = one.deleteAbv_nil [OF i(1) g] two.deleteAbv_nil [OF i(2) g']
  note p = one.deleteAbv [OF i(1) g] two.deleteAbv [OF i(2) g']
  show "fst (DeleteAbv D s a) = None" "fst (DeleteAbv E t a) = None" "same_db (snd (DeleteAbv D s a)) (snd (DeleteAbv E t a))"
    using n p g g' i(3) by (simp_all add: same_db_def)
qed

lemma same_getStats:
  assumes "same_db s t" "GetStats D s a = ((st, e), s')" "GetStats E t a = ((st', e'), t')"
  shows "e = None" "e' = None" "same_db s' t'"
    "Abbreviation st = '''' \<and> Abbreviation st' = '''' \<or> Abbreviation st \<noteq> '''' \<and> erase_stats st = erase_stats st'"
proof -
  have i: "inv s" "inv' t" "links' t = links s" using assms(1) by (simp_all add: same_db_def)
  note n = one.getStats_nil [OF i(1) assms(2)] two.getStats_nil [OF i(2) assms(3)]
  note p = one.getStats [OF i(1) assms(2)] two.getStats [OF i(2) assms(3)]
  show "e = None" "e' = None" "same_db s' t'" using n p i(3) by (simp_all add: same_db_def)
  show "Abbreviation st = '''' \<and> Abbreviation st' = '''' \<or> Abbreviation st \<noteq> '''' \<and> erase_stats st = erase_stats st'"
    using n p i(3) one.links_nonempty [OF i(1), of a] by (cases "links s a") (simp_all add: erase_stats_def)
qed

end


context same_service
begin

text \<open>The search draws the same words and stops at the same one.\<close>

lemma same_create_loop:
  assumes "create_loop env D url tries abv u g s = Some r" "same_db s t"
  shows "\<exists>t'. create_loop env E url tries abv u g t = Some (fst r, fst (snd r), t') \<and> same_db (snd (snd r)) t'"
proof -
  let ?P = "\<lambda>env D' url tries abv u g s r. D' = D \<longrightarrow> (\<forall>t. same_db s t \<longrightarrow>
      (\<exists>t'. create_loop env E url tries abv u g t = Some (fst r, fst (snd r), t') \<and> same_db (snd (snd r)) t'))"
  have "?P env D url tries abv u g s r"
  proof (rule create_loop.raw_induct [where P = ?P, OF _ assms(1)], intro impI allI, goal_cases)
    case (1 f env D' url tries abv u g s r t)
    note IH = "1"(1) and eq = "1"(2) and D' = "1"(3) and st = "1"(4)
    show ?case
    proof (cases "u \<noteq> '''' \<and> url \<noteq> u")
      case False
      with eq have "r = ((abv, None), g, s)" by auto
      with False st show ?thesis by (subst create_loop.simps) auto
    next
      case True
      let ?s1 = "snd (GetUrl D s abv)" and ?t1 = "snd (GetUrl E t abv)" and ?tg = "count_try env tries g"
      note c = same_getUrl [OF st, of abv]
      from True eq D' c(2) obtain a1 g1 where a1: "randString env (snd ?tg) = Some (a1, g1)"
        and rest: "f env D url (fst ?tg) a1 (fst (fst (GetUrl D ?s1 a1))) g1 (snd (GetUrl D ?s1 a1)) = Some r"
        by (auto simp: Let_def bind_eq_Some_conv)
      note c1 = same_getUrl [OF c(3), of a1]
      from IH [OF rest] c1(3) obtain t' where
        "create_loop env E url (fst ?tg) a1 (fst (fst (GetUrl E ?t1 a1))) g1 (snd (GetUrl E ?t1 a1)) = Some (fst r, fst (snd r), t')"
        "same_db (snd (snd r)) t'" unfolding c1(1) by blast
      with True a1 c(1,2) show ?thesis by (subst create_loop.simps) (simp add: Let_def)
    qed
  qed
  with assms(2) show ?thesis by blast
qed

lemma same_create:
  assumes "CreateAbbreviation env D u g s = Some ((a, e), g', s')" "same_db s t"
  shows "\<exists>t'. CreateAbbreviation env E u g t = Some ((a, e), g', t') \<and> same_db s' t'"
proof -
  from assms(1) obtain b g1 where b: "randString env g = Some (b, g1)"
    and l: "create_loop env D u 0 b (fst (fst (GetUrl D s b))) g1 (snd (GetUrl D s b)) = Some ((a, e), g', s')"
    by (auto simp: CreateAbbreviation_def Let_def bind_eq_Some_conv)
  note c = same_getUrl [OF assms(2), of b]
  from same_create_loop [OF l c(3)] b c(1) show ?thesis by (auto simp: CreateAbbreviation_def Let_def)
qed

text \<open>The handlers.\<close>

lemma same_frontD: "same h k \<Longrightarrow> front h = front k" "same h k \<Longrightarrow> same_db (db h) (db k)"
  by (simp_all add: same_def)

lemma same_getHandler:
  assumes "same h k"
  shows "erase (fst (getHandler D a h)) = erase (fst (getHandler E a k)) \<and> same (snd (getHandler D a h)) (snd (getHandler E a k))"
  using same_getUrl [OF same_frontD(2) [OF assms], of a] front_counts(1) [OF same_frontD(1) [OF assms]]
  by (cases "GetUrl D (db h) a"; cases "GetUrl E (db k) a") (auto simp: getHandler_def Let_def same_def)

lemma same_deleteHandler:
  assumes "same h k"
  shows "erase (fst (deleteHandler D a h)) = erase (fst (deleteHandler E a k)) \<and> same (snd (deleteHandler D a h)) (snd (deleteHandler E a k))"
  using same_deleteAbv [OF same_frontD(2) [OF assms], of a] front_counts(4) [OF same_frontD(1) [OF assms]]
  by (cases "DeleteAbv D (db h) a"; cases "DeleteAbv E (db k) a") (auto simp: deleteHandler_def Let_def same_def)

lemma erase_Abbreviation: "erase_stats st = erase_stats st' \<Longrightarrow> Abbreviation st = Abbreviation st'"
  by (simp add: erase_stats_def)

lemma same_statsHandler:
  assumes "same h k"
  shows "erase (fst (statsHandler D a h)) = erase (fst (statsHandler E a k)) \<and> same (snd (statsHandler D a h)) (snd (statsHandler E a k))"
proof -
  obtain st e s' where g: "GetStats D (db h) a = ((st, e), s')" by (metis prod.exhaust)
  obtain st' e' t' where g': "GetStats E (db k) a = ((st', e'), t')" by (metis prod.exhaust)
  note c = same_getStats [OF same_frontD(2) [OF assms] g g']
  from c(4) c(1-3) g g' front_counts(2) [OF same_frontD(1) [OF assms]] erase_Abbreviation [of st st'] show ?thesis
    by (auto simp: statsHandler_def Let_def same_def)
qed

lemma same_statsUiHandler:
  assumes "same h k" "same_web W V"
  shows "erase (fst (statsUiHandler W D a h)) = erase (fst (statsUiHandler V E a k)) \<and>
    same (snd (statsUiHandler W D a h)) (snd (statsUiHandler V E a k))"
proof -
  obtain st e s' where g: "GetStats D (db h) a = ((st, e), s')" by (metis prod.exhaust)
  obtain st' e' t' where g': "GetStats E (db k) a = ((st', e'), t')" by (metis prod.exhaust)
  note c = same_getStats [OF same_frontD(2) [OF assms(1)] g g']
  have same: "same (h\<lparr>db := s'\<rparr>) (k\<lparr>db := t'\<rparr>)" using c(3) assms(1) by (simp add: same_def)
  show ?thesis
  proof (cases "Abbreviation st = ''''")
    case True
    with c g g' same show ?thesis by (auto simp: statsUiHandler_def Let_def)
  next
    case False
    with c have e: "erase_stats st = erase_stats st'" "Abbreviation st' \<noteq> ''''" using erase_Abbreviation [of st st'] by auto
    show ?thesis
    proof (cases "stats_template W")
      case None
      with assms(2) have "stats_template V = None" by (auto simp: same_web_def split: option.splits)
      with None False c(1,2) e g g' same show ?thesis by (simp add: statsUiHandler_def Let_def)
    next
      case (Some f)
      with assms(2) e(1) obtain f' where "stats_template V = Some f'" "f st = f' st'"
        by (auto simp: same_web_def split: option.splits)
      with Some False c(1,2) e g g' same show ?thesis
        by (cases "f' st'") (simp_all add: statsUiHandler_def Let_def)
    qed
  qed
qed

lemma same_addHandler:
  assumes "same h k" "same_web W V" "1 \<le> keySize (gener h)" "addHandler env W D body h = Some (r, h')"
  shows "\<exists>r' k'. addHandler env V E body k = Some (r', k') \<and> erase r = erase r' \<and> same h' k'"
proof (cases "read_url W body")
  case (Inl x)
  with same_read_url [OF assms(2), of body] obtain x' where "read_url V body = Inl x'" "erase x = erase x'" by auto
  with Inl assms(1,4) front_counts(3) [OF same_frontD(1) [OF assms(1)]] show ?thesis
    by (auto simp: addHandler_refused same_def)
next
  case (Inr u)
  with same_read_url [OF assms(2), of body] have v: "read_url V body = Inr u" by simp
  note db = same_frontD(2) [OF assms(1)] and fr = front_counts(3) [OF same_frontD(1) [OF assms(1)]]
  have gen: "gener k = gener h" using frontD [OF same_frontD(1) [OF assms(1)]] by simp
  obtain b e s1 where ga: "GetAbv D (db h) u = ((b, e), s1)" by (metis prod.exhaust)
  obtain t1 where ga': "GetAbv E (db k) u = ((b, e), t1)" "same_db s1 t1"
    using same_getAbv [OF db, of u] ga by (cases "GetAbv E (db k) u") auto
  show ?thesis
  proof (cases "b = ''''")
    case False
    with assms(4) Inr v ga ga' fr show ?thesis by (auto simp: addHandler_def Let_def same_def)
  next
    case True
    with assms(4) Inr ga obtain a e1 g2 s2 where c: "CreateAbbreviation env D u (gener h) s1 = Some ((a, e1), g2, s2)"
      by (auto simp: addHandler_def Let_def bind_eq_Some_conv)
    from same_create [OF c ga'(2)] obtain t2 where c': "CreateAbbreviation env E u (gener k) t1 = Some ((a, e1), g2, t2)"
      and s2: "same_db s2 t2" using gen by auto
    have s1: "inv s1" "links s1 = links (db h)" "u \<notin> ran (links (db h))"
      using one.getAbv [OF _ ga] one.getAbv_nil [OF _ ga] db True by (auto simp: same_db_def)
    have free: "e1 = None" "links s1 a = None \<or> links s1 a = Some u" using one.create_free [OF s1(1) c] by simp_all
    have "savable (links s2) a u"
      using free s1(2,3) one.create_frame [OF s1(1) c] read_url_nonempty [OF Inr]
        chosen_nonempty [OF CreateAbbreviation_chosen(1) [OF c free(1)] assms(3)]
      by (auto simp: savable_def ran_def)
    note sv = same_save [OF s2 this]
    obtain s3 where s3: "Save D s2 a u = (None, s3)" using sv(1) by (metis prod.collapse)
    obtain t3 where t3: "Save E t2 a u = (None, t3)" using sv(2) by (metis prod.collapse)
    have "r = JSONResp 200 (JUrl (createReturn a))" "h' = (count_new h)\<lparr>gener := g2, db := s3\<rparr>"
      using assms(4) Inr ga True c free(1) s3 by (simp_all add: addHandler_def)
    moreover have "addHandler env V E body k = Some (JSONResp 200 (JUrl (createReturn a)), (count_new k)\<lparr>gener := g2, db := t3\<rparr>)"
      using v ga'(1) True c' free(1) t3 by (simp add: addHandler_def)
    ultimately show ?thesis using sv(3) s3 t3 fr by (simp add: same_def)
  qed
qed

end


context same_service
begin

lemma same_dispatch:
  assumes "same h k" "same_web W V" "1 \<le> keySize (gener h)" "dispatch env W D c h = Some ((r, hs), h')"
  shows "\<exists>r' k'. dispatch env V E c k = Some ((r', hs), k') \<and> erase r = erase r' \<and> same h' k'"
proof (cases "route_of c")
  case None
  with assms show ?thesis by (auto simp: dispatch_def reply_def)
next
  case (Some ro)
  note f = frontD [OF same_frontD(1) [OF assms(1)]]
  show ?thesis
  proof (cases ro)
    case R_add
    with Some assms(4) have "addHandler env W D (Body c) h = Some (r, h')" "hs = []" by (auto simp: dispatch_def reply_def)
    with same_addHandler [OF assms(1-3) this(1)] Some R_add show ?thesis by (auto simp: dispatch_def reply_def)
  next
    case R_get
    with Some assms(4) same_getHandler [OF assms(1), of "Param c"] show ?thesis
      by (auto simp: dispatch_def reply_def split_beta)
  next
    case R_delete
    with Some assms(4) same_deleteHandler [OF assms(1), of "Param c"] show ?thesis
      by (auto simp: dispatch_def reply_def split_beta)
  next
    case R_stats
    with Some assms(4) same_statsHandler [OF assms(1), of "Param c"] show ?thesis
      by (auto simp: dispatch_def reply_def split_beta)
  next
    case R_statsUi
    with Some assms(4) same_statsUiHandler [OF assms(1,2), of "Param c"] show ?thesis
      by (auto simp: dispatch_def reply_def split_beta)
  next
    case R_metrics
    with Some assms(1,4) f show ?thesis by (auto simp: dispatch_def reply_def metricsHandler_def same_def front_def)
  qed (use Some assms(1,2,4) f in \<open>auto simp: dispatch_def reply_def same_web_def\<close>)
qed

lemma same_serve:
  assumes "same h k" "same_web W V" "1 \<le> keySize (gener h)" "serve env W D c h = Some ((r, hs), h')"
  shows "\<exists>r' k'. serve env V E c k = Some ((r', hs), k') \<and> erase r = erase r' \<and> same h' k'"
proof -
  let ?p = "\<lambda>h. if Path c = statusPath then h\<lparr>hmetrics := (hmetrics h)\<lparr>StatusReqs := StatusReqs (hmetrics h) + 1\<rparr>\<rparr> else h"
  let ?k0 = "if Path c = statusPath then k\<lparr>hmetrics := (hmetrics k)\<lparr>StatusReqs := StatusReqs (hmetrics k) + 1\<rparr>\<rparr> else k"
  note f = frontD [OF same_frontD(1) [OF assms(1)]]
  have s0: "same (?p h) ?k0" using assms(1) f by (simp add: same_def front_def)
  have eq: "hid (?p h) = hid ?k0" "otelMetrics (?p h) = otelMetrics h" "otelMetrics ?k0 = otelMetrics h" "gener (?p h) = gener h"
    using f by simp_all
  from assms(4) obtain hs1 h1 where d: "dispatch env W D c (?p h) = Some ((r, hs1), h1)"
    and hs: "hs = (''x-instance-uuid'', hid (?p h)) # hs1"
    and h': "h' = (if otelMetrics h = None \<or> is_panic r then h1 else record_duration c (response_status r) h1)"
    unfolding serve_def statusHitsCounter_def otelRequestDuration_def idHeader_def
    using eq(2) by (auto split: option.splits)
  have "1 \<le> keySize (gener (?p h))" using assms(3) eq(4) by simp
  from same_dispatch [OF s0 assms(2) this d] obtain r' k1 where
    d': "dispatch env V E c ?k0 = Some ((r', hs1), k1)" and e: "erase r = erase r'" and s1: "same h1 k1" by blast
  let ?k' = "if otelMetrics h = None \<or> is_panic r' then k1 else record_duration c (response_status r') k1"
  have "serve env V E c k = Some ((r', hs), ?k')"
    unfolding serve_def statusHitsCounter_def otelRequestDuration_def idHeader_def
    using d' hs eq(1,3) by (auto split: option.splits)
  moreover have "same h' ?k'"
    using s1 erase_same [OF e] frontD [OF same_frontD(1) [OF s1]]
    by (auto simp: h' record_duration_def same_def front_def split: option.splits)
  ultimately show ?thesis using e by blast
qed

lemma same_serve_all:
  assumes "same h k" "same_web W V" "1 \<le> keySize (gener h)" "serve_all env W D cs h = Some (rs, h')"
  shows "\<exists>rs' k'. serve_all env V E cs k = Some (rs', k') \<and> same h' k' \<and>
    map (\<lambda>(r, hs). (erase r, hs)) rs = map (\<lambda>(r, hs). (erase r, hs)) rs'"
  using assms
proof (induction cs arbitrary: h k rs)
  case (Cons c cs)
  from Cons.prems(4) obtain r hs h1 rs1 where 1: "serve env W D c h = Some ((r, hs), h1)"
    and 2: "serve_all env W D cs h1 = Some (rs1, h')" and rs: "rs = (r, hs) # rs1"
    by (auto simp: bind_eq_Some_conv)
  obtain r' k1 where k1: "serve env V E c k = Some ((r', hs), k1)" "erase r = erase r'" "same h1 k1"
    using same_serve [OF Cons.prems(1-3) 1] by blast
  have "1 \<le> keySize (gener h1)" using serve_keySize [OF 1] Cons.prems(3) by simp
  from Cons.IH [OF k1(3) Cons.prems(2) this 2] k1(1,2) rs show ?case by auto
qed auto

end

text \<open>The roles can be exchanged.\<close>

lemma same_web_sym: "same_web W V \<Longrightarrow> same_web V W"
  unfolding same_web_def by (auto split: option.splits) metis+

sublocale same_service \<subseteq> swap: same_service E inv' links' D inv links
  by unfold_locales

context same_service
begin

lemma same_swap: "same h k \<Longrightarrow> swap.same k h"
  by (simp add: same_def swap.same_def same_db_def swap.same_db_def)

lemma answers_eq:
  assumes "same h k" "same_web W V" "1 \<le> keySize (gener h)"
  shows "answers env W D cs h = answers env V E cs k"
proof (cases "serve_all env W D cs h")
  case (Some x)
  obtain rs h' where x: "x = (rs, h')" by (metis prod.exhaust)
  from same_serve_all [OF assms Some [unfolded x]] Some x show ?thesis by (auto simp: answers_def)
next
  case None
  have k: "1 \<le> keySize (gener k)" using assms(1,3) frontD [OF same_frontD(1) [OF assms(1)]] by simp
  show ?thesis
  proof (cases "serve_all env V E cs k")
    case (Some y)
    obtain rs' k' where y: "y = (rs', k')" by (metis prod.exhaust)
    from swap.same_serve_all [OF same_swap [OF assms(1)] same_web_sym [OF assms(2)] k Some [unfolded y]] None
    show ?thesis by auto
  qed (simp add: None answers_def)
qed

end

section \<open>Five stores\<close>

interpretation mem_lite: same_service memory_dao coherent mem_links sqlite_dao "store_works lite_dup wf_tables" db_links
  by unfold_locales

interpretation mem_redis: same_service memory_dao coherent mem_links redis_dao rd_works rd_links
  by unfold_locales

interpretation mem_mongo: same_service memory_dao coherent mem_links mongo_dao mo_works mo_links
  by unfold_locales




lemma front_over [simp]: "front (over d) = front (over d')"
  by (simp add: front_def over_def CreateHandlers_def)


end
