(* ===== verification/Spec2Isabelle.thy ===== *)
theory Spec2Isabelle
  imports Server SqlHits Interchange
begin

text \<open>
  HEADER
\<close>

section \<open>The service over the in-memory store\<close>

text \<open>Every state the service gets to by requests is coherent.\<close>

lemma served_ok:
  assumes "1 \<le> IntOrDefault env ''startingkeysize'' 1"
    and "serve_all env W memory_dao cs (fresh env r c s om) = Some (rs, h)"
  shows "coherent (db h) \<and> 1 \<le> keySize (gener h)"
  using mem.serve_all_db [OF _ _ assms(2) has_room_True] assms(1)
  by (simp add: coherent_Create init_gen_keySize)

text \<open>
  C1. A link the service has confirmed keeps redirecting to the URL of its request, whatever
  requests came before and come after, until somebody asks for its deletion.
\<close>

theorem confirmed_link_resolves:
  assumes "1 \<le> IntOrDefault env ''startingkeysize'' 1"
    and "serve_all env W memory_dao before (fresh env r c s om) = Some (rs0, h)"
    and "serve env W memory_dao req h = Some ((JSONResp 200 (JUrl ret), hs), h1)"
    and "serve_all env W memory_dao after h1 = Some (rs, h2)"
    and "\<forall>req' \<in> set after. \<not> deletes (Abv ret) req'"
  shows "\<exists>u. read_url W (Body req) = Inr u \<and>
    fst (getHandler memory_dao (Abv ret) h2) = RedirectResp 302 u"
  using served_ok [OF assms(1,2)] mem.confirmed_resolves [OF _ _ has_room_True assms(3,4,5)] by blast

theorem confirmed_link_resolves_witness:
  "fst (getHandler memory_dao ''0'' (served_one ''http://h'')) = RedirectResp 302 ''http://h''"
proof -
  have "\<exists>u. read_url (web0 :: href web_lib) (Body (add0 ''http://h'')) = Inr u \<and>
    fst (getHandler memory_dao (Abv (createReturn ''0'')) (served_one ''http://h'')) = RedirectResp 302 u"
    by (rule confirmed_link_resolves [where env = noenv and before = "[]" and after = "[]" and h = fresh0
          and r = zeros and c = clock0 and s = status0 and om = None])
      (simp_all add: noenv_keySize serve_add0 fresh0_def [symmetric])
  then show ?thesis by (simp add: read_url_def web0_def createReturn_def)
qed

section \<open>Creating a link\<close>

lemma mem_links_finite: "coherent d \<Longrightarrow> finite (dom (mem_links d))"
  using wf_mem_finite [OF coherent_wf] by (simp add: dom_def)

text \<open>
  C8. Over the in-memory store CreateAbbreviation always comes back, without an error, as soon as the
  word generator does: with an acceptable word over the alphabet that is free, or names this very
  URL, and with the stored links as they were.
\<close>

theorem create_abbreviation_total:
  assumes "coherent d" "generator_live env (draws (src g))"
  shows "\<exists>a g' d'. CreateAbbreviation env memory_dao url g d = Some ((a, None), g', d') \<and>
    (mem_links d a = None \<or> mem_links d a = Some url) \<and> AcceptableWord a \<and> set a \<subseteq> set chars \<and>
    mem_links d' = mem_links d \<and> coherent d'"
proof -
  obtain a e g' d' where c: "CreateAbbreviation env memory_dao url g d = Some ((a, e), g', d')"
    using mem.create_returns [OF assms(2,1) mem_links_finite [OF assms(1)]] by (metis prod.exhaust)
  from mem.create_free [OF assms(1) c] have e: "e = None" "mem_links d a = None \<or> mem_links d a = Some url"
    by simp_all
  from CreateAbbreviation_chosen(1) [OF c e(1)] have "chosen g a g'" .
  with c e mem.create_frame [OF assms(1) c] show ?thesis by (auto simp: chosen_def)
qed

theorem create_abbreviation_total_witness:
  "\<exists>a g' d'. CreateAbbreviation noenv memory_dao ''http://x'' \<lparr>keySize = 1, src = zeros\<rparr> one_link = Some ((a, None), g', d') \<and>
    (mem_links one_link a = None \<or> mem_links one_link a = Some ''http://x'') \<and> AcceptableWord a \<and> set a \<subseteq> set chars \<and>
    mem_links d' = mem_links one_link \<and> coherent d'"
  by (rule create_abbreviation_total [OF one_link_ok(1)]) (simp add: zeros_def generator_live_zeros)

text \<open>
  C2. A valid request to shorten a URL is always answered with 200 and an abbreviation that leads to
  the URL: the one it has when it is known, else one that was free; the other links are left alone.
  Asking again for the URL gives the same abbreviation.
\<close>

theorem add_always_succeeds:
  assumes "coherent (db h)" "1 \<le> keySize (gener h)" "generator_live env (draws (src (gener h)))"
    and "read_url W body = Inr u"
  shows "\<exists>a h'. addHandler env W memory_dao body h = Some (JSONResp 200 (JUrl (createReturn a)), h') \<and>
    mem_links (db h') = (mem_links (db h))(a \<mapsto> u) \<and>
    (mem_links (db h) a = None \<or> mem_links (db h) a = Some u) \<and>
    (\<exists>h''. addHandler env W memory_dao body h' = Some (JSONResp 200 (JUrl (createReturn a)), h''))"
proof -
  obtain r h' where r: "addHandler env W memory_dao body h = Some (r, h')"
    using mem.add_total [OF assms mem_links_finite [OF assms(1)]] .
  from mem.add_answered [OF assms(1,2,4) r TrueI] r show ?thesis by blast
qed

theorem add_always_succeeds_witness:
  "\<exists>a h'. addHandler noenv web0 memory_dao ''http://h'' fresh0 = Some (JSONResp 200 (JUrl (createReturn a)), h') \<and>
    mem_links (db h') = (mem_links (db fresh0))(a \<mapsto> ''http://h'') \<and>
    (mem_links (db fresh0) a = None \<or> mem_links (db fresh0) a = Some ''http://h'') \<and>
    (\<exists>h''. addHandler noenv web0 memory_dao ''http://h'' h' = Some (JSONResp 200 (JUrl (createReturn a)), h''))"
  by (rule add_always_succeeds)
    (simp_all add: coherent_Create zeros_def generator_live_zeros read_url_def web0_def)

text \<open>
  C22. A body that is not a JSON string, an empty URL, or one without scheme or host is refused: the
  answer is an error of status 400 or 500, and over any store the request does nothing but count
  itself, for the store and the generator of abbreviations are left as they were.
\<close>

theorem bad_request_refused:
  assumes "snd (decode_string W body) \<noteq> None \<or> fst (decode_string W body) = '''' \<or>
    (case ParseRequestURI W (fst (decode_string W body)) of None \<Rightarrow> True
     | Some (scheme, host) \<Rightarrow> scheme = '''' \<or> host = '''')"
  shows "\<exists>n m. addHandler env W D body h = Some (StringResp n m, count_new h) \<and> n \<in> {400, 500} \<and>
    db (count_new h) = db h \<and> gener (count_new h) = gener h"
proof -
  have "\<exists>r. read_url W body = Inl r"
    using assms by (auto simp: read_url_def split: prod.splits option.splits)
  then obtain r where r: "read_url W body = Inl r" by blast
  from read_url_refused [OF r] addHandler_refused [OF r, of env D h] show ?thesis by auto
qed

theorem bad_request_refused_witness:
  "\<exists>n m. addHandler noenv web0 memory_dao '''' fresh0 = Some (StringResp n m, count_new fresh0) \<and> n \<in> {400, 500} \<and>
    db (count_new fresh0) = db fresh0 \<and> gener (count_new fresh0) = gener fresh0"
  by (rule bad_request_refused) (simp add: web0_def)

section \<open>Deleting a link and reading its statistics\<close>

text \<open>
  C18. A deletion is always confirmed, whether or not the abbreviation was in use; afterwards the
  abbreviation is answered with 404 and every other one as before.
\<close>

theorem delete_is_final:
  assumes "coherent (db h)"
  shows "fst (deleteHandler memory_dao a h) = JSONResp 200 (JText ''deleted'') \<and>
    (\<forall>b. fst (getHandler memory_dao b (snd (deleteHandler memory_dao a h))) =
       (if b = a then StringResp 404 ''No link found'' else fst (getHandler memory_dao b h)))"
  using mem.deleteHandler_response [OF assms] mem.delete_then_get [OF assms] by blast

theorem delete_is_final_witness:
  "fst (getHandler memory_dao ''k'' (snd (deleteHandler memory_dao ''k'' (fresh0\<lparr>db := one_link\<rparr>))))
     = StringResp 404 ''No link found''"
  using delete_is_final [of "fresh0\<lparr>db := one_link\<rparr>" "''k''"] one_link_ok(1) by simp

text \<open>
  The statistics of an abbreviation in use are answered with 200 and the abbreviation, its URL,
  its hit count and the time of its last access as the store holds them; those of any other word
  with 404.
\<close>

theorem stats_reported:
  assumes "coherent (db h)"
  shows "case mem_view (db h) a of
      None \<Rightarrow> fst (statsHandler memory_dao a h) = StringResp 404 ''No link found''
    | Some l \<Rightarrow> \<exists>st. fst (statsHandler memory_dao a h) = JSONResp 200 (JStats st) \<and> Abbreviation st = a \<and>
        Url st = target l \<and> Hits st = hit_count l \<and> LastAccess st = last_access l \<and>
        days_of (db h) st = daily l"
proof (cases "abvNdxMap (db h) a")
  case None
  then show ?thesis by (simp add: mem_view_def statsHandler_def mem_GetStats_def zero_ShortUrl_def)
next
  case (Some p)
  with coherent_abv [OF assms Some] show ?thesis
    by (simp add: mem_view_def obj_link_def statsHandler_def mem_GetStats_def days_of_def)
qed

theorem stats_reported_witness:
  "\<exists>st. fst (statsHandler memory_dao ''k'' (fresh0\<lparr>db := one_link\<rparr>)) = JSONResp 200 (JStats st) \<and> Url st = ''http://h''"
proof -
  have "map_option target (mem_view one_link ''k'') = Some ''http://h''"
    using one_link_ok(3) by (simp add: mem_links_view [symmetric])
  then obtain l where "mem_view one_link ''k'' = Some l" "target l = ''http://h''" by auto
  with stats_reported [of "fresh0\<lparr>db := one_link\<rparr>" "''k''"] one_link_ok(1) show ?thesis by auto
qed

section \<open>What a collision does\<close>

text \<open>The hits that look-ups of one word leave on its link.\<close>

lemma gets_hits:
  assumes "wf_mem d" "mem_view d b = Some l" "target l \<noteq> ''''"
  shows "\<exists>l'. mem_view (dao_run memory_dao d (map CGetUrl as)) b = Some l' \<and> target l' = target l \<and>
    hit_count l' = hit_count l + of_nat (count_list as b)"
  using assms
proof (induction as arbitrary: d l)
  case (Cons a as)
  let ?d = "snd (mem_GetUrl d a)"
  have v: "mem_view ?d = snd (spec_get (now1 d) (hit_date d) (mem_view d) a)"
    using mem_view_GetUrl [OF Cons.prems(1), of a] by (metis snd_conv)
  have "\<exists>l1. mem_view ?d b = Some l1 \<and> target l1 = target l \<and>
      hit_count l1 = hit_count l + of_bool (a = b)"
    using Cons.prems(2,3) by (auto simp: v spec_get_def hit_link_def split: option.splits)
  then obtain l1 where l1: "mem_view ?d b = Some l1" "target l1 = target l"
    "hit_count l1 = hit_count l + of_bool (a = b)" by blast
  from Cons.IH [OF wf_mem_GetUrl [OF Cons.prems(1)] l1(1)] Cons.prems(3) l1(2,3)
  show ?case by (auto simp: ac_simps)
qed simp


text \<open>A generator that draws the word in use first, and then one that is free.\<close>

definition rigged :: gen where
  "rigged = \<lparr>keySize = 1, src = \<lparr>draws = (\<lambda>i. if i = 0 then 10 else 27), pos = 0\<rparr>\<rparr>"

lemma rigged_words:
  "randString noenv rigged = Some (''k'', rigged\<lparr>src := (src rigged)\<lparr>pos := 1\<rparr>\<rparr>)"
  "randString noenv (rigged\<lparr>src := (src rigged)\<lparr>pos := 1\<rparr>\<rparr>) = Some (''1'', rigged\<lparr>src := (src rigged)\<lparr>pos := 2\<rparr>\<rparr>)"
proof -
  have "chars ! 10 = CHR ''k''" "chars ! 27 = CHR ''1''" by (simp_all add: chars_def)
  then show "randString noenv rigged = Some (''k'', rigged\<lparr>src := (src rigged)\<lparr>pos := 1\<rparr>\<rparr>)"
    "randString noenv (rigged\<lparr>src := (src rigged)\<lparr>pos := 1\<rparr>\<rparr>) = Some (''1'', rigged\<lparr>src := (src rigged)\<lparr>pos := 2\<rparr>\<rparr>)"
    using randString_short by (simp_all add: rigged_def draw_eq word_at_def)
qed

lemma rigged_create:
  "\<exists>g' d'. CreateAbbreviation noenv memory_dao ''http://x'' rigged one_link = Some ((''1'', None), g', d')"
proof -
  let ?d1 = "snd (mem_GetUrl one_link ''k'')"
  let ?d2 = "snd (mem_GetUrl ?d1 ''k'')"
  have d1: "coherent ?d1" "mem_links ?d1 = mem_links one_link"
    using mem.getUrl_frame [OF one_link_ok(1), of "''k''"] by simp_all
  have d2: "coherent ?d2" "mem_links ?d2 = mem_links one_link"
    using mem.getUrl_frame [OF d1(1), of "''k''"] d1(2) by simp_all
  have "fst (mem_GetUrl one_link ''k'') = (''http://h'', None)" "fst (mem_GetUrl ?d1 ''k'') = (''http://h'', None)"
    "fst (mem_GetUrl ?d2 ''1'') = ('''', None)"
    using mem.getUrl_answer [OF one_link_ok(1), of "''k''"] mem.getUrl_answer [OF d1(1), of "''k''"]
      mem.getUrl_answer [OF d2(1), of "''1''"] d1(2) d2(2)
    by (simp_all add: one_link_ok(3))
  moreover have "snd (count_try noenv 0 (rigged\<lparr>src := (src rigged)\<lparr>pos := 1\<rparr>\<rparr>)) = rigged\<lparr>src := (src rigged)\<lparr>pos := 1\<rparr>\<rparr>"
    by (simp add: count_try_def keygrowretries_def noenv_def)
  ultimately show ?thesis
    by (simp add: CreateAbbreviation_def rigged_words create_loop_stop
        create_loop.simps [of noenv memory_dao "''http://x''" 0 "''k''"] Let_def del: One_nat_def)
qed


end
